(* ===== verification/Prelude.thy ===== *)
theory Prelude
  imports Main "HOL-Library.Word"
begin

text \<open>
  Shared vocabulary of the development: Go results as HOL values, the sequential
  early-return style of the validators (\<open>if cond { return err }\<close> and
  \<open>for ... { if err := f(x); err != nil { return err } }\<close>), nil-safe protobuf
  getters, and the two locales that several validators share.

  \<^item> A Go \<open>error\<close> is an \<open>'e option\<close>: \<open>None\<close> is \<open>nil\<close>.
  \<^item> A function that returns a value or an error is an \<open>'e + 'a\<close>.
  \<^item> A function that may also panic returns a \<open>verdict\<close>.
  \<^item> A pointer to a message is an \<open>option\<close>; a slice of pointers is a list of options.
\<close>

named_theorems accept_iff \<open>characterisations of when a validator returns no error\<close>

type_synonym int32 = "32 word"
type_synonym int64 = "64 word"

subsection \<open>Sequential checks\<close>

definition reject_if :: "bool \<Rightarrow> 'e \<Rightarrow> 'e option" where
  "reject_if b e = (if b then Some e else None)"

fun chain :: "'e option list \<Rightarrow> 'e option" where
  "chain [] = None"
| "chain (None # es) = chain es"
| "chain (Some e # es) = Some e"

fun first_err :: "('a \<Rightarrow> 'e option) \<Rightarrow> 'a list \<Rightarrow> 'e option" where
  "first_err f [] = None"
| "first_err f (x # xs) = (case f x of Some e \<Rightarrow> Some e | None \<Rightarrow> first_err f xs)"

lemma reject_if_simps [simp]:
  "reject_if True e = Some e"
  "reject_if False e = None"
  "reject_if b e = None \<longleftrightarrow> \<not> b"
  "reject_if b e = Some e' \<longleftrightarrow> b \<and> e' = e"
  by (auto simp: reject_if_def)

lemma chain_Cons: "chain (e # es) = (case e of None \<Rightarrow> chain es | Some x \<Rightarrow> Some x)"
  by (cases e) simp_all

lemma chain_Cons_None [simp]: "chain (e # es) = None \<longleftrightarrow> e = None \<and> chain es = None"
  by (cases e) simp_all

lemma chain_Cons_Some:
  "chain (e # es) = Some x \<longleftrightarrow> e = Some x \<or> (e = None \<and> chain es = Some x)"
  by (cases e) simp_all

lemma chain_mem: "chain es = Some x \<Longrightarrow> list_ex (\<lambda>e. e = Some x) es"
  by (induction es rule: chain.induct) auto

lemma chain_split:
  "chain (as @ b # cs) = Some x \<Longrightarrow>
     list_ex (\<lambda>e. e = Some x) as \<or> b = Some x \<or> b = None \<and> list_ex (\<lambda>e. e = Some x) cs"
  by (induction as rule: chain.induct) (auto simp: chain_Cons chain_mem split: option.splits)

lemma chain_reject:
  "chain (reject_if b e # es) = (if b then Some e else chain es)"
  by (simp add: reject_if_def)

lemma first_err_None [simp]: "first_err f xs = None \<longleftrightarrow> (\<forall>x\<in>set xs. f x = None)"
  by (induction xs) (auto split: option.splits)

lemma first_err_append:
  "first_err f (xs @ ys) = (case first_err f xs of Some e \<Rightarrow> Some e | None \<Rightarrow> first_err f ys)"
  by (induction xs) (auto simp del: first_err_None split: option.splits)

lemma first_err_Some:
  assumes "first_err f xs = Some e"
  obtains ys x zs where "xs = ys @ x # zs" and "\<forall>y\<in>set ys. f y = None" and "f x = Some e"
  using assms
proof (induction xs arbitrary: thesis)
  case Nil
  then show ?case by simp
next
  case (Cons x xs)
  show ?case
  proof (cases "f x")
    case None
    with Cons.prems(2) have "first_err f xs = Some e" by simp
    then obtain ys y zs where "xs = ys @ y # zs" "\<forall>y\<in>set ys. f y = None" "f y = Some e"
      using Cons.IH by blast
    with None show ?thesis by (intro Cons.prems(1) [of "x # ys" y zs]) auto
  next
    case (Some e')
    with Cons.prems show ?thesis by (intro Cons.prems(1) [of "[]" x xs]) auto
  qed
qed

lemma first_err_mem: "first_err f xs = Some e \<Longrightarrow> \<exists>x\<in>set xs. f x = Some e"
  by (induction xs) (auto split: option.splits)

subsection \<open>Outcomes that include a panic\<close>

datatype 'e verdict = Accept | Reject 'e | Panics

fun verdict_of :: "'e option \<Rightarrow> 'e verdict" where
  "verdict_of None = Accept"
| "verdict_of (Some e) = Reject e"

fun and_then :: "'e verdict \<Rightarrow> 'e verdict \<Rightarrow> 'e verdict" where
  "and_then Accept v = v"
| "and_then (Reject e) v = Reject e"
| "and_then Panics v = Panics"

lemma verdict_of_iff [simp]:
  "verdict_of r = Accept \<longleftrightarrow> r = None"
  "verdict_of r = Reject e \<longleftrightarrow> r = Some e"
  "verdict_of r \<noteq> Panics"
  by (cases r; simp)+

lemma and_then_iff [simp]:
  "and_then v w = Accept \<longleftrightarrow> v = Accept \<and> w = Accept"
  "and_then v w = Panics \<longleftrightarrow> v = Panics \<or> (v = Accept \<and> w = Panics)"
  by (cases v; simp)+

subsection \<open>Nil-safe getters\<close>

text \<open>
  Every generated accessor has the shape
  \<open>func (x *T) GetF() F { if x != nil { return x.F }; return zero }\<close>.
\<close>

fun getter :: "('a \<Rightarrow> 'b) \<Rightarrow> 'b \<Rightarrow> 'a option \<Rightarrow> 'b" where
  "getter f z None = z"
| "getter f z (Some x) = f x"

lemma getter_eq_zero: "f x = z \<Longrightarrow> getter f z (Some x) = z"
  by simp

subsection \<open>A validator with a declarative meaning\<close>

locale checker =
  fixes check :: "'a \<Rightarrow> 'e option"
    and ok :: "'a \<Rightarrow> bool"
  assumes check_None: "check x = None \<longleftrightarrow> ok x"
begin

lemma loop_None: "first_err check xs = None \<longleftrightarrow> list_all ok xs"
  by (simp add: check_None list_all_iff)

lemma loop_first_failure:
  assumes "first_err check xs = Some e"
  shows "\<exists>ys x zs. xs = ys @ x # zs \<and> list_all ok ys \<and> \<not> ok x \<and> check x = Some e"
proof -
  obtain ys x zs where "xs = ys @ x # zs" "\<forall>y\<in>set ys. check y = None" "check x = Some e"
    using assms by (rule first_err_Some)
  then show ?thesis by (metis check_None list_all_iff option.distinct(1))
qed

lemma loop_prefix_closed: "first_err check (xs @ ys) = None \<Longrightarrow> first_err check xs = None"
  by (simp add: first_err_append del: first_err_None split: option.splits)

end

text \<open>A validator whose errors are true of what they report.\<close>

locale diagnosing = checker +
  fixes finding :: "'a \<Rightarrow> 'b \<Rightarrow> bool"
  assumes check_Some: "check x = Some e \<Longrightarrow> finding x e"
begin

lemma loop_finding:
  assumes "first_err check xs = Some e"
  shows "\<exists>x\<in>set xs. \<not> ok x \<and> finding x e"
proof -
  obtain ys x zs where "xs = ys @ x # zs" "\<not> ok x" "check x = Some e"
    using loop_first_failure [OF assms] by blast
  then show ?thesis by (auto intro: check_Some)
qed

end

subsection \<open>Loops that reject duplicate keys\<close>

text \<open>
  Three validators walk a list with a \<open>seen\<close> map: skip nil elements, run the checks
  before the duplicate test, reject a key already seen, run the checks after it.
\<close>

locale seen_loop =
  fixes loop :: "'k set \<Rightarrow> 'a list \<Rightarrow> 'e + 'k set"
    and skip :: "'a \<Rightarrow> bool"
    and key :: "'a \<Rightarrow> 'k"
    and pre :: "'a \<Rightarrow> 'e option"
    and dup :: "'a \<Rightarrow> 'e"
    and post :: "'a \<Rightarrow> 'e option"
  assumes loop_Nil: "loop seen [] = Inr seen"
    and loop_Cons: "loop seen (x # xs) =
      (if skip x then loop seen xs
       else case chain [pre x, reject_if (key x \<in> seen) (dup x), post x] of
              Some e \<Rightarrow> Inl e
            | None \<Rightarrow> loop (insert (key x) seen) xs)"
begin

lemma loop_Inr:
  "loop seen xs = Inr s \<longleftrightarrow>
     (\<forall>x\<in>set xs. \<not> skip x \<longrightarrow> pre x = None \<and> post x = None)
     \<and> distinct (map key (filter (\<lambda>x. \<not> skip x) xs))
     \<and> key ` {x \<in> set xs. \<not> skip x} \<inter> seen = {}
     \<and> s = seen \<union> key ` {x \<in> set xs. \<not> skip x}"
proof (induction xs arbitrary: seen)
  case Nil
  then show ?case by (auto simp: loop_Nil)
next
  case (Cons x xs)
  show ?case
  proof (cases "skip x")
    case True
    then have "{y \<in> set (x # xs). \<not> skip y} = {y \<in> set xs. \<not> skip y}" by auto
    with True show ?thesis by (simp add: loop_Cons Cons.IH)
  next
    case False
    let ?ks = "key ` {y \<in> set xs. \<not> skip y}"
    from False have image: "key ` {y \<in> set (x # xs). \<not> skip y} = insert (key x) ?ks"
      by auto
    show ?thesis
    proof (cases "pre x = None \<and> post x = None \<and> key x \<notin> seen")
      case True
      then have step: "loop seen (x # xs) = loop (insert (key x) seen) xs"
        using False by (simp add: loop_Cons)
      show ?thesis
        unfolding step Cons.IH image using True False by auto
    next
      case reject: False
      then obtain e where "chain [pre x, reject_if (key x \<in> seen) (dup x), post x] = Some e"
        by (cases "chain [pre x, reject_if (key x \<in> seen) (dup x), post x]") auto
      then have "loop seen (x # xs) = Inl e"
        using False by (simp add: loop_Cons)
      then show ?thesis
        unfolding image using reject False by auto
    qed
  qed
qed

lemma loop_Inl:
  "loop seen xs = Inl e \<Longrightarrow>
     \<exists>ys x zs. xs = ys @ x # zs \<and> \<not> skip x
       \<and> (pre x = Some e \<or> e = dup x \<and> key x \<in> seen \<union> key ` {y \<in> set ys. \<not> skip y} \<or> post x = Some e)"
proof (induction xs arbitrary: seen)
  case Nil
  then show ?case by (simp add: loop_Nil)
next
  case (Cons x xs)
  show ?case
  proof (cases "skip x \<or> chain [pre x, reject_if (key x \<in> seen) (dup x), post x] = None")
    case True
    define seen' where "seen' = (if skip x then seen else insert (key x) seen)"
    from True Cons.prems have "loop seen' xs = Inl e" by (auto simp: loop_Cons seen'_def split: if_splits)
    from Cons.IH [OF this] obtain ys z zs where z: "xs = ys @ z # zs" "\<not> skip z"
      "pre z = Some e \<or> e = dup z \<and> key z \<in> seen' \<union> key ` {y \<in> set ys. \<not> skip y} \<or> post z = Some e" by blast
    have "seen' \<union> key ` {y \<in> set ys. \<not> skip y} = seen \<union> key ` {y \<in> set (x # ys). \<not> skip y}"
      by (auto simp: seen'_def)
    with z have "x # xs = (x # ys) @ z # zs \<and> \<not> skip z \<and> (pre z = Some e
        \<or> e = dup z \<and> key z \<in> seen \<union> key ` {y \<in> set (x # ys). \<not> skip y} \<or> post z = Some e)" by simp
    then show ?thesis by blast
  next
    case False
    with Cons.prems have "chain [pre x, reject_if (key x \<in> seen) (dup x), post x] = Some e"
      by (auto simp: loop_Cons split: option.splits)
    with False have "x # xs = [] @ x # xs \<and> \<not> skip x \<and> (pre x = Some e
        \<or> e = dup x \<and> key x \<in> seen \<union> key ` {y \<in> set []. \<not> skip y} \<or> post x = Some e)"
      by (auto simp: chain_Cons_Some)
    then show ?thesis by blast
  qed
qed

lemma accepts_iff:
  "(\<exists>s. loop {} xs = Inr s) \<longleftrightarrow>
     (\<forall>x\<in>set xs. \<not> skip x \<longrightarrow> pre x = None \<and> post x = None)
     \<and> distinct (map key (filter (\<lambda>x. \<not> skip x) xs))"
  by (auto simp: loop_Inr)

lemma result_keys:
  "loop {} xs = Inr s \<Longrightarrow> s = key ` {x \<in> set xs. \<not> skip x}"
  by (simp add: loop_Inr)

lemma rejects_duplicate:
  assumes "\<not> skip x" "\<not> skip y" "key x = key y"
  shows "\<nexists>s. loop {} (as @ x # bs @ y # cs) = Inr s"
  using assms by (auto simp: loop_Inr)

end

subsection \<open>First match of a list\<close>

lemma find_split:
  "find P xs = Some x \<longleftrightarrow> (\<exists>pre post. xs = pre @ x # post \<and> P x \<and> (\<forall>y\<in>set pre. \<not> P y))"
proof
  assume "find P xs = Some x"
  then show "\<exists>pre post. xs = pre @ x # post \<and> P x \<and> (\<forall>y\<in>set pre. \<not> P y)"
  proof (induction xs)
    case (Cons y ys)
    show ?case
    proof (cases "P y")
      case True
      with Cons.prems have "y # ys = [] @ x # ys \<and> P x" by simp
      then show ?thesis by fastforce
    next
      case False
      with Cons obtain pre post where "ys = pre @ x # post" "P x" "\<forall>z\<in>set pre. \<not> P z" by auto
      with False have "y # ys = (y # pre) @ x # post \<and> P x \<and> (\<forall>z\<in>set (y # pre). \<not> P z)" by simp
      then show ?thesis by blast
    qed
  qed simp
next
  assume "\<exists>pre post. xs = pre @ x # post \<and> P x \<and> (\<forall>y\<in>set pre. \<not> P y)"
  then obtain pre post where xs: "xs = pre @ x # post" "P x" "\<forall>y\<in>set pre. \<not> P y" by blast
  from xs(3) have "find P (pre @ x # post) = Some x" using xs(2) by (induction pre) auto
  with xs(1) show "find P xs = Some x" by simp
qed

subsection \<open>Runs of a step relation\<close>

inductive run :: "('s \<Rightarrow> 'l \<Rightarrow> 's \<Rightarrow> bool) \<Rightarrow> 's \<Rightarrow> 'l list \<Rightarrow> 's \<Rightarrow> bool" for step where
  run_Nil: "run step s [] s"
| run_snoc: "run step s tr t \<Longrightarrow> step t l u \<Longrightarrow> run step s (tr @ [l]) u"

inductive_cases run_NilE: "run step s [] t"
inductive_cases run_snocE: "run step s (tr @ [l]) t"

lemma run_Nil_iff [simp]: "run step s [] t \<longleftrightarrow> t = s"
  by (auto intro: run_Nil elim: run_NilE)

lemma run_snoc_iff: "run step s (tr @ [l]) u \<longleftrightarrow> (\<exists>t. run step s tr t \<and> step t l u)"
  by (auto intro: run_snoc elim: run_snocE)

lemma run_append: "run step s (xs @ ys) u \<longleftrightarrow> (\<exists>t. run step s xs t \<and> run step t ys u)"
  by (induction ys arbitrary: u rule: rev_induct)
    (simp, fastforce simp: run_snoc_iff append_assoc [symmetric] simp del: append_assoc)

lemma run_Cons: "run step s (l # tr) u \<longleftrightarrow> (\<exists>t. step s l t \<and> run step t tr u)"
  using run_append [of step s "[l]" tr u] run_snoc_iff [of step s "[]" l] by simp

text \<open>An invariant that may speak about the history of the run.\<close>

locale safe_system =
  fixes step :: "'s \<Rightarrow> 'l \<Rightarrow> 's \<Rightarrow> bool"
    and init :: 's
    and Inv :: "'l list \<Rightarrow> 's \<Rightarrow> bool"
  assumes Inv_init: "Inv [] init"
    and Inv_step: "Inv tr s \<Longrightarrow> step s l t \<Longrightarrow> Inv (tr @ [l]) t"
begin

lemma Inv_run_from: "run step s tr t \<Longrightarrow> Inv pre s \<Longrightarrow> Inv (pre @ tr) t"
  by (induction rule: run.induct) (auto simp: append_assoc [symmetric] simp del: append_assoc intro: Inv_step)

lemma Inv_run: "run step init tr s \<Longrightarrow> Inv tr s"
  using Inv_run_from [OF _ Inv_init] by simp

lemma Inv_prefix: "run step init (tr @ tr') s \<Longrightarrow> \<exists>t. run step init tr t \<and> Inv tr t"
  by (auto simp: run_append intro: Inv_run)

end

text \<open>
  A system that takes its steps in another one, under \<open>abs\<close>: it has the other's runs and
  invariants. \<open>documented\<close> is what the simulation relies on.
\<close>

locale simulation = safe_system +
  fixes cstep :: "'c \<Rightarrow> 'b \<Rightarrow> 'c \<Rightarrow> bool"
    and cinit :: 'c
    and abs :: "'c \<Rightarrow> 'a"
    and documented :: bool
  assumes abs_init: "documented \<Longrightarrow> abs cinit = init"
    and abs_step: "documented \<Longrightarrow> cstep s l t \<Longrightarrow> step (abs s) l (abs t)"
begin

lemma run_abs: "run cstep s tr t \<Longrightarrow> documented \<Longrightarrow> run step (abs s) tr (abs t)"
  by (induction rule: run.induct) (auto intro: run_Nil run_snoc abs_step)

lemma run_abs_init: "run cstep cinit tr t \<Longrightarrow> documented \<Longrightarrow> run step init tr (abs t)"
  using run_abs [of cinit tr t] by (simp add: abs_init)

lemma Inv_abs: "run cstep cinit tr t \<Longrightarrow> documented \<Longrightarrow> Inv tr (abs t)"
  by (blast intro: Inv_run run_abs_init)

end

end
