(* ===== verification/Go_Text.thy ===== *)
theory Go_Text
  imports Prelude "HOL-Library.Char_ord"
begin

text \<open>
  What the SDK uses of Go's string library, over strings as byte lists (a Go string is a
  sequence of bytes, here a list of \<open>char\<close>). \<open>segs\<close> is the forward UTF-8 decoding that
  \<open>range\<close> over a string, \<open>utf8.RuneCountInString\<close> and the \<open>strings\<close> functions
  perform: each element is a rune with the bytes it was decoded from, and an invalid byte is
  one element with rune U+FFFD. On top of it: \<open>strings.TrimSpace\<close>,
  \<open>unicode.IsSpace\<close>, \<open>unicode.IsControl\<close>, \<open>strings.EqualFold\<close> and
  \<open>strconv\<close>'s decimal conversions.
\<close>

type_synonym rune = nat

definition byte :: "char \<Rightarrow> nat" where
  "byte c = of_char c"

lemma byte_less [simp]: "byte c < 256"
  by (simp add: byte_def of_char_def)

subsection \<open>UTF-8 decoding\<close>

definition cont :: "nat \<Rightarrow> bool" where
  "cont b \<longleftrightarrow> 0x80 \<le> b \<and> b \<le> 0xBF"

text \<open>
  \<open>multi b0 bs\<close>: the rune that lead byte \<open>b0\<close> (at least 0x80) starts and the number of
  continuation bytes it takes, or \<open>None\<close> where \<open>utf8.DecodeRune\<close> gives
  \<open>(RuneError, 1)\<close>. The second byte's range depends on the lead byte, which is how
  overlong forms, surrogates and values above U+10FFFF are refused.
\<close>

definition multi :: "nat \<Rightarrow> nat list \<Rightarrow> (rune \<times> nat) option" where
  "multi b0 bs =
    (if 0xC2 \<le> b0 \<and> b0 \<le> 0xDF then
       (case bs of
          b1 # _ \<Rightarrow> if cont b1 then Some ((b0 - 0xC0) * 64 + (b1 - 0x80), 1) else None
        | _ \<Rightarrow> None)
     else if 0xE0 \<le> b0 \<and> b0 \<le> 0xEF then
       (case bs of
          b1 # b2 # _ \<Rightarrow>
            if (if b0 = 0xE0 then 0xA0 else 0x80) \<le> b1
               \<and> b1 \<le> (if b0 = 0xED then 0x9F else 0xBF) \<and> cont b2
            then Some ((b0 - 0xE0) * 4096 + (b1 - 0x80) * 64 + (b2 - 0x80), 2) else None
        | _ \<Rightarrow> None)
     else if 0xF0 \<le> b0 \<and> b0 \<le> 0xF4 then
       (case bs of
          b1 # b2 # b3 # _ \<Rightarrow>
            if (if b0 = 0xF0 then 0x90 else 0x80) \<le> b1
               \<and> b1 \<le> (if b0 = 0xF4 then 0x8F else 0xBF) \<and> cont b2 \<and> cont b3
            then Some ((b0 - 0xF0) * 262144 + (b1 - 0x80) * 4096 + (b2 - 0x80) * 64
                       + (b3 - 0x80), 3) else None
        | _ \<Rightarrow> None)
     else None)"

function segs :: "string \<Rightarrow> (rune \<times> string) list" where
  "segs [] = []"
| "segs (c # cs) =
     (if byte c < 0x80 then (byte c, [c]) # segs cs
      else case multi (byte c) (map byte (take 3 cs)) of
             None \<Rightarrow> (0xFFFD, [c]) # segs cs
           | Some (r, n) \<Rightarrow> (r, c # take n cs) # segs (drop n cs))"
  by pat_completeness auto
termination
  by (relation "measure length") auto

definition runes :: "string \<Rightarrow> rune list" where
  "runes s = map fst (segs s)"

definition rune_count :: "string \<Rightarrow> nat" where
  "rune_count s = length (runes s)"

lemma concat_segs [simp]: "concat (map snd (segs s)) = s"
  by (induction s rule: segs.induct) (auto split: option.splits)

lemma segs_nonempty: "x \<in> set (segs s) \<Longrightarrow> snd x \<noteq> []"
  by (induction s rule: segs.induct) (auto split: option.splits if_splits)

lemma segs_eq_Nil [simp]: "segs s = [] \<longleftrightarrow> s = []"
  by (cases s) (auto split: option.splits)

lemma rune_count_le: "rune_count s \<le> length s"
proof (induction s rule: segs.induct)
  case 1
  then show ?case by (simp add: rune_count_def runes_def)
next
  case (2 c cs)
  show ?case
  proof (cases "byte c < 0x80")
    case True
    then show ?thesis using "2"(1) by (simp add: rune_count_def runes_def)
  next
    case False
    show ?thesis
    proof (cases "multi (byte c) (map byte (take 3 cs))")
      case None
      with False "2"(2) show ?thesis by (simp add: rune_count_def runes_def)
    next
      case (Some p)
      obtain r n where p: "p = (r, n)" by (cases p)
      have "rune_count (drop n cs) \<le> length (drop n cs)"
        using "2"(3) [OF False Some, of r n] p by simp
      then have "rune_count (drop n cs) \<le> length cs" by simp
      with False Some p show ?thesis by (simp add: rune_count_def runes_def)
    qed
  qed
qed

definition ascii :: "string \<Rightarrow> bool" where
  "ascii s \<longleftrightarrow> (\<forall>c\<in>set s. byte c < 0x80)"

lemma segs_ascii: "ascii s \<Longrightarrow> segs s = map (\<lambda>c. (byte c, [c])) s"
  by (induction s) (auto simp: ascii_def)

lemma runes_ascii: "ascii s \<Longrightarrow> runes s = map byte s"
  by (simp add: runes_def segs_ascii comp_def)

lemma rune_count_ascii: "ascii s \<Longrightarrow> rune_count s = length s"
  by (simp add: rune_count_def runes_ascii)

lemma multi_cont:
  assumes "multi b0 bs = Some (r, n)"
  shows "n \<le> 3 \<and> n \<le> length bs \<and> (\<forall>b\<in>set (take n bs). 0x80 \<le> b)"
  using assms by (auto simp: multi_def cont_def split: if_splits list.splits)

lemma ascii_byte_in_runes: "c \<in> set s \<Longrightarrow> byte c < 0x80 \<Longrightarrow> byte c \<in> set (runes s)"
proof (induction s rule: segs.induct)
  case 1
  then show ?case by simp
next
  case (2 d cs)
  show ?case
  proof (cases "byte d < 0x80")
    case True
    with 2 show ?thesis by (auto simp: runes_def)
  next
    case False
    show ?thesis
    proof (cases "multi (byte d) (map byte (take 3 cs))")
      case None
      with 2 False show ?thesis by (auto simp: runes_def)
    next
      case (Some p)
      obtain r n where p: "p = (r, n)" by (cases p)
      have "n \<le> 3" and "\<forall>b\<in>set (take n (map byte (take 3 cs))). 0x80 \<le> b"
        using multi_cont Some p by blast+
      then have "\<forall>b\<in>set (take n cs). 0x80 \<le> byte b"
        by (simp add: take_map min_absorb1)
      moreover have "c \<in> set (take n cs) \<or> c \<in> set (drop n cs)"
        using 2(4,5) False by (metis Un_iff append_take_drop_id set_ConsD set_append)
      ultimately have "c \<in> set (drop n cs)" using 2(5) by fastforce
      then have "byte c \<in> set (runes (drop n cs))"
        using 2(3) [OF False Some, of r n] 2(5) p by simp
      with False Some p show ?thesis by (simp add: runes_def)
    qed
  qed
qed

subsection \<open>Character classes\<close>

text \<open>\<open>unicode.IsSpace\<close>: the White_Space property.\<close>

definition is_space :: "rune \<Rightarrow> bool" where
  "is_space r \<longleftrightarrow> (9 \<le> r \<and> r \<le> 13) \<or> r = 0x20 \<or> r = 0x85 \<or> r = 0xA0 \<or> r = 0x1680
     \<or> (0x2000 \<le> r \<and> r \<le> 0x200A) \<or> r = 0x2028 \<or> r = 0x2029 \<or> r = 0x202F \<or> r = 0x205F
     \<or> r = 0x3000"

text \<open>\<open>unicode.IsControl\<close>: category Cc.\<close>

definition is_control :: "rune \<Rightarrow> bool" where
  "is_control r \<longleftrightarrow> r < 0x20 \<or> (0x7F \<le> r \<and> r \<le> 0x9F)"

text \<open>\<open>unicode.In(r, unicode.Zl, unicode.Zp)\<close>.\<close>

definition is_line_separator :: "rune \<Rightarrow> bool" where
  "is_line_separator r \<longleftrightarrow> r = 0x2028 \<or> r = 0x2029"

subsection \<open>Trimming\<close>

definition trim_space :: "string \<Rightarrow> string" where
  "trim_space s =
     concat (map snd (rev (dropWhile (is_space \<circ> fst)
       (rev (dropWhile (is_space \<circ> fst) (segs s))))))"

definition trim_suffix :: "string \<Rightarrow> string \<Rightarrow> string" where
  "trim_suffix s suf =
     (if suf = drop (length s - length suf) s then take (length s - length suf) s else s)"

definition trim_right_char :: "char \<Rightarrow> string \<Rightarrow> string" where
  "trim_right_char c s = rev (dropWhile ((=) c) (rev s))"

lemma length_concat_dropWhile_le:
  "length (concat (map snd (dropWhile p xs))) \<le> length (concat (map snd xs))"
  by (induction xs) auto

lemma length_concat_rev: "length (concat (map snd (rev xs))) = length (concat (map snd xs))"
  by (induction xs) auto

lemma length_concat_dropWhile:
  assumes nonempty: "\<forall>x\<in>set xs. snd x \<noteq> []"
    and len: "length (concat (map snd (dropWhile p xs))) = length (concat (map snd xs))"
  shows "dropWhile p xs = xs"
proof (cases xs)
  case Nil
  then show ?thesis by simp
next
  case (Cons x ys)
  have "\<not> p x"
  proof
    assume "p x"
    with len Cons have "length (snd x) + length (concat (map snd ys))
        = length (concat (map snd (dropWhile p ys)))" by simp
    then have "length (snd x) = 0"
      using length_concat_dropWhile_le [of p ys] by linarith
    with nonempty Cons show False by simp
  qed
  with Cons show ?thesis by simp
qed

text \<open>
  The validators compare a value with its trimmed form; the comparison succeeds exactly when
  neither end is a space.
\<close>

lemma trim_space_eq_iff:
  "trim_space s = s \<longleftrightarrow>
     s = [] \<or> (\<not> is_space (fst (hd (segs s))) \<and> \<not> is_space (fst (last (segs s))))"
  (is "_ \<longleftrightarrow> ?R")
proof (cases "s = []")
  case True
  then show ?thesis by (simp add: trim_space_def)
next
  case False
  let ?p = "is_space \<circ> fst"
  let ?l = "dropWhile ?p (segs s)"
  let ?r = "dropWhile ?p (rev ?l)"
  have ne: "segs s \<noteq> []" using False by simp
  have nonempty: "\<forall>x\<in>set (segs s). snd x \<noteq> []" using segs_nonempty by blast
  have le_l: "length (concat (map snd ?l)) \<le> length s"
    using length_concat_dropWhile_le [of ?p "segs s"] by (simp del: length_concat)
  have le_r: "length (concat (map snd ?r)) \<le> length (concat (map snd ?l))"
    using length_concat_dropWhile_le [of ?p "rev ?l"] by (simp only: length_concat_rev)
  show ?thesis
  proof
    assume eq: "trim_space s = s"
    then have "length (concat (map snd ?r)) = length s"
      by (metis length_concat_rev trim_space_def)
    with le_l le_r have "length (concat (map snd ?l)) = length (concat (map snd (segs s)))"
      and len: "length (concat (map snd ?r)) = length (concat (map snd (rev ?l)))"
      by (simp_all add: length_concat_rev del: length_concat)
    then have l: "?l = segs s" using length_concat_dropWhile [OF nonempty] by blast
    have "?r = rev ?l"
      using length_concat_dropWhile [OF _ len] nonempty l by simp
    with l ne have "\<not> ?p (hd (segs s))" "\<not> ?p (hd (rev (segs s)))"
      by (metis hd_dropWhile dropWhile_eq_Nil_conv)
         (metis \<open>?r = rev ?l\<close> l ne hd_dropWhile dropWhile_eq_Nil_conv rev_is_Nil_conv)
    with ne show ?R by (simp add: hd_rev)
  next
    assume ?R
    with False have h: "\<not> ?p (hd (segs s))" and t: "\<not> ?p (last (segs s))" by simp_all
    from h ne have l: "?l = segs s" by (cases "segs s") auto
    from t ne have "?r = rev (segs s)"
      unfolding l by (cases "rev (segs s)") (auto simp: hd_rev [symmetric])
    then show "trim_space s = s" by (simp add: trim_space_def l)
  qed
qed

lemma trim_space_Nil [simp]: "trim_space [] = []"
  by (simp add: trim_space_def)

subsection \<open>Case folding\<close>

text \<open>
  \<open>strings.EqualFold\<close> compares the runes of two strings up to the orbits of
  \<open>unicode.SimpleFold\<close>. \<open>equal_fold f\<close> takes the map from a rune to a representative
  of its orbit. \<open>ascii_fold\<close> is that map for the orbits that meet ASCII, which are
  \<open>A\<close>/\<open>a\<close> to \<open>Z\<close>/\<open>z\<close>, with U+017F (long s) in the orbit of \<open>s\<close> and U+212A
  (Kelvin sign) in the orbit of \<open>k\<close>; when one of the strings is ASCII nothing else about
  the orbits matters.
\<close>

definition ascii_fold :: "rune \<Rightarrow> rune" where
  "ascii_fold r =
     (if 65 \<le> r \<and> r \<le> 90 then r + 32
      else if r = 0x17F then 115
      else if r = 0x212A then 107
      else r)"

definition equal_fold :: "(rune \<Rightarrow> rune) \<Rightarrow> string \<Rightarrow> string \<Rightarrow> bool" where
  "equal_fold f s t \<longleftrightarrow> map f (runes s) = map f (runes t)"

lemma equal_fold_refl [simp]: "equal_fold f s s"
  by (simp add: equal_fold_def)

lemma equal_fold_sym: "equal_fold f s t \<longleftrightarrow> equal_fold f t s"
  by (auto simp: equal_fold_def)

lemma equal_fold_trans: "equal_fold f s t \<Longrightarrow> equal_fold f t u \<Longrightarrow> equal_fold f s u"
  by (simp add: equal_fold_def)

lemma ascii_fold_idem: "ascii_fold (ascii_fold r) = ascii_fold r"
  by (simp add: ascii_fold_def)

subsection \<open>Decimal conversions (strconv)\<close>

definition digit_char :: "nat \<Rightarrow> char" where
  "digit_char d = char_of (48 + d)"

definition digit_val :: "char \<Rightarrow> nat option" where
  "digit_val c = (if 48 \<le> byte c \<and> byte c \<le> 57 then Some (byte c - 48) else None)"

fun show_nat :: "nat \<Rightarrow> string" where
  "show_nat n = (if n < 10 then [digit_char n] else show_nat (n div 10) @ [digit_char (n mod 10)])"

declare show_nat.simps [simp del]

definition show_int :: "int \<Rightarrow> string" where
  "show_int i = (if i < 0 then CHR ''-'' # show_nat (nat (- i)) else show_nat (nat i))"

fun digits_val :: "nat \<Rightarrow> string \<Rightarrow> nat option" where
  "digits_val acc [] = Some acc"
| "digits_val acc (c # cs) =
     (case digit_val c of None \<Rightarrow> None | Some d \<Rightarrow> digits_val (acc * 10 + d) cs)"

definition parse_nat :: "string \<Rightarrow> nat option" where
  "parse_nat s = (if s = [] then None else digits_val 0 s)"

text \<open>
  \<open>strconv.ParseInt(s, 10, 64)\<close> and \<open>strconv.Atoi\<close> on a 64-bit platform: an optional sign,
  at least one digit, and a value in the range of int64.
\<close>

definition in_int64 :: "int \<Rightarrow> bool" where
  "in_int64 i \<longleftrightarrow> - (2 ^ 63) \<le> i \<and> i < 2 ^ 63"

definition parse_int :: "string \<Rightarrow> int option" where
  "parse_int s =
     (case (case s of
              [] \<Rightarrow> None
            | c # cs \<Rightarrow>
                if c = CHR ''-'' then map_option (\<lambda>n. - int n) (parse_nat cs)
                else if c = CHR ''+'' then map_option int (parse_nat cs)
                else map_option int (parse_nat s)) of
        None \<Rightarrow> None
      | Some i \<Rightarrow> if in_int64 i then Some i else None)"

lemma byte_digit_char [simp]: "d < 10 \<Longrightarrow> byte (digit_char d) = 48 + d"
  by (simp add: byte_def digit_char_def)

lemma digit_val_char [simp]: "d < 10 \<Longrightarrow> digit_val (digit_char d) = Some d"
  by (simp add: digit_val_def)

lemma digits_val_append:
  "digits_val acc (xs @ ys) = (case digits_val acc xs of None \<Rightarrow> None | Some n \<Rightarrow> digits_val n ys)"
  by (induction xs arbitrary: acc) (auto split: option.splits)

lemma digits_val_show: "digits_val 0 (show_nat n) = Some n"
proof (induction n rule: show_nat.induct)
  case (1 n)
  then show ?case
    by (cases "n < 10") (simp_all add: show_nat.simps [of n] digits_val_append)
qed

lemma show_nat_nonempty [simp]: "show_nat n \<noteq> []"
  by (simp add: show_nat.simps [of n])

lemma parse_nat_show [simp]: "parse_nat (show_nat n) = Some n"
  by (simp add: parse_nat_def digits_val_show)

lemma show_nat_digits: "c \<in> set (show_nat n) \<Longrightarrow> 48 \<le> byte c \<and> byte c \<le> 57"
proof (induction n rule: show_nat.induct)
  case (1 n)
  then show ?case
    by (cases "n < 10") (auto simp: show_nat.simps [of n])
qed

lemma parse_int_show:
  assumes "in_int64 i"
  shows "parse_int (show_int i) = Some i"
proof (cases "i < 0")
  case True
  with assms show ?thesis by (simp add: parse_int_def show_int_def)
next
  case False
  obtain c cs where s: "show_nat (nat i) = c # cs"
    by (cases "show_nat (nat i)") auto
  then have "48 \<le> byte c" using show_nat_digits [of c "nat i"] by simp
  then have "c \<noteq> CHR ''-''" "c \<noteq> CHR ''+''" by (auto simp: byte_def)
  moreover have "parse_nat (c # cs) = Some (nat i)" using parse_nat_show [of "nat i"] s by simp
  ultimately show ?thesis using False assms by (simp add: parse_int_def show_int_def s)
qed

lemma show_int_nonempty [simp]: "show_int i \<noteq> []"
  by (simp add: show_int_def)

text \<open>\<open>fmt\<close>'s \<open>%0wd\<close> for a non-negative number.\<close>

definition pad_zeros :: "nat \<Rightarrow> nat \<Rightarrow> string" where
  "pad_zeros w n = replicate (w - length (show_nat n)) (CHR ''0'') @ show_nat n"

lemma digits_val_zeros: "digits_val 0 (replicate k (CHR ''0'') @ s) = digits_val 0 s"
  by (induction k) (simp_all add: digit_val_def byte_def)

lemma parse_nat_pad [simp]: "parse_nat (pad_zeros w n) = Some n"
  by (simp add: parse_nat_def pad_zeros_def digits_val_zeros digits_val_show)

lemma pad_zeros_inject [simp]: "pad_zeros w m = pad_zeros w n \<longleftrightarrow> m = n"
  by (metis option.inject parse_nat_pad)

end
