(* ===== verification/Proto.thy ===== *)
theory Proto
  imports Go_Text
begin

text \<open>
  The protobuf messages of \<open>pkg/pluginproto/silo/plugin/v1\<close> that the SDK code reads and
  writes, one record per generated struct, with the generated field order. A message pointer
  is an \<open>option\<close>, a repeated message field a list of options, and an accessor
  \<open>x.GetF()\<close> is \<open>getter f zero x\<close>. Enums are open: an enum value is its \<open>int32\<close>.
  \<open>f64\<close> is the bit pattern of a \<open>float64\<close>. The zero messages are Go's \<open>T{}\<close>.
\<close>

type_synonym f64 = "64 word"

subsection \<open>google.protobuf.Struct and Go's any\<close>

text \<open>
  \<open>structpb.Value\<close> with its oneof; \<open>KindUnset\<close> is a value whose oneof is not set, and also
  stands for a nil \<open>*Value\<close> inside a map, which every accessor used here treats alike. The
  fields of a struct are an association list with distinct keys.
\<close>

datatype pb_value =
    KindUnset
  | NullValue
  | NumberValue f64
  | StringValue string
  | BoolValue bool
  | StructValue "(string \<times> pb_value) list"
  | ListValue "pb_value list"

type_synonym pb_struct = "(string \<times> pb_value) list"

definition is_bool_value :: "pb_value \<Rightarrow> bool" where
  "is_bool_value v = (case v of BoolValue _ \<Rightarrow> True | _ \<Rightarrow> False)"

definition get_bool_value :: "pb_value option \<Rightarrow> bool" where
  "get_bool_value v = (case v of Some (BoolValue b) \<Rightarrow> b | _ \<Rightarrow> False)"

text \<open>The dynamic types that reach the SDK inside an \<open>any\<close>.\<close>

datatype gany =
    AnyNil
  | AnyBool bool
  | AnyFloat f64
  | AnyString string
  | AnyStrings "string list"
  | AnyList "gany list"
  | AnyMap "(string \<times> gany) list"
  | AnyMaps "(string \<times> gany) list list"

subsection \<open>request_router.proto\<close>

record status_wording =
  sw_label :: string
  sw_detail :: string

record router_wording =
  rw_step :: string
  rw_queued :: "status_wording option"
  rw_downloading :: "status_wording option"

record request_router =
  rr_supports_seasons :: bool
  rr_reports_download_progress :: bool
  rr_wording :: "router_wording option"

subsection \<open>network_access_provider.proto\<close>

record network_access =
  na_provider :: string
  na_display_name :: string

subsection \<open>watch_sync_provider.proto\<close>

abbreviation AUTH_METHOD_UNSPECIFIED :: int32 where "AUTH_METHOD_UNSPECIFIED \<equiv> 0"
abbreviation MEDIA_TYPE_UNSPECIFIED :: int32 where "MEDIA_TYPE_UNSPECIFIED \<equiv> 0"
abbreviation MEDIA_TYPE_MOVIE :: int32 where "MEDIA_TYPE_MOVIE \<equiv> 1"
abbreviation MEDIA_TYPE_EPISODE :: int32 where "MEDIA_TYPE_EPISODE \<equiv> 2"
abbreviation MEDIA_TYPE_SERIES :: int32 where "MEDIA_TYPE_SERIES \<equiv> 3"
abbreviation SETTING_TYPE_BOOLEAN :: int32 where "SETTING_TYPE_BOOLEAN \<equiv> 1"

text \<open>The keys of the generated map \<open>WatchSyncMediaType_name\<close>.\<close>

definition media_type_known :: "int32 \<Rightarrow> bool" where
  "media_type_known t \<longleftrightarrow> t \<in> {MEDIA_TYPE_UNSPECIFIED, MEDIA_TYPE_MOVIE, MEDIA_TYPE_EPISODE, MEDIA_TYPE_SERIES}"

record connection_setting =
  cset_key :: string
  cset_label :: string
  cset_description :: string
  cset_type :: int32
  cset_default_value :: "pb_value option"

record watch_sync =
  ws_auth_methods :: "int32 list"
  ws_export_watched :: bool
  ws_export_unwatched :: bool
  ws_import_watched :: bool
  ws_import_progress :: bool
  ws_supported_media_types :: "int32 list"
  ws_external_id_namespaces :: "string list"
  ws_max_batch_size :: int32
  ws_import_favorites :: bool
  ws_export_favorites :: bool
  ws_remove_favorites :: bool
  ws_import_watchlist :: bool
  ws_export_watchlist :: bool
  ws_remove_watchlist :: bool
  ws_provides_watchlist_order :: bool
  ws_scrobble_playback :: bool
  ws_import_ratings :: bool
  ws_export_ratings :: bool
  ws_sync_dropped :: bool
  ws_rating_export_requires_watched :: "int32 list"
  ws_connection_settings :: "connection_setting option list"

definition zero_watch_sync :: watch_sync where
  "zero_watch_sync =
    \<lparr> ws_auth_methods = [], ws_export_watched = False, ws_export_unwatched = False,
      ws_import_watched = False, ws_import_progress = False, ws_supported_media_types = [],
      ws_external_id_namespaces = [], ws_max_batch_size = 0, ws_import_favorites = False,
      ws_export_favorites = False, ws_remove_favorites = False, ws_import_watchlist = False,
      ws_export_watchlist = False, ws_remove_watchlist = False,
      ws_provides_watchlist_order = False, ws_scrobble_playback = False,
      ws_import_ratings = False, ws_export_ratings = False, ws_sync_dropped = False,
      ws_rating_export_requires_watched = [], ws_connection_settings = [] \<rparr>"

subsection \<open>common.proto\<close>

abbreviation CONTROL_SELECT :: int32 where "CONTROL_SELECT \<equiv> 6"
abbreviation CONTROL_MULTI_SELECT :: int32 where "CONTROL_MULTI_SELECT \<equiv> 7"

record supported_platform =
  sp_os :: string
  sp_arch :: string

record form_option =
  fo_value :: string
  fo_label :: string
  fo_description :: string

record form_condition =
  fc_field :: string
  fc_equals :: "string list"

record form_validation =
  fv_has_min :: bool
  fv_min :: f64
  fv_has_max :: bool
  fv_max :: f64
  fv_pattern :: string
  fv_min_length :: int32
  fv_max_length :: int32

record form_field =
  ff_key :: string
  ff_label :: string
  ff_description :: string
  ff_control :: int32
  ff_placeholder :: string
  ff_required :: bool
  ff_secret :: bool
  ff_multiline :: bool
  ff_default_value :: "pb_value option"
  ff_options :: "form_option option list"
  ff_rows :: int32
  ff_dynamic_options :: bool
  ff_show_when :: "form_condition option list"
  ff_validation :: "form_validation option"
  ff_exclusive_group_field :: string

record form_section =
  fs_key :: string
  fs_title :: string
  fs_description :: string
  fs_collapsible :: bool
  fs_collapsed_default :: bool
  fs_field_keys :: "string list"
  fs_show_when :: "form_condition option list"

record admin_form =
  af_fields :: "form_field option list"
  af_submit_label :: string
  af_sections :: "form_section option list"

record config_schema =
  sch_key :: string
  sch_title :: string
  sch_description :: string
  sch_json_schema :: string
  sch_required :: bool
  sch_admin_form :: "admin_form option"

record config_entry =
  ent_key :: string
  ent_value :: "pb_struct option"

record http_route =
  hr_id :: string
  hr_method :: string
  hr_path :: string
  hr_access :: string
  hr_navigable :: bool
  hr_navigation_label :: string
  hr_navigation_kind :: string
  hr_static_asset :: bool

record packaged_asset =
  pa_path :: string
  pa_content_type :: string
  pa_integrity :: string

record capability_descriptor =
  cd_type :: string
  cd_id :: string
  cd_display_name :: string
  cd_description :: string
  cd_subscriptions :: "string list"
  cd_config_schema :: "config_schema option list"
  cd_metadata :: "pb_struct option"
  cd_auth_modes :: "string list"
  cd_icon_url :: string
  cd_watch_sync :: "watch_sync option"
  cd_network_access :: "network_access option"
  cd_request_router :: "request_router option"

record plugin_presentation =
  pr_display_name :: string
  pr_summary :: string
  pr_description_markdown :: string
  pr_setup_markdown :: string
  pr_homepage_url :: string
  pr_source_url :: string
  pr_support_url :: string
  pr_changelog_url :: string
  pr_publisher_name :: string
  pr_publisher_url :: string
  pr_license_spdx :: string

record plugin_manifest =
  pm_plugin_id :: string
  pm_version :: string
  pm_checksum :: string
  pm_silo_api_version :: string
  pm_supported_platforms :: "supported_platform option list"
  pm_capabilities :: "capability_descriptor option list"
  pm_global_config_schema :: "config_schema option list"
  pm_user_config_schema :: "config_schema option list"
  pm_http_routes :: "http_route option list"
  pm_assets :: "packaged_asset option list"
  pm_metadata :: "pb_struct option"
  pm_category :: string
  pm_presentation :: "plugin_presentation option"

definition zero_field :: form_field where
  "zero_field =
    \<lparr> ff_key = [], ff_label = [], ff_description = [], ff_control = 0, ff_placeholder = [],
      ff_required = False, ff_secret = False, ff_multiline = False, ff_default_value = None,
      ff_options = [], ff_rows = 0, ff_dynamic_options = False, ff_show_when = [],
      ff_validation = None, ff_exclusive_group_field = [] \<rparr>"

definition zero_section :: form_section where
  "zero_section =
    \<lparr> fs_key = [], fs_title = [], fs_description = [], fs_collapsible = False,
      fs_collapsed_default = False, fs_field_keys = [], fs_show_when = [] \<rparr>"

definition zero_schema :: config_schema where
  "zero_schema =
    \<lparr> sch_key = [], sch_title = [], sch_description = [], sch_json_schema = [],
      sch_required = False, sch_admin_form = None \<rparr>"

definition zero_capability :: capability_descriptor where
  "zero_capability =
    \<lparr> cd_type = [], cd_id = [], cd_display_name = [], cd_description = [], cd_subscriptions = [],
      cd_config_schema = [], cd_metadata = None, cd_auth_modes = [], cd_icon_url = [],
      cd_watch_sync = None, cd_network_access = None, cd_request_router = None \<rparr>"

definition zero_presentation :: plugin_presentation where
  "zero_presentation =
    \<lparr> pr_display_name = [], pr_summary = [], pr_description_markdown = [], pr_setup_markdown = [],
      pr_homepage_url = [], pr_source_url = [], pr_support_url = [], pr_changelog_url = [],
      pr_publisher_name = [], pr_publisher_url = [], pr_license_spdx = [] \<rparr>"

definition zero_manifest :: plugin_manifest where
  "zero_manifest =
    \<lparr> pm_plugin_id = [], pm_version = [], pm_checksum = [], pm_silo_api_version = [],
      pm_supported_platforms = [], pm_capabilities = [], pm_global_config_schema = [],
      pm_user_config_schema = [], pm_http_routes = [], pm_assets = [], pm_metadata = None,
      pm_category = [], pm_presentation = None \<rparr>"

subsection \<open>Accessors of a capability descriptor\<close>

abbreviation GetType :: "capability_descriptor option \<Rightarrow> string" where
  "GetType \<equiv> getter cd_type []"
abbreviation GetId :: "capability_descriptor option \<Rightarrow> string" where
  "GetId \<equiv> getter cd_id []"
abbreviation GetAuthModes :: "capability_descriptor option \<Rightarrow> string list" where
  "GetAuthModes \<equiv> getter cd_auth_modes []"
abbreviation GetMetadata :: "capability_descriptor option \<Rightarrow> pb_struct option" where
  "GetMetadata \<equiv> getter cd_metadata None"
abbreviation GetWatchSyncProvider :: "capability_descriptor option \<Rightarrow> watch_sync option" where
  "GetWatchSyncProvider \<equiv> getter cd_watch_sync None"
abbreviation GetNetworkAccessProvider :: "capability_descriptor option \<Rightarrow> network_access option" where
  "GetNetworkAccessProvider \<equiv> getter cd_network_access None"
abbreviation GetRequestRouter :: "capability_descriptor option \<Rightarrow> request_router option" where
  "GetRequestRouter \<equiv> getter cd_request_router None"
abbreviation GetCapabilities :: "plugin_manifest option \<Rightarrow> capability_descriptor option list" where
  "GetCapabilities \<equiv> getter pm_capabilities []"

text \<open>\<open>descriptor.GetMetadata().GetFields()[key]\<close>: a missing struct has no fields.\<close>

definition metadata_field :: "capability_descriptor option \<Rightarrow> string \<Rightarrow> pb_value option" where
  "metadata_field d key = (case GetMetadata d of None \<Rightarrow> None | Some s \<Rightarrow> map_of s key)"

subsection \<open>capability.go\<close>

definition EventConsumer :: string where "EventConsumer = ''event_consumer.v1''"
definition HTTPRoutes :: string where "HTTPRoutes = ''http_routes.v1''"
definition ScheduledTask :: string where "ScheduledTask = ''scheduled_task.v1''"
definition RequestRouter :: string where "RequestRouter = ''request_router.v1''"
definition MediaAnalyzer :: string where "MediaAnalyzer = ''media_analyzer.v1''"
definition AuthProvider :: string where "AuthProvider = ''auth_provider.v1''"
definition MetadataProvider :: string where "MetadataProvider = ''metadata_provider.v1''"
definition ImageResolver :: string where "ImageResolver = ''image_resolver.v1''"
definition MarkerProvider :: string where "MarkerProvider = ''marker_provider.v1''"
definition AudiobookBackend :: string where "AudiobookBackend = ''audiobook_backend.v1''"
definition EbookBackend :: string where "EbookBackend = ''ebook_backend.v1''"
definition ScanSource :: string where "ScanSource = ''scan_source.v1''"
definition WatchSyncProvider :: string where "WatchSyncProvider = ''watch_sync_provider.v1''"
definition NetworkAccessProvider :: string where
  "NetworkAccessProvider = ''network_access_provider.v1''"

lemmas capability_names =
  EventConsumer_def HTTPRoutes_def ScheduledTask_def RequestRouter_def MediaAnalyzer_def
  AuthProvider_def MetadataProvider_def ImageResolver_def MarkerProvider_def
  AudiobookBackend_def EbookBackend_def ScanSource_def WatchSyncProvider_def
  NetworkAccessProvider_def

definition KnownTypes :: "string list" where
  "KnownTypes =
    [EventConsumer, HTTPRoutes, ScheduledTask, RequestRouter, MediaAnalyzer, AuthProvider,
     MetadataProvider, ImageResolver, MarkerProvider, AudiobookBackend, EbookBackend,
     ScanSource, WatchSyncProvider, NetworkAccessProvider]"

text \<open>
  The image variants of \<open>pkg/pluginsdk/imagevariant/imagevariant.go\<close>, hints in image requests. The set is open.
\<close>

definition Card :: string where "Card = ''card''"
definition Featured :: string where "Featured = ''featured''"
definition Large :: string where "Large = ''large''"
definition Full :: string where "Full = ''full''"
definition Original :: string where "Original = ''original''"

lemma KnownTypes_distinct: "distinct KnownTypes"
  by (simp add: KnownTypes_def capability_names)

lemma type_names_distinct [simp]:
  "WatchSyncProvider \<noteq> NetworkAccessProvider" "NetworkAccessProvider \<noteq> WatchSyncProvider"
  "WatchSyncProvider \<noteq> RequestRouter" "RequestRouter \<noteq> WatchSyncProvider"
  "WatchSyncProvider \<noteq> AuthProvider" "AuthProvider \<noteq> WatchSyncProvider"
  "NetworkAccessProvider \<noteq> RequestRouter" "RequestRouter \<noteq> NetworkAccessProvider"
  "NetworkAccessProvider \<noteq> AuthProvider" "AuthProvider \<noteq> NetworkAccessProvider"
  "RequestRouter \<noteq> AuthProvider" "AuthProvider \<noteq> RequestRouter"
  by (simp_all add: capability_names)

end
