(* ===== verification/Manifest_Errors.thy ===== *)
theory Manifest_Errors
  imports Proto
begin

text \<open>
  The errors of the manifest validator, one constructor per \<open>fmt.Errorf\<close> of
  \<open>pkg/pluginsdk/manifest/manifest.go\<close>, and the operations of packages outside the
  repository that the validator calls, as a record the definitions take as an argument.
\<close>

subsection \<open>External operations\<close>

text \<open>
  \<^item> \<open>as_interface\<close>: \<open>(*structpb.Value).AsInterface\<close>;
  \<^item> \<open>url_parse\<close>: \<open>net/url.Parse\<close>, \<open>None\<close> where it returns an error.
\<close>

record parsed_url =
  pu_scheme :: string
  pu_host :: string
  pu_user :: bool

record ext =
  as_interface :: "pb_value \<Rightarrow> gany"
  url_parse :: "string \<Rightarrow> parsed_url option"

definition is_any_bool :: "gany \<Rightarrow> bool" where
  "is_any_bool a = (case a of AnyBool _ \<Rightarrow> True | _ \<Rightarrow> False)"

definition is_any_float :: "gany \<Rightarrow> bool" where
  "is_any_float a = (case a of AnyFloat _ \<Rightarrow> True | _ \<Rightarrow> False)"

definition is_any_string :: "gany \<Rightarrow> bool" where
  "is_any_string a = (case a of AnyString _ \<Rightarrow> True | _ \<Rightarrow> False)"

text \<open>
  What the documentation of \<open>structpb\<close> promises of \<open>AsInterface\<close>: a bool value gives a
  \<open>bool\<close> and nothing else does, a string value gives that \<open>string\<close>, and only a number
  value can give a \<open>float64\<close>.
\<close>

definition documented_as_interface :: "ext \<Rightarrow> bool" where
  "documented_as_interface X \<longleftrightarrow>
     (\<forall>v. is_any_bool (as_interface X v) = is_bool_value v)
     \<and> (\<forall>s. as_interface X (StringValue s) = AnyString s)
     \<and> (\<forall>v. is_any_float (as_interface X v) \<longrightarrow> (\<exists>x. v = NumberValue x))"

text \<open>A concrete instance, for the examples that instantiate the parameter.\<close>

fun sample_as_interface :: "pb_value \<Rightarrow> gany" where
  "sample_as_interface (BoolValue b) = AnyBool b"
| "sample_as_interface (StringValue s) = AnyString s"
| "sample_as_interface (NumberValue x) = AnyFloat x"
| "sample_as_interface (ListValue vs) = AnyList (map sample_as_interface vs)"
| "sample_as_interface (StructValue fs) = AnyMap (map (\<lambda>(k, v). (k, sample_as_interface v)) fs)"
| "sample_as_interface NullValue = AnyNil"
| "sample_as_interface KindUnset = AnyNil"

definition sample_url_parse :: "string \<Rightarrow> parsed_url option" where
  "sample_url_parse s =
     (if take 8 s = ''https://''
      then Some \<lparr>pu_scheme = ''https'', pu_host = takeWhile ((\<noteq>) (CHR ''/'')) (drop 8 s), pu_user = CHR ''@'' \<in> set s\<rparr>
      else None)"

definition sample_ext :: ext where
  "sample_ext = \<lparr>as_interface = sample_as_interface, url_parse = sample_url_parse\<rparr>"

lemma sample_ext_documented: "documented_as_interface sample_ext"
proof -
  have "is_any_bool (sample_as_interface v) = is_bool_value v"
    and "is_any_float (sample_as_interface v) \<longrightarrow> (\<exists>x. v = NumberValue x)" for v
    by (cases v; simp add: is_any_bool_def is_any_float_def is_bool_value_def)+
  then show ?thesis by (simp add: documented_as_interface_def sample_ext_def)
qed

subsection \<open>Errors\<close>

datatype wording_problem = WordingSpace | WordingLength nat | WordingControl | WordingLines

datatype cap_problem =
    UnknownType string
  | WatchSyncNeedsType
  | IdNotSlug
  | WatchSyncMissing
  | NoAuthMethod
  | AuthMethodUnspecified
  | NoOperation
  | OrderWithoutImport
  | BatchSizeRange
  | NoMediaType
  | MediaTypeUnspecified
  | RatingsNeedRateable
  | DroppedNeedsSeries
  | RequiresWatchedNeedsExport
  | RequiresWatchedUnsupported int32
  | BadNamespace string
  | SettingKey string
  | SettingDuplicate string
  | SettingLabel string
  | SettingDefault string
  | NetworkNeedsType
  | NetworkMissing
  | NetworkProviderSlug
  | RouterNeedsType
  | RouterWording string wording_problem
  | EmptyAuthMode
  | AuthModeSpelling string string
  | AuthModeDuplicate string
  | NetworkCombined string
  | ConnectionTestNotBool
  | NetworkUnpaired

datatype pres_problem =
    PresSpace | PresLength nat | PresControl | PresBytes nat
  | UrlBytes nat | UrlSpace | UrlInvalid | UrlNotAbsolute | UrlCredentials

datatype schema_problem =
    InvalidJsonSchema
  | NotObjectSchema
  | FieldKeyRequired
  | FieldDuplicate string
  | FieldUndeclared string
  | MultiSelectNotArray string
  | SelectNeedsOptions string
  | DefaultNotBool string
  | DefaultNotNumber string
  | DefaultNotString string
  | FieldCondEmpty string
  | FieldCondUnknown string string
  | ExclusiveUnknown string string
  | SectionFieldUnknown string string
  | SectionCondEmpty string
  | SectionCondUnknown string string

datatype manifest_error =
    ManifestRequired
  | PluginIdRequired
  | VersionRequired
  | PresentationError string pres_problem
  | CapTypeRequired
  | CapIdRequired
  | CapabilityError string cap_problem
  | ConfigError string schema_problem
  | CapConfigError string string schema_problem
  | CatalogPresentationMissing
  | CatalogFieldMissing string
  | CatalogSourceMismatch string string

end
