(* ===== verification/Watch_Sync.thy ===== *)
theory Watch_Sync
  imports Manifest_Errors
begin

text \<open>
  \<open>validateWatchSyncCapability\<close> and \<open>validateNetworkAccessCapability\<close> of
  \<open>manifest.go\<close>, with the slug pattern they share, the connection settings loop and the
  media type helpers. \<open>slug_match\<close> is the matcher; \<open>slug_language\<close> is the pattern
  \<open>^[a-z0-9]+(?:[._-][a-z0-9]+)*$\<close> read as a language. \<open>watch_sync_ok\<close> states the
  contract of an accepted descriptor without the order of the checks.
\<close>

subsection \<open>watchSyncSlugPattern\<close>

definition slug_char :: "char \<Rightarrow> bool" where
  "slug_char c \<longleftrightarrow> (97 \<le> byte c \<and> byte c \<le> 122) \<or> (48 \<le> byte c \<and> byte c \<le> 57)"

definition slug_sep :: "char \<Rightarrow> bool" where
  "slug_sep c \<longleftrightarrow> c = CHR ''.'' \<or> c = CHR ''_'' \<or> c = CHR ''-''"

text \<open>The boolean says whether the current piece has a character.\<close>

fun slug_run :: "bool \<Rightarrow> string \<Rightarrow> bool" where
  "slug_run started [] = started"
| "slug_run started (c # cs) =
     (if slug_char c then slug_run True cs
      else started \<and> slug_sep c \<and> slug_run False cs)"

definition slug_match :: "string \<Rightarrow> bool" where
  "slug_match s = slug_run False s"

definition slug_piece :: "string \<Rightarrow> bool" where
  "slug_piece p \<longleftrightarrow> p \<noteq> [] \<and> list_all slug_char p"

definition slug_language :: "string set" where
  "slug_language =
     {p @ concat (map (\<lambda>(c, q). c # q) ps) | p ps.
        slug_piece p \<and> (\<forall>(c, q)\<in>set ps. slug_sep c \<and> slug_piece q)}"

lemma slug_sep_not_char: "slug_sep c \<Longrightarrow> \<not> slug_char c"
  by (auto simp: slug_sep_def slug_char_def byte_def)

lemma slug_run_piece: "list_all slug_char p \<Longrightarrow> slug_run b (p @ s) = slug_run (b \<or> p \<noteq> []) s"
  by (induction p arbitrary: b) auto

lemma slug_run_pieces:
  "(\<forall>(c, q)\<in>set ps. slug_sep c \<and> slug_piece q) \<Longrightarrow>
   slug_run True (concat (map (\<lambda>(c, q). c # q) ps))"
  by (induction ps) (auto simp: slug_run_piece slug_piece_def slug_sep_not_char)

lemma slug_run_decompose:
  "slug_run b s \<Longrightarrow>
   \<exists>p ps. s = p @ concat (map (\<lambda>(c, q). c # q) ps) \<and> list_all slug_char p \<and> (b \<or> p \<noteq> [])
     \<and> (\<forall>(c, q)\<in>set ps. slug_sep c \<and> slug_piece q)"
proof (induction b s rule: slug_run.induct)
  case (1 started)
  then show ?case by (intro exI [of _ "[]"]) simp
next
  case (2 started c cs)
  show ?case
  proof (cases "slug_char c")
    case True
    with 2 obtain p ps where "cs = p @ concat (map (\<lambda>(c, q). c # q) ps)" "list_all slug_char p"
      "\<forall>(c, q)\<in>set ps. slug_sep c \<and> slug_piece q" by auto
    with True show ?thesis by (intro exI [of _ "c # p"] exI [of _ ps]) simp
  next
    case False
    with 2 obtain p ps where "started" "slug_sep c" "cs = p @ concat (map (\<lambda>(c, q). c # q) ps)"
      "list_all slug_char p" "p \<noteq> []" "\<forall>(c, q)\<in>set ps. slug_sep c \<and> slug_piece q" by auto
    then show ?thesis
      by (intro exI [of _ "[]"] exI [of _ "(c, p) # ps"]) (simp add: slug_piece_def)
  qed
qed

lemma slug_match_language: "slug_match s \<longleftrightarrow> s \<in> slug_language"
proof
  assume "slug_match s"
  then show "s \<in> slug_language"
    using slug_run_decompose [of False s]
    unfolding slug_match_def slug_language_def slug_piece_def mem_Collect_eq by blast
next
  assume "s \<in> slug_language"
  then obtain p ps where s: "s = p @ concat (map (\<lambda>(c, q). c # q) ps)" and p: "slug_piece p"
    and ps: "\<forall>(c, q)\<in>set ps. slug_sep c \<and> slug_piece q"
    by (auto simp: slug_language_def)
  from p have "slug_match s = slug_run True (concat (map (\<lambda>(c, q). c # q) ps))"
    by (simp add: s slug_match_def slug_run_piece slug_piece_def)
  with slug_run_pieces [OF ps] show "slug_match s" by simp
qed

text \<open>
  What makes a slug path-safe: it is never empty, has only lowercase letters, digits, dots,
  underscores and dashes, and never two separators in a row, so no \<open>..\<close>.
\<close>

lemma slug_run_chars: "slug_run b s \<Longrightarrow> c \<in> set s \<Longrightarrow> slug_char c \<or> slug_sep c"
  by (induction b s rule: slug_run.induct) (auto split: if_splits)

lemma slug_run_no_double:
  "slug_run b (xs @ c # d # ys) \<Longrightarrow> slug_sep c \<Longrightarrow> \<not> slug_sep d"
  by (induction xs arbitrary: b) (auto simp: slug_sep_not_char split: if_splits)

lemma slug_match_nonempty: "slug_match s \<Longrightarrow> s \<noteq> []"
  by (auto simp: slug_match_def)

subsection \<open>Media types\<close>

definition watchSyncSupportsMediaType :: "int32 list \<Rightarrow> int32 \<Rightarrow> bool" where
  "watchSyncSupportsMediaType types want \<longleftrightarrow>
     want \<noteq> MEDIA_TYPE_UNSPECIFIED \<and> want \<in> set types"

fun watchSyncSupportsRatedMediaType :: "int32 list \<Rightarrow> bool" where
  "watchSyncSupportsRatedMediaType [] = False"
| "watchSyncSupportsRatedMediaType (t # ts) =
     (if t = MEDIA_TYPE_MOVIE \<or> t = MEDIA_TYPE_SERIES then True
      else if \<not> media_type_known t then True
      else watchSyncSupportsRatedMediaType ts)"

lemma supports_rated_iff [accept_iff]:
  "watchSyncSupportsRatedMediaType ts \<longleftrightarrow>
     (\<exists>t\<in>set ts. t = MEDIA_TYPE_MOVIE \<or> t = MEDIA_TYPE_SERIES \<or> \<not> media_type_known t)"
  by (induction ts) auto

subsection \<open>Connection settings\<close>

definition setting_default_bad :: "ext \<Rightarrow> connection_setting \<Rightarrow> bool" where
  "setting_default_bad X s \<longleftrightarrow>
     cset_type s = SETTING_TYPE_BOOLEAN
     \<and> (case cset_default_value s of None \<Rightarrow> False
        | Some v \<Rightarrow> \<not> is_any_bool (as_interface X v))"

fun settings_loop ::
  "ext \<Rightarrow> string set \<Rightarrow> connection_setting option list \<Rightarrow> cap_problem + string set" where
  "settings_loop X seen [] = Inr seen"
| "settings_loop X seen (None # ss) = settings_loop X seen ss"
| "settings_loop X seen (Some s # ss) =
     (if \<not> slug_match (cset_key s) then Inl (SettingKey (cset_key s))
      else if cset_key s \<in> seen then Inl (SettingDuplicate (cset_key s))
      else if trim_space (cset_label s) = [] then Inl (SettingLabel (cset_key s))
      else if setting_default_bad X s then Inl (SettingDefault (cset_key s))
      else settings_loop X (insert (cset_key s) seen) ss)"

definition validateWatchSyncConnectionSettings ::
  "ext \<Rightarrow> connection_setting option list \<Rightarrow> cap_problem option" where
  "validateWatchSyncConnectionSettings X ss =
     (case settings_loop X {} ss of Inl e \<Rightarrow> Some e | Inr _ \<Rightarrow> None)"

abbreviation setting_key :: "connection_setting option \<Rightarrow> string" where
  "setting_key \<equiv> getter cset_key []"

interpretation settings: seen_loop
  "settings_loop X" "\<lambda>s. s = None" setting_key
  "\<lambda>s. reject_if (\<not> slug_match (setting_key s)) (SettingKey (setting_key s))"
  "\<lambda>s. SettingDuplicate (setting_key s)"
  "\<lambda>s. case s of None \<Rightarrow> None
       | Some c \<Rightarrow> chain [reject_if (trim_space (cset_label c) = []) (SettingLabel (cset_key c)),
                          reject_if (setting_default_bad X c) (SettingDefault (cset_key c))]"
  for X
proof (unfold_locales, goal_cases)
  case (2 seen s ss)
  then show ?case by (cases s) (auto simp: reject_if_def)
qed simp

definition setting_ok :: "ext \<Rightarrow> connection_setting \<Rightarrow> bool" where
  "setting_ok X s \<longleftrightarrow>
     cset_key s \<in> slug_language \<and> trim_space (cset_label s) \<noteq> [] \<and> \<not> setting_default_bad X s"

lemma filter_Some: "filter (\<lambda>x. x \<noteq> None) xs = map Some (List.map_filter id xs)"
  by (induction xs) (auto simp: List.map_filter_simps split: option.splits)

lemma settings_accept [accept_iff]:
  "validateWatchSyncConnectionSettings X ss = None \<longleftrightarrow>
     (\<forall>s. Some s \<in> set ss \<longrightarrow> setting_ok X s)
     \<and> distinct (map cset_key (List.map_filter id ss))"
proof -
  have "validateWatchSyncConnectionSettings X ss = None \<longleftrightarrow> (\<exists>s. settings_loop X {} ss = Inr s)"
    by (auto simp: validateWatchSyncConnectionSettings_def split: sum.splits)
  also have "\<dots> \<longleftrightarrow> (\<forall>s\<in>set ss. s \<noteq> None \<longrightarrow> setting_ok X (the s))
      \<and> distinct (map setting_key (filter (\<lambda>x. x \<noteq> None) ss))"
    unfolding settings.accepts_iff
    by (auto simp: setting_ok_def slug_match_language split: option.splits)
  finally show ?thesis
    unfolding filter_Some by (auto simp: comp_def)
qed

subsection \<open>The watch sync descriptor\<close>

text \<open>The fourteen operation flags, in the order of the code's condition.\<close>

definition ws_operations :: "watch_sync \<Rightarrow> bool list" where
  "ws_operations w =
     [ws_export_watched w, ws_export_unwatched w, ws_import_watched w, ws_import_progress w,
      ws_import_favorites w, ws_export_favorites w, ws_remove_favorites w,
      ws_import_watchlist w, ws_export_watchlist w, ws_remove_watchlist w,
      ws_scrobble_playback w, ws_import_ratings w, ws_export_ratings w, ws_sync_dropped w]"

definition check_watch_sync :: "ext \<Rightarrow> watch_sync \<Rightarrow> cap_problem option" where
  "check_watch_sync X w = chain
    [reject_if (ws_auth_methods w = []) NoAuthMethod,
     first_err (\<lambda>m. reject_if (m = AUTH_METHOD_UNSPECIFIED) AuthMethodUnspecified)
       (ws_auth_methods w),
     reject_if (list_all Not (ws_operations w)) NoOperation,
     reject_if (ws_provides_watchlist_order w \<and> \<not> ws_import_watchlist w) OrderWithoutImport,
     reject_if (sint (ws_max_batch_size w) < 1 \<or> sint (ws_max_batch_size w) > 100) BatchSizeRange,
     reject_if (ws_supported_media_types w = []) NoMediaType,
     first_err (\<lambda>t. reject_if (t = MEDIA_TYPE_UNSPECIFIED) MediaTypeUnspecified)
       (ws_supported_media_types w),
     reject_if ((ws_import_ratings w \<or> ws_export_ratings w)
         \<and> \<not> watchSyncSupportsRatedMediaType (ws_supported_media_types w)) RatingsNeedRateable,
     reject_if (ws_sync_dropped w
         \<and> \<not> watchSyncSupportsMediaType (ws_supported_media_types w) MEDIA_TYPE_SERIES)
       DroppedNeedsSeries,
     reject_if (ws_rating_export_requires_watched w \<noteq> [] \<and> \<not> ws_export_ratings w)
       RequiresWatchedNeedsExport,
     first_err (\<lambda>t. reject_if (\<not> watchSyncSupportsMediaType (ws_supported_media_types w) t)
         (RequiresWatchedUnsupported t)) (ws_rating_export_requires_watched w),
     first_err (\<lambda>n. reject_if (\<not> slug_match n) (BadNamespace n)) (ws_external_id_namespaces w),
     validateWatchSyncConnectionSettings X (ws_connection_settings w)]"

definition validateWatchSyncCapability ::
  "ext \<Rightarrow> capability_descriptor option \<Rightarrow> cap_problem option" where
  "validateWatchSyncCapability X d =
     (if GetType d \<noteq> WatchSyncProvider then
        reject_if (GetWatchSyncProvider d \<noteq> None) WatchSyncNeedsType
      else if \<not> slug_match (GetId d) then Some IdNotSlug
      else case GetWatchSyncProvider d of
             None \<Rightarrow> Some WatchSyncMissing
           | Some w \<Rightarrow> check_watch_sync X w)"

text \<open>The contract of an accepted descriptor.\<close>

definition watch_sync_ok :: "ext \<Rightarrow> watch_sync \<Rightarrow> bool" where
  "watch_sync_ok X w \<longleftrightarrow>
     ws_auth_methods w \<noteq> [] \<and> AUTH_METHOD_UNSPECIFIED \<notin> set (ws_auth_methods w)
     \<and> True \<in> set (ws_operations w)
     \<and> (ws_provides_watchlist_order w \<longrightarrow> ws_import_watchlist w)
     \<and> sint (ws_max_batch_size w) \<in> {1..100}
     \<and> ws_supported_media_types w \<noteq> []
     \<and> MEDIA_TYPE_UNSPECIFIED \<notin> set (ws_supported_media_types w)
     \<and> (ws_import_ratings w \<or> ws_export_ratings w \<longrightarrow>
          (\<exists>t\<in>set (ws_supported_media_types w). t \<noteq> MEDIA_TYPE_EPISODE))
     \<and> (ws_sync_dropped w \<longrightarrow> MEDIA_TYPE_SERIES \<in> set (ws_supported_media_types w))
     \<and> (ws_rating_export_requires_watched w \<noteq> [] \<longrightarrow> ws_export_ratings w)
     \<and> set (ws_rating_export_requires_watched w) \<subseteq> set (ws_supported_media_types w)
     \<and> set (ws_external_id_namespaces w) \<subseteq> slug_language
     \<and> (\<forall>s. Some s \<in> set (ws_connection_settings w) \<longrightarrow> setting_ok X s)
     \<and> distinct (map cset_key (List.map_filter id (ws_connection_settings w)))"

lemma rated_given_specified:
  "MEDIA_TYPE_UNSPECIFIED \<notin> set ts \<Longrightarrow>
   watchSyncSupportsRatedMediaType ts \<longleftrightarrow> (\<exists>t\<in>set ts. t \<noteq> MEDIA_TYPE_EPISODE)"
  unfolding supports_rated_iff media_type_known_def by (rule bex_cong) auto

lemma supports_given_specified:
  "MEDIA_TYPE_UNSPECIFIED \<notin> set ts \<Longrightarrow> watchSyncSupportsMediaType ts t \<longleftrightarrow> t \<in> set ts"
  by (auto simp: watchSyncSupportsMediaType_def)

lemma list_all_Not: "list_all Not bs \<longleftrightarrow> True \<notin> set bs"
  by (induction bs) auto

lemma descriptor_shapes:
  "(\<forall>x\<in>set xs. \<not> x = u) \<longleftrightarrow> u \<notin> set xs"
  "(\<forall>x\<in>set xs. x \<in> A) \<longleftrightarrow> set xs \<subseteq> A"
  "\<not> (P \<and> \<not> Q) \<longleftrightarrow> (P \<longrightarrow> Q)"
  "\<not> (sint n < 1 \<or> sint n > 100) \<longleftrightarrow> sint n \<in> {1..100}"
  "\<not> True \<notin> set bs \<longleftrightarrow> True \<in> set bs"
  by auto

lemma check_watch_sync_iff [accept_iff]: "check_watch_sync X w = None \<longleftrightarrow> watch_sync_ok X w"
proof (cases "MEDIA_TYPE_UNSPECIFIED \<in> set (ws_supported_media_types w)")
  case True
  then have "first_err (\<lambda>t. reject_if (t = MEDIA_TYPE_UNSPECIFIED) MediaTypeUnspecified)
      (ws_supported_media_types w) \<noteq> None" by simp
  with True show ?thesis unfolding check_watch_sync_def watch_sync_ok_def by (simp del: first_err_None)
next
  case False
  show ?thesis
    unfolding check_watch_sync_def watch_sync_ok_def
    by (simp only: chain_Cons_None chain.simps reject_if_simps first_err_None settings_accept
        rated_given_specified [OF False] supports_given_specified [OF False] list_all_Not
        slug_match_language descriptor_shapes simp_thms False)
qed

definition watch_sync_capability_ok :: "ext \<Rightarrow> capability_descriptor option \<Rightarrow> bool" where
  "watch_sync_capability_ok X d \<longleftrightarrow>
     (if GetType d = WatchSyncProvider
      then GetId d \<in> slug_language \<and> (\<exists>w. GetWatchSyncProvider d = Some w \<and> watch_sync_ok X w)
      else GetWatchSyncProvider d = None)"

interpretation watch_sync: checker "validateWatchSyncCapability X" "watch_sync_capability_ok X"
  for X
  by unfold_locales
    (simp add: validateWatchSyncCapability_def watch_sync_capability_ok_def slug_match_language
      check_watch_sync_iff split: option.splits)

subsection \<open>The network access descriptor\<close>

definition validateNetworkAccessCapability ::
  "capability_descriptor option \<Rightarrow> cap_problem option" where
  "validateNetworkAccessCapability d =
     (if GetType d \<noteq> NetworkAccessProvider then
        reject_if (GetNetworkAccessProvider d \<noteq> None) NetworkNeedsType
      else case GetNetworkAccessProvider d of
             None \<Rightarrow> Some NetworkMissing
           | Some n \<Rightarrow> reject_if (\<not> slug_match (na_provider n)) NetworkProviderSlug)"

definition network_capability_ok :: "capability_descriptor option \<Rightarrow> bool" where
  "network_capability_ok d \<longleftrightarrow>
     (if GetType d = NetworkAccessProvider
      then \<exists>n. GetNetworkAccessProvider d = Some n \<and> na_provider n \<in> slug_language
      else GetNetworkAccessProvider d = None)"

interpretation network_access: checker validateNetworkAccessCapability network_capability_ok
  by unfold_locales
    (simp add: validateNetworkAccessCapability_def network_capability_ok_def slug_match_language
      split: option.splits)

end
