(* ===== verification/Auth_Modes.thy ===== *)
theory Auth_Modes
  imports Manifest_Errors
begin

text \<open>
  The auth_provider.v1 rules of \<open>manifest.go\<close>: the auth mode loop, the exclusivity of the
  network mode, the type of the \<open>connection_test\<close> metadata, the pairing of a network mode
  with a network_access_provider.v1 capability, and the two exported queries the runtime's
  startup check uses. \<open>auth_capability_ok\<close> and \<open>pairing_ok\<close> are the contracts.
\<close>

definition AuthModePassword :: string where "AuthModePassword = ''password''"
definition AuthModeOAuth2 :: string where "AuthModeOAuth2 = ''oauth2''"
definition AuthModeNetwork :: string where "AuthModeNetwork = ''network''"
definition AuthProviderConnectionTestKey :: string where
  "AuthProviderConnectionTestKey = ''connection_test''"

lemmas auth_names =
  AuthModePassword_def AuthModeOAuth2_def AuthModeNetwork_def AuthProviderConnectionTestKey_def

subsection \<open>Queries\<close>

definition AuthProviderUsesNetworkIdentity :: "capability_descriptor option \<Rightarrow> bool" where
  "AuthProviderUsesNetworkIdentity d =
     (if GetType d \<noteq> AuthProvider then False else AuthModeNetwork \<in> set (GetAuthModes d))"

definition AuthProviderSupportsConnectionTest :: "capability_descriptor option \<Rightarrow> bool" where
  "AuthProviderSupportsConnectionTest d =
     (if GetType d \<noteq> AuthProvider then False
      else get_bool_value (metadata_field d AuthProviderConnectionTestKey))"

lemma uses_network_identity_None [simp]: "\<not> AuthProviderUsesNetworkIdentity None"
  by (simp add: AuthProviderUsesNetworkIdentity_def AuthProvider_def)

subsection \<open>validateAuthProviderCapability\<close>

definition mode_spelling :: "string \<Rightarrow> cap_problem option" where
  "mode_spelling mode =
     first_err (\<lambda>known. reject_if (mode \<noteq> known \<and> equal_fold ascii_fold mode known)
                          (AuthModeSpelling mode known))
       [AuthModePassword, AuthModeOAuth2, AuthModeNetwork]"

fun modes_loop :: "string set \<Rightarrow> string list \<Rightarrow> cap_problem + string set" where
  "modes_loop seen [] = Inr seen"
| "modes_loop seen (mode # modes) =
     (if trim_space mode = [] then Inl EmptyAuthMode
      else case mode_spelling mode of
             Some e \<Rightarrow> Inl e
           | None \<Rightarrow>
               if mode \<in> seen then Inl (AuthModeDuplicate mode)
               else modes_loop (insert mode seen) modes)"

definition validateAuthProviderCapability ::
  "capability_descriptor option \<Rightarrow> cap_problem option" where
  "validateAuthProviderCapability d =
     (if GetType d \<noteq> AuthProvider then None
      else case modes_loop {} (GetAuthModes d) of
             Inl e \<Rightarrow> Some e
           | Inr seen \<Rightarrow> chain
               [if AuthModeNetwork \<in> seen
                then first_err (\<lambda>c. reject_if (c \<in> seen) (NetworkCombined c))
                       [AuthModePassword, AuthModeOAuth2]
                else None,
                case metadata_field d AuthProviderConnectionTestKey of
                  None \<Rightarrow> None
                | Some v \<Rightarrow> reject_if (\<not> is_bool_value v) ConnectionTestNotBool])"

interpretation modes: seen_loop modes_loop "\<lambda>_. False" "\<lambda>m. m"
  "\<lambda>m. chain [reject_if (trim_space m = []) EmptyAuthMode, mode_spelling m]"
  AuthModeDuplicate "\<lambda>_. None"
  by unfold_locales (auto simp: reject_if_def chain_Cons split: option.splits)

definition mode_ok :: "string \<Rightarrow> bool" where
  "mode_ok mode \<longleftrightarrow>
     trim_space mode \<noteq> []
     \<and> (\<forall>known\<in>{AuthModePassword, AuthModeOAuth2, AuthModeNetwork}.
          equal_fold ascii_fold mode known \<longrightarrow> mode = known)"

lemma mode_spelling_iff: "chain [reject_if (trim_space m = []) EmptyAuthMode, mode_spelling m] = None \<longleftrightarrow> mode_ok m"
  by (auto simp: mode_spelling_def mode_ok_def simp del: first_err.simps)

lemma modes_accept [accept_iff]:
  "modes_loop {} modes = Inr seen \<longleftrightarrow> list_all mode_ok modes \<and> distinct modes \<and> seen = set modes"
  unfolding modes.loop_Inr mode_spelling_iff by (auto simp: list_all_iff)

definition auth_capability_ok :: "capability_descriptor option \<Rightarrow> bool" where
  "auth_capability_ok d \<longleftrightarrow>
     (GetType d = AuthProvider \<longrightarrow>
        list_all mode_ok (GetAuthModes d) \<and> distinct (GetAuthModes d)
        \<and> (AuthModeNetwork \<in> set (GetAuthModes d) \<longrightarrow>
             AuthModePassword \<notin> set (GetAuthModes d) \<and> AuthModeOAuth2 \<notin> set (GetAuthModes d))
        \<and> (\<forall>v. metadata_field d AuthProviderConnectionTestKey = Some v \<longrightarrow> is_bool_value v))"

lemma modes_reject:
  "modes_loop {} modes = Inl e \<Longrightarrow> \<not> (list_all mode_ok modes \<and> distinct modes)"
  using modes_accept [of modes "set modes"] by auto

interpretation auth: checker validateAuthProviderCapability auth_capability_ok
proof
  fix d :: "capability_descriptor option"
  show "validateAuthProviderCapability d = None \<longleftrightarrow> auth_capability_ok d"
  proof (cases "modes_loop {} (GetAuthModes d)")
    case (Inl e)
    then have "\<not> (list_all mode_ok (GetAuthModes d) \<and> distinct (GetAuthModes d))"
      by (rule modes_reject)
    with Inl show ?thesis
      by (auto simp: validateAuthProviderCapability_def auth_capability_ok_def)
  next
    case (Inr seen)
    then have "list_all mode_ok (GetAuthModes d)" "distinct (GetAuthModes d)"
      and "seen = set (GetAuthModes d)" by (simp_all add: modes_accept)
    with Inr show ?thesis
      by (cases "metadata_field d AuthProviderConnectionTestKey")
        (auto simp: validateAuthProviderCapability_def auth_capability_ok_def
          simp del: first_err.simps)
  qed
qed

text \<open>The flag the host reads is well typed once the manifest is accepted.\<close>

lemma connection_test_typed:
  assumes "auth_capability_ok d" and "GetType d = AuthProvider"
  shows "AuthProviderSupportsConnectionTest d \<longleftrightarrow>
         metadata_field d AuthProviderConnectionTestKey = Some (BoolValue True)"
proof (cases "metadata_field d AuthProviderConnectionTestKey")
  case None
  with assms(2) show ?thesis by (simp add: AuthProviderSupportsConnectionTest_def get_bool_value_def)
next
  case (Some v)
  with assms have "is_bool_value v" by (simp add: auth_capability_ok_def)
  with Some assms(2) show ?thesis
    by (cases v) (auto simp: AuthProviderSupportsConnectionTest_def get_bool_value_def is_bool_value_def)
qed

subsection \<open>validateNetworkAuthPairing\<close>

fun pairing_loop ::
  "capability_descriptor option \<Rightarrow> bool \<Rightarrow> capability_descriptor option list
   \<Rightarrow> capability_descriptor option \<times> bool" where
  "pairing_loop networkAuth hasNetworkAccess [] = (networkAuth, hasNetworkAccess)"
| "pairing_loop networkAuth hasNetworkAccess (d # ds) =
     pairing_loop
       (if AuthProviderUsesNetworkIdentity d \<and> networkAuth = None then d else networkAuth)
       (if GetType d = NetworkAccessProvider then True else hasNetworkAccess) ds"

definition validateNetworkAuthPairing :: "capability_descriptor option list \<Rightarrow> manifest_error option" where
  "validateNetworkAuthPairing caps =
     (case pairing_loop None False caps of
        (networkAuth, hasNetworkAccess) \<Rightarrow>
          reject_if (networkAuth \<noteq> None \<and> \<not> hasNetworkAccess)
            (CapabilityError (GetId networkAuth) NetworkUnpaired))"

definition pairing_ok :: "capability_descriptor option list \<Rightarrow> bool" where
  "pairing_ok caps \<longleftrightarrow>
     ((\<exists>d\<in>set caps. AuthProviderUsesNetworkIdentity d) \<longrightarrow>
      (\<exists>d\<in>set caps. GetType d = NetworkAccessProvider))"

lemma pairing_loop_result:
  "pairing_loop na has caps =
     (if na \<noteq> None then na
      else case find AuthProviderUsesNetworkIdentity caps of None \<Rightarrow> None | Some d \<Rightarrow> d,
      has \<or> (\<exists>d\<in>set caps. GetType d = NetworkAccessProvider))"
proof (induction caps arbitrary: na has)
  case (Cons d ds)
  then show ?case by (cases d) auto
qed simp

interpretation pairing: checker validateNetworkAuthPairing pairing_ok
proof
  fix caps
  show "validateNetworkAuthPairing caps = None \<longleftrightarrow> pairing_ok caps"
  proof (cases "find AuthProviderUsesNetworkIdentity caps")
    case None
    moreover from this have "\<forall>d\<in>set caps. \<not> AuthProviderUsesNetworkIdentity d"
      by (simp add: find_None_iff)
    ultimately show ?thesis
      by (simp add: validateNetworkAuthPairing_def pairing_loop_result pairing_ok_def)
  next
    case (Some d)
    then have "d \<in> set caps" "AuthProviderUsesNetworkIdentity d"
      by (auto simp: find_Some_iff)
    moreover from this have "d \<noteq> None" by (metis uses_network_identity_None)
    ultimately show ?thesis using Some
      by (auto simp: validateNetworkAuthPairing_def pairing_loop_result pairing_ok_def)
  qed
qed

end
