(* ===== verification/Wording.thy ===== *)
theory Wording
  imports Manifest_Errors
begin

text \<open>
  The request router wording rules of \<open>manifest.go\<close>: \<open>validateWordingValue\<close>,
  \<open>ValidateRequestStatusWording\<close>, \<open>ValidateRequestRouterWording\<close>,
  \<open>validateRequestRouterCapability\<close>, and \<open>hasDisallowedControl\<close>, which the presentation
  rules use as well. The contract is \<open>line_ok\<close>: one line of bounded length with no space
  at either end.
\<close>

abbreviation MaxRequestWordingLabelRunes :: nat where "MaxRequestWordingLabelRunes \<equiv> 24"
abbreviation MaxRequestWordingDetailRunes :: nat where "MaxRequestWordingDetailRunes \<equiv> 140"

subsection \<open>hasDisallowedControl\<close>

fun disallowed_control :: "bool \<Rightarrow> rune list \<Rightarrow> bool" where
  "disallowed_control allow [] = False"
| "disallowed_control allow (c # cs) =
     (if \<not> is_control c then disallowed_control allow cs
      else if allow \<and> (c = 10 \<or> c = 13 \<or> c = 9) then disallowed_control allow cs
      else True)"

definition hasDisallowedControl :: "string \<Rightarrow> bool \<Rightarrow> bool" where
  "hasDisallowedControl value allowMarkdownWhitespace =
     disallowed_control allowMarkdownWhitespace (runes value)"

lemma disallowed_control_iff [accept_iff]:
  "hasDisallowedControl s allow \<longleftrightarrow>
     (\<exists>r\<in>set (runes s). is_control r \<and> \<not> (allow \<and> r \<in> {9, 10, 13}))"
proof -
  have "disallowed_control allow rs \<longleftrightarrow>
      (\<exists>r\<in>set rs. is_control r \<and> \<not> (allow \<and> r \<in> {9, 10, 13}))" for rs
    by (induction rs) auto
  then show ?thesis by (simp add: hasDisallowedControl_def)
qed

subsection \<open>Wording values\<close>

definition validateWordingValue :: "string \<Rightarrow> string \<Rightarrow> nat \<Rightarrow> cap_problem option" where
  "validateWordingValue name value limit =
     (if value \<noteq> trim_space value then Some (RouterWording name WordingSpace)
      else if rune_count value > limit then Some (RouterWording name (WordingLength limit))
      else if hasDisallowedControl value False then Some (RouterWording name WordingControl)
      else if list_ex is_line_separator (runes value) then Some (RouterWording name WordingLines)
      else None)"

text \<open>
  A value the host can show on one line: no leading or trailing space, at most \<open>limit\<close>
  characters, no control character and no Unicode line break.
\<close>

definition line_ok :: "nat \<Rightarrow> string \<Rightarrow> bool" where
  "line_ok limit s \<longleftrightarrow>
     (s \<noteq> [] \<longrightarrow> \<not> is_space (hd (runes s)) \<and> \<not> is_space (last (runes s)))
     \<and> length (runes s) \<le> limit
     \<and> (\<forall>r\<in>set (runes s). \<not> is_control r \<and> \<not> is_line_separator r)"

lemma trimmed_iff:
  "s = trim_space s \<longleftrightarrow> (s \<noteq> [] \<longrightarrow> \<not> is_space (hd (runes s)) \<and> \<not> is_space (last (runes s)))"
  using trim_space_eq_iff [of s] by (auto simp: runes_def hd_map last_map)

lemma validateWordingValue_iff [accept_iff]:
  "validateWordingValue name v limit = None \<longleftrightarrow> line_ok limit v"
  unfolding validateWordingValue_def line_ok_def
  by (auto simp: trimmed_iff [symmetric] rune_count_def disallowed_control_iff list_ex_iff)

definition validateStatusWording :: "string \<Rightarrow> status_wording option \<Rightarrow> cap_problem option" where
  "validateStatusWording prefix w = chain
     [validateWordingValue (prefix @ ''label'') (getter sw_label [] w) MaxRequestWordingLabelRunes,
      validateWordingValue (prefix @ ''detail'') (getter sw_detail [] w) MaxRequestWordingDetailRunes]"

definition ValidateRequestStatusWording :: "status_wording option \<Rightarrow> cap_problem option" where
  "ValidateRequestStatusWording w = validateStatusWording [] w"

definition ValidateRequestRouterWording :: "router_wording option \<Rightarrow> cap_problem option" where
  "ValidateRequestRouterWording w =
     (if w = None then None
      else chain
        [validateWordingValue ''step'' (getter rw_step [] w) MaxRequestWordingLabelRunes,
         validateStatusWording ''queued.'' (getter rw_queued None w),
         validateStatusWording ''downloading.'' (getter rw_downloading None w)])"

definition validateRequestRouterCapability ::
  "capability_descriptor option \<Rightarrow> cap_problem option" where
  "validateRequestRouterCapability d = chain
     [reject_if (GetType d \<noteq> RequestRouter \<and> GetRequestRouter d \<noteq> None) RouterNeedsType,
      ValidateRequestRouterWording (getter rr_wording None (GetRequestRouter d))]"

definition status_ok :: "status_wording \<Rightarrow> bool" where
  "status_ok w \<longleftrightarrow> line_ok 24 (sw_label w) \<and> line_ok 140 (sw_detail w)"

lemma line_ok_Nil [simp]: "line_ok n []"
  by (simp add: line_ok_def runes_def)

lemma validateStatusWording_iff [accept_iff]:
  "validateStatusWording prefix w = None \<longleftrightarrow> pred_option status_ok w"
  by (cases w) (simp_all add: validateStatusWording_def status_ok_def validateWordingValue_iff)

definition wording_ok :: "router_wording \<Rightarrow> bool" where
  "wording_ok w \<longleftrightarrow>
     line_ok 24 (rw_step w) \<and> pred_option status_ok (rw_queued w)
     \<and> pred_option status_ok (rw_downloading w)"

lemma ValidateRequestRouterWording_iff [accept_iff]:
  "ValidateRequestRouterWording w = None \<longleftrightarrow> pred_option wording_ok w"
  by (cases w)
    (simp_all add: ValidateRequestRouterWording_def wording_ok_def validateWordingValue_iff
      validateStatusWording_iff)

definition router_capability_ok :: "capability_descriptor option \<Rightarrow> bool" where
  "router_capability_ok d \<longleftrightarrow>
     (GetRequestRouter d \<noteq> None \<longrightarrow> GetType d = RequestRouter)
     \<and> pred_option (\<lambda>r. pred_option wording_ok (rr_wording r)) (GetRequestRouter d)"

interpretation router: checker validateRequestRouterCapability router_capability_ok
proof
  fix d :: "capability_descriptor option"
  show "validateRequestRouterCapability d = None \<longleftrightarrow> router_capability_ok d"
    by (cases "GetRequestRouter d")
      (auto simp: validateRequestRouterCapability_def router_capability_ok_def
        ValidateRequestRouterWording_iff)
qed

end
