(* ===== verification/Presentation.thy ===== *)
theory Presentation
  imports Wording
begin

text \<open>
  The presentation block rules of \<open>manifest.go\<close>: \<open>validatePresentation\<close>,
  \<open>validatePresentationURL\<close> and \<open>equalCanonicalURL\<close>. The tables the code builds as
  slices of anonymous structs are lists of tuples in the same order. \<open>presentation_ok\<close> is
  the contract of an accepted block.
\<close>

abbreviation maxPresentationDisplayNameRunes :: nat where "maxPresentationDisplayNameRunes \<equiv> 120"
abbreviation maxPresentationSummaryRunes :: nat where "maxPresentationSummaryRunes \<equiv> 240"
abbreviation maxPresentationIdentityRunes :: nat where "maxPresentationIdentityRunes \<equiv> 120"
abbreviation maxPresentationMarkdownBytes :: nat where "maxPresentationMarkdownBytes \<equiv> 32768"
abbreviation maxPresentationURLBytes :: nat where "maxPresentationURLBytes \<equiv> 2048"

subsection \<open>The three field tables\<close>

definition single_line_fields :: "plugin_presentation \<Rightarrow> (string \<times> string \<times> nat) list" where
  "single_line_fields p =
     [(''display_name'', pr_display_name p, maxPresentationDisplayNameRunes),
      (''summary'', pr_summary p, maxPresentationSummaryRunes),
      (''publisher_name'', pr_publisher_name p, maxPresentationIdentityRunes),
      (''license_spdx'', pr_license_spdx p, maxPresentationIdentityRunes)]"

definition markdown_fields :: "plugin_presentation \<Rightarrow> (string \<times> string) list" where
  "markdown_fields p =
     [(''description_markdown'', pr_description_markdown p),
      (''setup_markdown'', pr_setup_markdown p)]"

definition url_fields :: "plugin_presentation \<Rightarrow> (string \<times> string) list" where
  "url_fields p =
     [(''homepage_url'', pr_homepage_url p), (''source_url'', pr_source_url p),
      (''support_url'', pr_support_url p), (''changelog_url'', pr_changelog_url p),
      (''publisher_url'', pr_publisher_url p)]"

subsection \<open>Checks\<close>

definition check_single_line :: "string \<times> string \<times> nat \<Rightarrow> (string \<times> pres_problem) option" where
  "check_single_line = (\<lambda>(name, value, limit). chain
     [reject_if (value \<noteq> [] \<and> value \<noteq> trim_space value) (name, PresSpace),
      reject_if (rune_count value > limit) (name, PresLength limit),
      reject_if (hasDisallowedControl value False) (name, PresControl)])"

definition check_markdown :: "string \<times> string \<Rightarrow> (string \<times> pres_problem) option" where
  "check_markdown = (\<lambda>(name, value). chain
     [reject_if (length value > maxPresentationMarkdownBytes)
        (name, PresBytes maxPresentationMarkdownBytes),
      reject_if (hasDisallowedControl value True) (name, PresControl)])"

definition contains_any :: "string \<Rightarrow> char set \<Rightarrow> bool" where
  "contains_any s cs \<longleftrightarrow> list_ex (\<lambda>c. c \<in> cs) s"

definition validatePresentationURL :: "ext \<Rightarrow> string \<Rightarrow> pres_problem option" where
  "validatePresentationURL X raw =
     (if raw = [] then None
      else if length raw > maxPresentationURLBytes then Some (UrlBytes maxPresentationURLBytes)
      else if raw \<noteq> trim_space raw
           \<or> contains_any raw {CHR '' '', char_of (9 :: nat), char_of (13 :: nat), char_of (10 :: nat)}
           \<or> hasDisallowedControl raw False then Some UrlSpace
      else case url_parse X raw of
             None \<Rightarrow> Some UrlInvalid
           | Some u \<Rightarrow>
               if (pu_scheme u \<noteq> ''http'' \<and> pu_scheme u \<noteq> ''https'') \<or> pu_host u = []
               then Some UrlNotAbsolute
               else if pu_user u then Some UrlCredentials
               else None)"

definition validatePresentation ::
  "ext \<Rightarrow> plugin_presentation option \<Rightarrow> (string \<times> pres_problem) option" where
  "validatePresentation X p =
     (case p of
        None \<Rightarrow> None
      | Some p \<Rightarrow> chain
          [first_err check_single_line (single_line_fields p),
           first_err check_markdown (markdown_fields p),
           first_err (\<lambda>(name, value). map_option (Pair name) (validatePresentationURL X value))
             (url_fields p)])"

definition equalCanonicalURL :: "(rune \<Rightarrow> rune) \<Rightarrow> string \<Rightarrow> string \<Rightarrow> bool" where
  "equalCanonicalURL canon left right =
     equal_fold canon (trim_suffix left ''/'') (trim_suffix right ''/'')"

subsection \<open>The contract\<close>

definition title_ok :: "nat \<Rightarrow> string \<Rightarrow> bool" where
  "title_ok limit s \<longleftrightarrow>
     (s \<noteq> [] \<longrightarrow> \<not> is_space (hd (runes s)) \<and> \<not> is_space (last (runes s)))
     \<and> length (runes s) \<le> limit
     \<and> (\<forall>r\<in>set (runes s). \<not> is_control r)"

definition markdown_ok :: "string \<Rightarrow> bool" where
  "markdown_ok s \<longleftrightarrow> length s \<le> 32768 \<and> (\<forall>r\<in>set (runes s). is_control r \<longrightarrow> r \<in> {9, 10, 13})"

text \<open>An absolute http or https URL without credentials, whitespace or control characters.\<close>

definition url_ok :: "ext \<Rightarrow> string \<Rightarrow> bool" where
  "url_ok X s \<longleftrightarrow> s = [] \<or>
     (length s \<le> 2048
      \<and> \<not> is_space (hd (runes s)) \<and> \<not> is_space (last (runes s)) \<and> CHR '' '' \<notin> set s
      \<and> (\<forall>r\<in>set (runes s). \<not> is_control r)
      \<and> (\<exists>u. url_parse X s = Some u \<and> pu_scheme u \<in> {''http'', ''https''} \<and> pu_host u \<noteq> []
            \<and> \<not> pu_user u))"

definition presentation_ok :: "ext \<Rightarrow> plugin_presentation \<Rightarrow> bool" where
  "presentation_ok X p \<longleftrightarrow>
     title_ok 120 (pr_display_name p) \<and> title_ok 240 (pr_summary p)
     \<and> title_ok 120 (pr_publisher_name p) \<and> title_ok 120 (pr_license_spdx p)
     \<and> markdown_ok (pr_description_markdown p) \<and> markdown_ok (pr_setup_markdown p)
     \<and> url_ok X (pr_homepage_url p) \<and> url_ok X (pr_source_url p) \<and> url_ok X (pr_support_url p)
     \<and> url_ok X (pr_changelog_url p) \<and> url_ok X (pr_publisher_url p)"

lemma check_single_line_iff [accept_iff]:
  "check_single_line (name, v, limit) = None \<longleftrightarrow> title_ok limit v"
  by (auto simp: check_single_line_def title_ok_def trimmed_iff [symmetric] rune_count_def
      disallowed_control_iff)

lemma check_markdown_iff [accept_iff]: "check_markdown (name, v) = None \<longleftrightarrow> markdown_ok v"
  by (auto simp: check_markdown_def markdown_ok_def disallowed_control_iff)

text \<open>
  The control check already excludes tab, carriage return and line feed, because an ASCII byte
  is always decoded as itself; of the characters the code names only the space matters.
\<close>

lemma no_ascii_control:
  assumes "\<forall>r\<in>set (runes s). \<not> is_control r" and "c \<in> set s"
  shows "byte c \<notin> {9, 10, 13}"
proof
  assume "byte c \<in> {9, 10, 13}"
  then have "is_control (byte c)" and "byte c < 0x80" by (auto simp: is_control_def)
  with ascii_byte_in_runes [OF assms(2)] assms(1) show False by blast
qed

lemma url_space_iff:
  assumes "\<forall>r\<in>set (runes s). \<not> is_control r"
  shows "contains_any s {CHR '' '', char_of (9 :: nat), char_of (13 :: nat), char_of (10 :: nat)}
         \<longleftrightarrow> CHR '' '' \<in> set s"
  using no_ascii_control [OF assms]
  by (fastforce simp: contains_any_def list_ex_iff byte_def)

lemma validatePresentationURL_iff [accept_iff]: "validatePresentationURL X s = None \<longleftrightarrow> url_ok X s"
proof (cases "s = [] \<or> \<not> (\<forall>r\<in>set (runes s). \<not> is_control r)")
  case True
  then show ?thesis
    by (auto simp: validatePresentationURL_def url_ok_def disallowed_control_iff)
next
  case False
  then have "\<forall>r\<in>set (runes s). \<not> is_control r" "s \<noteq> []" by auto
  then show ?thesis
    using url_space_iff [of s] trimmed_iff [of s]
    by (auto simp: validatePresentationURL_def url_ok_def disallowed_control_iff
        split: option.splits)
qed

lemma validatePresentation_iff [accept_iff]:
  "validatePresentation X p = None \<longleftrightarrow> pred_option (presentation_ok X) p"
proof (cases p)
  case None
  then show ?thesis by (simp add: validatePresentation_def)
next
  case (Some q)
  then show ?thesis
    by (simp add: validatePresentation_def presentation_ok_def single_line_fields_def
        markdown_fields_def url_fields_def check_single_line_iff check_markdown_iff
        validatePresentationURL_iff conj_assoc del: first_err.simps)
qed

text \<open>Canonical equality is an equivalence, blind to one trailing slash.\<close>

lemma trim_suffix_slash: "trim_suffix (s @ ''/'') ''/'' = s"
  by (simp add: trim_suffix_def)

lemma equalCanonicalURL_slash:
  "trim_suffix s ''/'' = s \<Longrightarrow> equalCanonicalURL canon s (s @ ''/'')"
  by (simp add: equalCanonicalURL_def trim_suffix_slash)

subsection \<open>Line separators\<close>

text \<open>
  A presentation title may contain U+2028 or U+2029, which the request router wording refuses to keep its
  values on one line.
\<close>

theorem line_separator_in_title:
  assumes "title_ok limit s" and "list_ex is_line_separator (runes s)"
  shows "check_single_line (name, s, limit) = None
    \<and> validateWordingValue name s limit = Some (RouterWording name WordingLines)"
proof -
  have "s = trim_space s" "rune_count s \<le> limit" "\<not> hasDisallowedControl s False"
    using assms(1) unfolding title_ok_def trimmed_iff [symmetric] by (auto simp: rune_count_def disallowed_control_iff)
  with assms(2) show ?thesis
    by (simp add: check_single_line_def validateWordingValue_def chain_def reject_if_def)
qed

end
