(* ===== verification/Go_Json.thy ===== *)
theory Go_Json
  imports Go_Text
begin

text \<open>
  What the SDK uses of \<open>encoding/json\<close>: \<open>json_parse\<close> is the syntax check and decoding of
  a whole text (JSON values separated and followed by blanks only, strings unescaped to UTF-8
  with \<open>U+FFFD\<close> for invalid bytes and unpaired surrogates, nesting of at most 10000 levels),
  and the functions below it are the assignments \<open>json.Unmarshal\<close> makes to the struct types
  of the SDK: field names match up to case, \<open>null\<close> leaves a string or struct field alone and
  empties a map, later duplicates win, and a value of another type is an error. A number is
  kept as its lexeme. The parser recurses on fuel; \<open>parse_fuel_enough\<close> shows that the fuel
  \<open>json_parse\<close> supplies never runs out.
\<close>

datatype json =
    JNull
  | JBool bool
  | JNum string
  | JStr string
  | JArr "json list"
  | JObj "(string \<times> json) list"

subsection \<open>Lexing\<close>

definition json_ws :: "char \<Rightarrow> bool" where
  "json_ws c \<longleftrightarrow> byte c \<in> {9, 10, 13, 32}"

definition skip_ws :: "string \<Rightarrow> string" where
  "skip_ws s = dropWhile json_ws s"

definition is_digit :: "char \<Rightarrow> bool" where
  "is_digit c \<longleftrightarrow> 48 \<le> byte c \<and> byte c \<le> 57"

definition lex_digits :: "string \<Rightarrow> (string \<times> string) option" where
  "lex_digits s =
     (if takeWhile is_digit s = [] then None else Some (takeWhile is_digit s, dropWhile is_digit s))"

definition lex_int :: "string \<Rightarrow> (string \<times> string) option" where
  "lex_int s =
     (case s of
        [] \<Rightarrow> None
      | c # cs \<Rightarrow> if c = CHR ''0'' then Some ([c], cs) else lex_digits s)"

definition lex_frac :: "string \<Rightarrow> (string \<times> string) option" where
  "lex_frac s =
     (case s of
        c # cs \<Rightarrow> if c = CHR ''.'' then map_option (apfst (Cons c)) (lex_digits cs) else Some ([], s)
      | [] \<Rightarrow> Some ([], s))"

definition lex_exp :: "string \<Rightarrow> (string \<times> string) option" where
  "lex_exp s =
     (case s of
        c # cs \<Rightarrow>
          if c = CHR ''e'' \<or> c = CHR ''E'' then
            (case cs of
               d # ds \<Rightarrow>
                 if d = CHR ''+'' \<or> d = CHR ''-''
                 then map_option (apfst (\<lambda>x. c # d # x)) (lex_digits ds)
                 else map_option (apfst (Cons c)) (lex_digits cs)
             | [] \<Rightarrow> None)
          else Some ([], s)
      | [] \<Rightarrow> Some ([], s))"

definition lex_number :: "string \<Rightarrow> (string \<times> string) option" where
  "lex_number s =
     (let (sign, s1) = (case s of c # cs \<Rightarrow> if c = CHR ''-'' then ([c], cs) else ([], s) | [] \<Rightarrow> ([], s))
      in case lex_int s1 of
           None \<Rightarrow> None
         | Some (i, s2) \<Rightarrow>
             (case lex_frac s2 of
                None \<Rightarrow> None
              | Some (f, s3) \<Rightarrow>
                  (case lex_exp s3 of
                     None \<Rightarrow> None
                   | Some (e, s4) \<Rightarrow> Some (sign @ i @ f @ e, s4))))"

definition strip_prefix :: "string \<Rightarrow> string \<Rightarrow> string option" where
  "strip_prefix p s = (if take (length p) s = p then Some (drop (length p) s) else None)"

subsection \<open>Strings\<close>

definition encode_rune :: "rune \<Rightarrow> string" where
  "encode_rune r =
     map (char_of :: nat \<Rightarrow> char)
       (if r < 0x80 then [r]
        else if r < 0x800 then [0xC0 + r div 64, 0x80 + r mod 64]
        else if r < 0x10000 then [0xE0 + r div 4096, 0x80 + r div 64 mod 64, 0x80 + r mod 64]
        else [0xF0 + r div 262144, 0x80 + r div 4096 mod 64, 0x80 + r div 64 mod 64, 0x80 + r mod 64])"

definition hex_val :: "char \<Rightarrow> nat option" where
  "hex_val c =
     (let b = byte c in
      if 48 \<le> b \<and> b \<le> 57 then Some (b - 48)
      else if 97 \<le> b \<and> b \<le> 102 then Some (b - 87)
      else if 65 \<le> b \<and> b \<le> 70 then Some (b - 55)
      else None)"

definition hex4 :: "string \<Rightarrow> nat option" where
  "hex4 s =
     (case map hex_val (take 4 s) of
        [Some a, Some b, Some c, Some d] \<Rightarrow> Some (a * 4096 + b * 256 + c * 16 + d)
      | _ \<Rightarrow> None)"

text \<open>The code unit of a following \<open>\u\<close> escape, if there is one.\<close>

definition next_u4 :: "string \<Rightarrow> nat option" where
  "next_u4 s =
     (case s of
        b # u # rest \<Rightarrow> if b = CHR 0x5C \<and> u = CHR ''u'' then hex4 rest else None
      | _ \<Rightarrow> None)"

definition simple_escape :: "char \<Rightarrow> char option" where
  "simple_escape c =
     (if c = CHR 0x22 \<or> c = CHR 0x5C \<or> c = CHR ''/'' then Some c
      else if c = CHR ''b'' then Some (char_of (8 :: nat))
      else if c = CHR ''f'' then Some (char_of (12 :: nat))
      else if c = CHR ''n'' then Some (char_of (10 :: nat))
      else if c = CHR ''r'' then Some (char_of (13 :: nat))
      else if c = CHR ''t'' then Some (char_of (9 :: nat))
      else None)"

text \<open>
  One step of a string after its opening quote: the decoded bytes and what follows; the inner
  \<open>None\<close> is the closing quote.
\<close>

definition str_step :: "string \<Rightarrow> (string option \<times> string) option" where
  "str_step s =
     (case s of
        [] \<Rightarrow> None
      | c # cs \<Rightarrow>
          if c = CHR 0x22 then Some (None, cs)
          else if c = CHR 0x5C then
            (case cs of
               [] \<Rightarrow> None
             | e # es \<Rightarrow>
                 if e = CHR ''u'' then
                   (case hex4 es of
                      None \<Rightarrow> None
                    | Some r \<Rightarrow>
                        let rest = drop 4 es in
                        if 0xD800 \<le> r \<and> r < 0xE000 then
                          (case next_u4 rest of
                             Some r2 \<Rightarrow>
                               if r < 0xDC00 \<and> 0xDC00 \<le> r2 \<and> r2 < 0xE000
                               then Some (Some (encode_rune
                                      ((r - 0xD800) * 1024 + (r2 - 0xDC00) + 0x10000)), drop 6 rest)
                               else Some (Some (encode_rune 0xFFFD), rest)
                           | None \<Rightarrow> Some (Some (encode_rune 0xFFFD), rest))
                        else Some (Some (encode_rune r), rest))
                 else map_option (\<lambda>x. (Some [x], es)) (simple_escape e))
          else if byte c < 0x20 then None
          else if byte c < 0x80 then Some (Some [c], cs)
          else case multi (byte c) (map byte (take 3 cs)) of
                 None \<Rightarrow> Some (Some (encode_rune 0xFFFD), cs)
               | Some (r, n) \<Rightarrow> Some (Some (c # take n cs), drop n cs))"

lemma str_step_shorter: "str_step s = Some (d, rest) \<Longrightarrow> length rest < length s"
  by (auto simp: str_step_def Let_def split: list.splits if_splits option.splits prod.splits)

function parse_str :: "string \<Rightarrow> (string \<times> string) option" where
  "parse_str s =
     (case str_step s of
        None \<Rightarrow> None
      | Some (None, rest) \<Rightarrow> Some ([], rest)
      | Some (Some d, rest) \<Rightarrow> map_option (apfst (append d)) (parse_str rest))"
  by pat_completeness auto
termination
  by (relation "measure length") (auto dest: str_step_shorter)

declare parse_str.simps [simp del]

lemma parse_str_shorter: "parse_str s = Some (d, rest) \<Longrightarrow> length rest < length s"
proof (induction s arbitrary: d rest rule: parse_str.induct)
  case (1 s)
  obtain x r1 where step: "str_step s = Some (x, r1)"
    using "1.prems" by (auto simp: parse_str.simps [of s] split: option.splits)
  then have lt: "length r1 < length s" by (rule str_step_shorter)
  show ?case
  proof (cases x)
    case None
    with "1.prems" step lt show ?thesis by (simp add: parse_str.simps [of s])
  next
    case (Some e)
    with "1.prems" step obtain d' where "parse_str r1 = Some (d', rest)"
      by (auto simp: parse_str.simps [of s])
    with "1.IH" step Some have "length rest < length r1" by blast
    with lt show ?thesis by simp
  qed
qed

subsection \<open>Values\<close>

fun parse_value :: "nat \<Rightarrow> nat \<Rightarrow> string \<Rightarrow> (json \<times> string) option"
  and parse_elems :: "nat \<Rightarrow> nat \<Rightarrow> string \<Rightarrow> (json list \<times> string) option"
  and parse_members :: "nat \<Rightarrow> nat \<Rightarrow> string \<Rightarrow> ((string \<times> json) list \<times> string) option"
where
  "parse_value 0 depth s = None"
| "parse_value (Suc fuel) depth s =
     (case skip_ws s of
        [] \<Rightarrow> None
      | c # cs \<Rightarrow>
          if c = CHR ''{'' then
            (if depth = 0 then None
             else case skip_ws cs of
                    [] \<Rightarrow> None
                  | d # ds \<Rightarrow>
                      if d = CHR ''}'' then Some (JObj [], ds)
                      else map_option (apfst JObj) (parse_members fuel (depth - 1) cs))
          else if c = CHR ''['' then
            (if depth = 0 then None
             else case skip_ws cs of
                    [] \<Rightarrow> None
                  | d # ds \<Rightarrow>
                      if d = CHR '']'' then Some (JArr [], ds)
                      else map_option (apfst JArr) (parse_elems fuel (depth - 1) cs))
          else if c = CHR 0x22 then map_option (apfst JStr) (parse_str cs)
          else if c = CHR ''t'' then map_option (Pair (JBool True)) (strip_prefix ''rue'' cs)
          else if c = CHR ''f'' then map_option (Pair (JBool False)) (strip_prefix ''alse'' cs)
          else if c = CHR ''n'' then map_option (Pair JNull) (strip_prefix ''ull'' cs)
          else map_option (apfst JNum) (lex_number (c # cs)))"
| "parse_elems 0 depth s = None"
| "parse_elems (Suc fuel) depth s =
     (case parse_value fuel depth s of
        None \<Rightarrow> None
      | Some (v, s1) \<Rightarrow>
          (case skip_ws s1 of
             [] \<Rightarrow> None
           | c # cs \<Rightarrow>
               if c = CHR '']'' then Some ([v], cs)
               else if c = CHR '','' then map_option (apfst (Cons v)) (parse_elems fuel depth cs)
               else None))"
| "parse_members 0 depth s = None"
| "parse_members (Suc fuel) depth s =
     (case skip_ws s of
        [] \<Rightarrow> None
      | q # cs \<Rightarrow>
          if q \<noteq> CHR 0x22 then None
          else case parse_str cs of
                 None \<Rightarrow> None
               | Some (k, s1) \<Rightarrow>
                   (case skip_ws s1 of
                      [] \<Rightarrow> None
                    | col # s2 \<Rightarrow>
                        if col \<noteq> CHR '':'' then None
                        else case parse_value fuel depth s2 of
                               None \<Rightarrow> None
                             | Some (v, s3) \<Rightarrow>
                                 (case skip_ws s3 of
                                    [] \<Rightarrow> None
                                  | c # s4 \<Rightarrow>
                                      if c = CHR ''}'' then Some ([(k, v)], s4)
                                      else if c = CHR '','' then
                                        map_option (apfst (Cons (k, v))) (parse_members fuel depth s4)
                                      else None)))"

abbreviation maxNestingDepth :: nat where "maxNestingDepth \<equiv> 10000"

definition json_parse :: "string \<Rightarrow> json option" where
  "json_parse s =
     (case parse_value (2 * length s + 1) maxNestingDepth s of
        None \<Rightarrow> None
      | Some (v, rest) \<Rightarrow> if skip_ws rest = [] then Some v else None)"

subsection \<open>Enough fuel\<close>

lemma skip_ws_le: "skip_ws s = c # cs \<Longrightarrow> length cs < length s"
  using length_dropWhile_le [of json_ws s] by (simp add: skip_ws_def)

lemma lex_digits_shorter: "lex_digits s = Some (d, r) \<Longrightarrow> length r < length s"
  unfolding lex_digits_def
  by (metis length_append length_greater_0_conv less_add_same_cancel2 option.distinct(1) option.inject
      prod.inject takeWhile_dropWhile_id)

lemma lex_int_shorter: "lex_int s = Some (d, r) \<Longrightarrow> length r < length s"
  by (auto simp: lex_int_def split: list.splits if_splits dest: lex_digits_shorter)

lemma lex_frac_le: "lex_frac s = Some (d, r) \<Longrightarrow> length r \<le> length s"
  by (auto simp: lex_frac_def split: list.splits if_splits dest!: lex_digits_shorter)

lemma lex_exp_le: "lex_exp s = Some (d, r) \<Longrightarrow> length r \<le> length s"
  by (auto simp: lex_exp_def split: list.splits if_splits dest!: lex_digits_shorter)

lemma lex_number_shorter: "lex_number s = Some (d, r) \<Longrightarrow> length r < length s"
  by (fastforce simp: lex_number_def Let_def split: list.splits if_splits option.splits prod.splits
      dest!: lex_int_shorter lex_frac_le lex_exp_le)

lemma strip_prefix_le: "strip_prefix p s = Some r \<Longrightarrow> length r \<le> length s"
  by (auto simp: strip_prefix_def split: if_splits)

lemma parse_shorter:
  "parse_value f d s = Some (v, r) \<Longrightarrow> length r < length s"
  "parse_elems f d s = Some (vs, r) \<Longrightarrow> length r < length s"
  "parse_members f d s = Some (ms, r) \<Longrightarrow> length r < length s"
proof (induction f d s and f d s and f d s arbitrary: v r and vs r and ms r
    rule: parse_value_parse_elems_parse_members.induct)
  case (2 f d s)
  then show ?case
    by (auto split: list.splits if_splits
        dest!: skip_ws_le parse_str_shorter strip_prefix_le lex_number_shorter)
      (fastforce dest: less_trans)+
next
  case (4 f d s)
  then show ?case
    by (auto split: list.splits if_splits option.splits dest!: skip_ws_le)
      (fastforce dest: less_trans)+
next
  case (6 f d s)
  then show ?case
    by (auto split: list.splits if_splits option.splits dest!: skip_ws_le parse_str_shorter)
      (fastforce dest: less_trans)+
qed simp_all

declare parse_value.simps(2) [simp del] parse_elems.simps(2) [simp del] parse_members.simps(2) [simp del]

lemma parse_value_Suc_cong:
  assumes "\<And>d s. 2 * length s + 2 \<le> f \<Longrightarrow> parse_elems (Suc f) d s = parse_elems f d s"
    and "\<And>d s. 2 * length s + 1 \<le> f \<Longrightarrow> parse_members (Suc f) d s = parse_members f d s"
    and "2 * length s + 1 \<le> Suc f"
  shows "parse_value (Suc (Suc f)) d s = parse_value (Suc f) d s"
proof (cases "skip_ws s")
  case Nil
  then show ?thesis by (simp add: parse_value.simps(2))
next
  case (Cons c cs)
  then have "length cs < length s" by (rule skip_ws_le)
  with assms have "parse_elems (Suc f) e cs = parse_elems f e cs"
    and "parse_members (Suc f) e cs = parse_members f e cs" for e
    by simp_all
  then show ?thesis
    by (simp only: parse_value.simps Cons list.case)
qed

lemma parse_elems_Suc_cong:
  assumes "\<And>d s. 2 * length s + 1 \<le> f \<Longrightarrow> parse_value (Suc f) d s = parse_value f d s"
    and "\<And>d s. 2 * length s + 2 \<le> f \<Longrightarrow> parse_elems (Suc f) d s = parse_elems f d s"
    and "2 * length s + 2 \<le> Suc f"
  shows "parse_elems (Suc (Suc f)) d s = parse_elems (Suc f) d s"
proof (cases "parse_value f d s")
  case None
  with assms(1,3) show ?thesis by (simp only: parse_elems.simps) simp
next
  case (Some p)
  obtain v s1 where p: "p = (v, s1)" by (cases p)
  with Some have lt: "length s1 < length s" by (auto dest: parse_shorter(1))
  have v: "parse_value (Suc f) d s = parse_value f d s" using assms(1,3) by simp
  have "parse_elems (Suc f) d cs = parse_elems f d cs" if "skip_ws s1 = c # cs" for c cs
    using assms(2,3) lt skip_ws_le [OF that] by simp
  then show ?thesis
    unfolding parse_elems.simps(2) [of "Suc f" d s] parse_elems.simps(2) [of f d s] v Some p
    by (auto split: list.splits)
qed

lemma member_value_shorter:
  assumes "skip_ws s = q # cs" and "parse_str cs = Some (k, s1)" and "skip_ws s1 = col # s2"
  shows "length s2 < length s"
  using skip_ws_le [OF assms(1)] parse_str_shorter [OF assms(2)] skip_ws_le [OF assms(3)] by simp

lemma member_rest_shorter:
  assumes "length s2 < length s" and "parse_value f d s2 = Some (v, s3)" and "skip_ws s3 = c # s4"
  shows "length s4 < length s"
  using assms(1) parse_shorter(1) [OF assms(2)] skip_ws_le [OF assms(3)] by simp

lemma parse_members_Suc_cong:
  assumes "\<And>d s. 2 * length s + 1 \<le> f \<Longrightarrow> parse_value (Suc f) d s = parse_value f d s"
    and "\<And>d s. 2 * length s + 1 \<le> f \<Longrightarrow> parse_members (Suc f) d s = parse_members f d s"
    and "2 * length s + 1 \<le> Suc f"
  shows "parse_members (Suc (Suc f)) d s = parse_members (Suc f) d s"
proof -
  have vals: "parse_value (Suc f) d s2 = parse_value f d s2" if "length s2 < length s" for s2
    using assms(1,3) that by simp
  have members: "parse_members (Suc f) d s4 = parse_members f d s4" if "length s4 < length s" for s4
    using assms(2,3) that by simp
  show ?thesis
    unfolding parse_members.simps(2) [of "Suc f" d s] parse_members.simps(2) [of f d s]
    by (intro list.case_cong option.case_cong prod.case_cong if_cong refl vals members
          arg_cong [where f = "map_option g" for g])
      (auto intro: member_value_shorter member_rest_shorter)
qed

lemma parse_fuel_Suc:
  "(\<forall>d s. 2 * length s + 1 \<le> f \<longrightarrow> parse_value (Suc f) d s = parse_value f d s) \<and>
   (\<forall>d s. 2 * length s + 2 \<le> f \<longrightarrow> parse_elems (Suc f) d s = parse_elems f d s) \<and>
   (\<forall>d s. 2 * length s + 1 \<le> f \<longrightarrow> parse_members (Suc f) d s = parse_members f d s)"
proof (induction f)
  case 0
  then show ?case by simp
next
  case (Suc f)
  then show ?case
    by (intro conjI allI impI parse_value_Suc_cong parse_elems_Suc_cong parse_members_Suc_cong)
      simp_all
qed

lemma parse_fuel_enough:
  "2 * length s + 1 \<le> f \<Longrightarrow> parse_value f d s = parse_value (2 * length s + 1) d s"
proof (induction f)
  case 0
  then show ?case by simp
next
  case (Suc f)
  then show ?case
    using parse_fuel_Suc [of f] by (cases "2 * length s + 1 = Suc f") (simp, fastforce)
qed

subsection \<open>Assignments to struct fields\<close>

text \<open>A key of the text selects the field of that name, in any letter case.\<close>

definition field_match :: "string \<Rightarrow> string \<Rightarrow> bool" where
  "field_match name key \<longleftrightarrow> key = name \<or> equal_fold ascii_fold key name"

text \<open>A string field: \<open>null\<close> keeps the current value, another type is an error.\<close>

definition set_string :: "string \<Rightarrow> json \<Rightarrow> string option" where
  "set_string cur v = (case v of JNull \<Rightarrow> Some cur | JStr s \<Rightarrow> Some s | _ \<Rightarrow> None)"

text \<open>A struct with one string field \<open>name\<close>; other keys are skipped.\<close>

fun set_members :: "string \<Rightarrow> string \<Rightarrow> (string \<times> json) list \<Rightarrow> string option" where
  "set_members name cur [] = Some cur"
| "set_members name cur ((k, v) # kvs) =
     (if field_match name k
      then (case set_string cur v of None \<Rightarrow> None | Some c \<Rightarrow> set_members name c kvs)
      else set_members name cur kvs)"

definition unmarshal_string_struct :: "string \<Rightarrow> json \<Rightarrow> string option" where
  "unmarshal_string_struct name v =
     (case v of JNull \<Rightarrow> Some [] | JObj kvs \<Rightarrow> set_members name [] kvs | _ \<Rightarrow> None)"

subsection \<open>Decoding into an any\<close>

text \<open>
  Decoding into an \<open>any\<close> converts every number with \<open>strconv.ParseFloat\<close>, which fails where the
  value would round to an infinity, from \<open>2^1024 - 2^970\<close> on. Like it, \<open>exponent_value\<close> stops reading digits of an
  exponent at 10000.
\<close>

definition digits_value :: "string \<Rightarrow> nat" where
  "digits_value ds = foldl (\<lambda>n c. 10 * n + (byte c - 48)) 0 ds"

definition exponent_value :: "string \<Rightarrow> nat" where
  "exponent_value ds = foldl (\<lambda>e c. if e < 10000 then e * 10 + (byte c - 48) else e) 0 ds"

text \<open>A number \<open>M * 10^x\<close> is a finite \<open>float64\<close>.\<close>

definition fits_f64 :: "nat \<Rightarrow> int \<Rightarrow> bool" where
  "fits_f64 M x \<longleftrightarrow>
     (if M = 0 then True
      else if 0 \<le> x then M * 10 ^ nat x < 2 ^ 1024 - 2 ^ 970
      else M < (2 ^ 1024 - 2 ^ 970) * 10 ^ nat (- x))"

definition number_fits :: "string \<Rightarrow> bool" where
  "number_fits lexeme =
     (let s = (if take 1 lexeme = ''-'' then drop 1 lexeme else lexeme);
          i = takeWhile is_digit s;
          s1 = dropWhile is_digit s;
          f = (if take 1 s1 = ''.'' then takeWhile is_digit (drop 1 s1) else []);
          s2 = (if take 1 s1 = ''.'' then dropWhile is_digit (drop 1 s1) else s1);
          e = drop 1 s2;
          x = (if take 1 e = ''-'' then - int (exponent_value (drop 1 e))
               else if take 1 e = ''+'' then int (exponent_value (drop 1 e))
               else int (exponent_value e))
      in fits_f64 (digits_value (i @ f)) (x - int (length f)))"

fun decodes_any :: "json \<Rightarrow> bool" where
  "decodes_any (JNum s) \<longleftrightarrow> number_fits s"
| "decodes_any (JArr xs) \<longleftrightarrow> list_all decodes_any xs"
| "decodes_any (JObj kvs) \<longleftrightarrow> list_all (\<lambda>(k, v). decodes_any v) kvs"
| "decodes_any v \<longleftrightarrow> True"

text \<open>The range at its ends.\<close>

lemmas number_defs = number_fits_def Let_def is_digit_def byte_def digits_value_def exponent_value_def

lemma number_fits_limit: "number_fits ''1e308'' \<and> \<not> number_fits ''1e309''"
  by (simp add: number_defs) (simp add: fits_f64_def)

lemma number_fits_signed: "number_fits ''-1.7e308'' \<and> \<not> number_fits ''-1.8E+308''"
  by (simp add: number_defs) (simp add: fits_f64_def)

end
