(* ===== verification/Admin_Form.thy ===== *)
theory Admin_Form
  imports Manifest_Errors Go_Json
begin

text \<open>
  \<open>validateConfigSchema\<close> of \<open>manifest.go\<close>: the JSON Schema of a config entry is decoded into
  its \<open>type\<close> and the \<open>type\<close> of its properties (\<open>parse_schema\<close>), and the admin form is
  checked against it in two passes. \<open>form_ok\<close> is the contract of an accepted form: every
  reference of the form names a declared property.
\<close>

subsection \<open>The decoded JSON Schema\<close>

record json_schema =
  js_type :: string
  js_props :: "string \<rightharpoonup> string"

fun set_properties :: "(string \<rightharpoonup> string) \<Rightarrow> (string \<times> json) list \<Rightarrow> (string \<rightharpoonup> string) option" where
  "set_properties m [] = Some m"
| "set_properties m ((k, v) # kvs) =
     (case unmarshal_string_struct ''type'' v of
        None \<Rightarrow> None
      | Some t \<Rightarrow> set_properties (m(k \<mapsto> t)) kvs)"

definition assign_properties :: "(string \<rightharpoonup> string) \<Rightarrow> json \<Rightarrow> (string \<rightharpoonup> string) option" where
  "assign_properties m v =
     (case v of JNull \<Rightarrow> Some (\<lambda>_. None) | JObj kvs \<Rightarrow> set_properties m kvs | _ \<Rightarrow> None)"

fun schema_members :: "json_schema \<Rightarrow> (string \<times> json) list \<Rightarrow> json_schema option" where
  "schema_members doc [] = Some doc"
| "schema_members doc ((k, v) # kvs) =
     (if field_match ''type'' k then
        (case set_string (js_type doc) v of
           None \<Rightarrow> None
         | Some t \<Rightarrow> schema_members (doc\<lparr>js_type := t\<rparr>) kvs)
      else if field_match ''properties'' k then
        (case assign_properties (js_props doc) v of
           None \<Rightarrow> None
         | Some m \<Rightarrow> schema_members (doc\<lparr>js_props := m\<rparr>) kvs)
      else schema_members doc kvs)"

definition zero_json_schema :: json_schema where
  "zero_json_schema = \<lparr>js_type = [], js_props = (\<lambda>_. None)\<rparr>"

definition parse_schema :: "string \<Rightarrow> json_schema option" where
  "parse_schema text =
     (case json_parse text of
        Some JNull \<Rightarrow> Some zero_json_schema
      | Some (JObj kvs) \<Rightarrow> schema_members zero_json_schema kvs
      | _ \<Rightarrow> None)"

subsection \<open>First pass: the fields\<close>

definition check_control :: "string \<Rightarrow> form_field \<Rightarrow> schema_problem option" where
  "check_control t f =
     (if ff_control f = CONTROL_MULTI_SELECT then chain
        [reject_if (t \<noteq> ''array'') (MultiSelectNotArray (ff_key f)),
         reject_if (\<not> ff_dynamic_options f \<and> ff_options f = []) (SelectNeedsOptions (ff_key f))]
      else if ff_control f = CONTROL_SELECT then
        reject_if (\<not> ff_dynamic_options f \<and> ff_options f = []) (SelectNeedsOptions (ff_key f))
      else None)"

definition check_default :: "ext \<Rightarrow> string \<Rightarrow> form_field \<Rightarrow> schema_problem option" where
  "check_default X t f =
     (case ff_default_value f of
        None \<Rightarrow> None
      | Some v \<Rightarrow>
          if t = ''boolean'' then
            reject_if (\<not> is_any_bool (as_interface X v)) (DefaultNotBool (ff_key f))
          else if t = ''integer'' \<or> t = ''number'' then
            reject_if (\<not> is_any_float (as_interface X v)) (DefaultNotNumber (ff_key f))
          else if t = ''string'' then
            reject_if (\<not> is_any_string (as_interface X v)) (DefaultNotString (ff_key f))
          else None)"

fun fields_loop ::
  "ext \<Rightarrow> (string \<rightharpoonup> string) \<Rightarrow> string set \<Rightarrow> form_field option list \<Rightarrow> schema_problem + string set"
where
  "fields_loop X props seen [] = Inr seen"
| "fields_loop X props seen (None # fs) = fields_loop X props seen fs"
| "fields_loop X props seen (Some f # fs) =
     (if ff_key f = [] then Inl FieldKeyRequired
      else if ff_key f \<in> seen then Inl (FieldDuplicate (ff_key f))
      else case props (ff_key f) of
             None \<Rightarrow> Inl (FieldUndeclared (ff_key f))
           | Some t \<Rightarrow>
               (case chain [check_control t f, check_default X t f] of
                  Some e \<Rightarrow> Inl e
                | None \<Rightarrow> fields_loop X props (insert (ff_key f) seen) fs))"

abbreviation field_key :: "form_field option \<Rightarrow> string" where
  "field_key \<equiv> getter ff_key []"

interpretation fields: seen_loop
  "fields_loop X props" "\<lambda>f. f = None" field_key
  "\<lambda>f. reject_if (field_key f = []) FieldKeyRequired"
  "\<lambda>f. FieldDuplicate (field_key f)"
  "\<lambda>f. case f of None \<Rightarrow> None
       | Some c \<Rightarrow> (case props (ff_key c) of
                      None \<Rightarrow> Some (FieldUndeclared (ff_key c))
                    | Some t \<Rightarrow> chain [check_control t c, check_default X t c])"
  for X props
proof (unfold_locales, goal_cases)
  case (2 seen f fs)
  then show ?case by (cases f) (auto simp: reject_if_def chain_Cons split: option.splits)
qed simp

subsection \<open>Second pass: references\<close>

definition has_reference :: "string set \<Rightarrow> (string \<rightharpoonup> string) \<Rightarrow> string \<Rightarrow> bool" where
  "has_reference seen props key \<longleftrightarrow> (if key \<in> seen then True else props key \<noteq> None)"

definition check_conditions ::
  "(string \<Rightarrow> bool) \<Rightarrow> schema_problem \<Rightarrow> (string \<Rightarrow> schema_problem)
   \<Rightarrow> form_condition option list \<Rightarrow> schema_problem option" where
  "check_conditions known empty_err unknown conds =
     first_err (\<lambda>c. chain
       [reject_if (getter fc_field [] c = []) empty_err,
        reject_if (\<not> known (getter fc_field [] c)) (unknown (getter fc_field [] c))]) conds"

definition check_field_refs :: "(string \<Rightarrow> bool) \<Rightarrow> form_field option \<Rightarrow> schema_problem option" where
  "check_field_refs known field =
     (case field of
        None \<Rightarrow> None
      | Some f \<Rightarrow> chain
          [check_conditions known (FieldCondEmpty (ff_key f)) (FieldCondUnknown (ff_key f)) (ff_show_when f),
           reject_if (ff_exclusive_group_field f \<noteq> [] \<and> \<not> known (ff_exclusive_group_field f))
             (ExclusiveUnknown (ff_key f) (ff_exclusive_group_field f))])"

definition check_section ::
  "string set \<Rightarrow> (string \<Rightarrow> bool) \<Rightarrow> form_section option \<Rightarrow> schema_problem option" where
  "check_section seen known section =
     (case section of
        None \<Rightarrow> None
      | Some s \<Rightarrow> chain
          [first_err (\<lambda>k. reject_if (k \<notin> seen) (SectionFieldUnknown (fs_key s) k)) (fs_field_keys s),
           check_conditions known (SectionCondEmpty (fs_key s)) (SectionCondUnknown (fs_key s)) (fs_show_when s)])"

definition check_form ::
  "ext \<Rightarrow> (string \<rightharpoonup> string) \<Rightarrow> admin_form \<Rightarrow> schema_problem option" where
  "check_form X props form =
     (case fields_loop X props {} (af_fields form) of
        Inl e \<Rightarrow> Some e
      | Inr seen \<Rightarrow> chain
          [first_err (check_field_refs (has_reference seen props)) (af_fields form),
           first_err (check_section seen (has_reference seen props)) (af_sections form)])"

definition validateConfigSchema :: "ext \<Rightarrow> config_schema option \<Rightarrow> (string \<times> schema_problem) option" where
  "validateConfigSchema X schema =
     (case schema of
        None \<Rightarrow> None
      | Some s \<Rightarrow>
          (case sch_admin_form s of
             None \<Rightarrow> None
           | Some form \<Rightarrow>
               map_option (Pair (sch_key s))
                 (case parse_schema (sch_json_schema s) of
                    None \<Rightarrow> Some InvalidJsonSchema
                  | Some doc \<Rightarrow>
                      if js_type doc \<noteq> ''object'' then Some NotObjectSchema
                      else check_form X (js_props doc) form)))"

subsection \<open>The contract\<close>

definition control_ok :: "string \<Rightarrow> form_field \<Rightarrow> bool" where
  "control_ok t f \<longleftrightarrow>
     (ff_control f = CONTROL_MULTI_SELECT \<longrightarrow> t = ''array'')
     \<and> (ff_control f \<in> {CONTROL_SELECT, CONTROL_MULTI_SELECT} \<longrightarrow>
          ff_dynamic_options f \<or> ff_options f \<noteq> [])"

definition default_ok :: "ext \<Rightarrow> string \<Rightarrow> form_field \<Rightarrow> bool" where
  "default_ok X t f \<longleftrightarrow>
     (\<forall>v. ff_default_value f = Some v \<longrightarrow>
        (t = ''boolean'' \<longrightarrow> is_any_bool (as_interface X v))
        \<and> (t \<in> {''integer'', ''number''} \<longrightarrow> is_any_float (as_interface X v))
        \<and> (t = ''string'' \<longrightarrow> is_any_string (as_interface X v)))"

definition conditions_ok :: "(string \<rightharpoonup> string) \<Rightarrow> form_condition option list \<Rightarrow> bool" where
  "conditions_ok props conds \<longleftrightarrow>
     (\<forall>c\<in>set conds. \<exists>d. c = Some d \<and> fc_field d \<noteq> [] \<and> fc_field d \<in> dom props)"

definition field_ok :: "ext \<Rightarrow> (string \<rightharpoonup> string) \<Rightarrow> form_field \<Rightarrow> bool" where
  "field_ok X props f \<longleftrightarrow>
     ff_key f \<noteq> []
     \<and> (\<exists>t. props (ff_key f) = Some t \<and> control_ok t f \<and> default_ok X t f)
     \<and> conditions_ok props (ff_show_when f)
     \<and> (ff_exclusive_group_field f \<noteq> [] \<longrightarrow> ff_exclusive_group_field f \<in> dom props)"

definition section_ok :: "string set \<Rightarrow> (string \<rightharpoonup> string) \<Rightarrow> form_section \<Rightarrow> bool" where
  "section_ok keys props s \<longleftrightarrow> set (fs_field_keys s) \<subseteq> keys \<and> conditions_ok props (fs_show_when s)"

definition form_ok :: "ext \<Rightarrow> (string \<rightharpoonup> string) \<Rightarrow> admin_form \<Rightarrow> bool" where
  "form_ok X props form \<longleftrightarrow>
     (let fields = List.map_filter id (af_fields form) in
        list_all (field_ok X props) fields
        \<and> distinct (map ff_key fields)
        \<and> (\<forall>s. Some s \<in> set (af_sections form) \<longrightarrow> section_ok (ff_key ` set fields) props s))"

definition config_schema_ok :: "ext \<Rightarrow> config_schema option \<Rightarrow> bool" where
  "config_schema_ok X schema \<longleftrightarrow>
     (\<forall>s form. schema = Some s \<longrightarrow> sch_admin_form s = Some form \<longrightarrow>
        (\<exists>doc. parse_schema (sch_json_schema s) = Some doc
             \<and> js_type doc = ''object'' \<and> form_ok X (js_props doc) form))"

subsection \<open>The validator implements the contract\<close>

lemma check_control_iff: "check_control t f = None \<longleftrightarrow> control_ok t f"
  by (auto simp: check_control_def control_ok_def)

lemma check_default_iff: "check_default X t f = None \<longleftrightarrow> default_ok X t f"
  by (auto simp: check_default_def default_ok_def split: option.splits)

lemma check_conditions_iff:
  "check_conditions known e u conds = None \<longleftrightarrow>
     (\<forall>c\<in>set conds. \<exists>d. c = Some d \<and> fc_field d \<noteq> [] \<and> known (fc_field d))"
proof -
  have "chain [reject_if (getter fc_field [] c = []) e,
      reject_if (\<not> known (getter fc_field [] c)) (u (getter fc_field [] c))] = None
      \<longleftrightarrow> (\<exists>d. c = Some d \<and> fc_field d \<noteq> [] \<and> known (fc_field d))" for c
    by (cases c) auto
  note each = this
  show ?thesis by (simp only: check_conditions_def first_err_None each)
qed

lemma has_reference_declared:
  "seen \<subseteq> dom props \<Longrightarrow> has_reference seen props key \<longleftrightarrow> key \<in> dom props"
  by (auto simp: has_reference_def)

lemma Some_mem_map_filter: "Some x \<in> set xs \<longleftrightarrow> x \<in> set (List.map_filter id xs)"
  by (induction xs) (auto simp: List.map_filter_simps split: option.splits)

lemma filter_Some_fields: "map field_key (filter (\<lambda>x. x \<noteq> None) fs) = map ff_key (List.map_filter id fs)"
  by (induction fs) (auto simp: List.map_filter_simps split: option.splits)

lemma field_keys_image:
  "field_key ` {x \<in> set fs. x \<noteq> None} = ff_key ` set (List.map_filter id fs)"
proof -
  have "{x \<in> set fs. x \<noteq> None} = Some ` set (List.map_filter id fs)"
    by (auto simp: Some_mem_map_filter [symmetric] image_iff)
  then show ?thesis by (simp add: image_image)
qed

lemma fields_loop_iff:
  "fields_loop X props {} fs = Inr seen \<longleftrightarrow>
     (\<forall>f\<in>set (List.map_filter id fs). ff_key f \<noteq> []
        \<and> (\<exists>t. props (ff_key f) = Some t \<and> control_ok t f \<and> default_ok X t f))
     \<and> distinct (map ff_key (List.map_filter id fs))
     \<and> seen = ff_key ` set (List.map_filter id fs)"
proof -
  have each: "(\<forall>x\<in>set fs. x \<noteq> None \<longrightarrow> P x) \<longleftrightarrow> (\<forall>f\<in>set (List.map_filter id fs). P (Some f))" for P
    by (auto simp: Some_mem_map_filter [symmetric])
  show ?thesis
    unfolding fields.loop_Inr each filter_Some_fields field_keys_image
    by (auto simp: check_control_iff check_default_iff split: option.splits)
qed

lemma check_form_iff: "check_form X props form = None \<longleftrightarrow> form_ok X props form"
proof (cases "fields_loop X props {} (af_fields form)")
  case (Inl e)
  then have "\<nexists>seen. fields_loop X props {} (af_fields form) = Inr seen" by simp
  then have "\<not> form_ok X props form"
    unfolding fields_loop_iff form_ok_def Let_def list_all_iff field_ok_def by blast
  with Inl show ?thesis by (simp add: check_form_def)
next
  case (Inr seen)
  let ?fields = "List.map_filter id (af_fields form)"
  note first = Inr [unfolded fields_loop_iff]
  then have seen: "ff_key ` set ?fields = seen" and "seen \<subseteq> dom props" by auto
  note known = has_reference_declared [OF this(2)]
  have refs: "check_field_refs (has_reference seen props) x = None \<longleftrightarrow>
      (\<forall>f. x = Some f \<longrightarrow> conditions_ok props (ff_show_when f)
        \<and> (ff_exclusive_group_field f \<noteq> [] \<longrightarrow> ff_exclusive_group_field f \<in> dom props))" for x
    by (cases x) (auto simp: check_field_refs_def check_conditions_iff conditions_ok_def known)
  have sections: "check_section seen (has_reference seen props) x = None \<longleftrightarrow>
      (\<forall>s. x = Some s \<longrightarrow> section_ok seen props s)" for x
    by (cases x)
      (auto simp: check_section_def check_conditions_iff conditions_ok_def section_ok_def known)
  have "check_form X props form = None \<longleftrightarrow>
      (\<forall>f\<in>set ?fields. conditions_ok props (ff_show_when f)
        \<and> (ff_exclusive_group_field f \<noteq> [] \<longrightarrow> ff_exclusive_group_field f \<in> dom props))
      \<and> (\<forall>s. Some s \<in> set (af_sections form) \<longrightarrow> section_ok seen props s)"
    unfolding check_form_def Inr sum.case chain_Cons_None first_err_None refs sections
    by (auto simp: Some_mem_map_filter [symmetric])
  then show ?thesis
    using first unfolding form_ok_def Let_def list_all_iff field_ok_def seen by blast
qed

interpretation config_schema: checker "validateConfigSchema X" "config_schema_ok X" for X
  by unfold_locales
    (auto simp: validateConfigSchema_def config_schema_ok_def check_form_iff split: option.splits)

subsection \<open>Schemas that do not fit the decoded struct\<close>

text \<open>
  A property whose schema is neither null nor an object, or has a \<open>type\<close> that is neither null nor a string. JSON Schema
  allows \<open>true\<close> and a list of types in these places.
\<close>

definition unfit_property :: "json \<Rightarrow> bool" where
  "unfit_property v \<longleftrightarrow>
     (case v of
        JNull \<Rightarrow> False
      | JObj kvs \<Rightarrow> (\<exists>(k, t)\<in>set kvs. field_match ''type'' k \<and> set_string [] t = None)
      | _ \<Rightarrow> True)"

lemma set_members_None:
  "(k, t) \<in> set kvs \<Longrightarrow> field_match name k \<Longrightarrow> set_string [] t = None \<Longrightarrow> set_members name cur kvs = None"
proof (induction kvs arbitrary: cur)
  case (Cons m kvs)
  have "set_string cur t = None" using Cons.prems(3) by (simp add: set_string_def split: json.splits)
  with Cons show ?case by (cases m) (auto split: option.splits)
qed simp

lemma unfit_property_None: "unfit_property v \<Longrightarrow> unmarshal_string_struct ''type'' v = None"
  by (auto simp: unfit_property_def unmarshal_string_struct_def set_members_None split: json.splits)

lemma set_properties_None: "(k, v) \<in> set kvs \<Longrightarrow> unfit_property v \<Longrightarrow> set_properties m kvs = None"
  by (induction m kvs rule: set_properties.induct) (auto simp: unfit_property_None split: option.splits)

lemma schema_members_None:
  assumes "(name, JObj ps) \<in> set kvs" and "field_match ''properties'' name" and "\<not> field_match ''type'' name"
    and "(k, v) \<in> set ps" and "unfit_property v"
  shows "schema_members doc kvs = None"
  using assms(1)
proof (induction kvs arbitrary: doc)
  case (Cons m kvs)
  show ?case
  proof (cases "m = (name, JObj ps)")
    case True
    with assms(2-5) show ?thesis by (simp add: assign_properties_def set_properties_None)
  next
    case False
    with Cons show ?thesis by (cases m) (auto split: option.splits)
  qed
qed simp

theorem unfit_property_rejected:
  assumes "json_parse (sch_json_schema s) = Some (JObj kvs)" and "(''properties'', JObj ps) \<in> set kvs"
    and "(k, v) \<in> set ps" and "unfit_property v"
  shows "validateConfigSchema X (Some s) =
    map_option (\<lambda>_. (sch_key s, InvalidJsonSchema)) (sch_admin_form s)"
proof -
  have "ascii ''properties''" "ascii ''type''" by (simp_all add: ascii_def byte_def)
  then have "field_match ''properties'' ''properties''" and "\<not> field_match ''type'' ''properties''"
    by (simp_all add: field_match_def equal_fold_def runes_ascii)
  with schema_members_None [OF assms(2) this assms(3,4)] have "parse_schema (sch_json_schema s) = None"
    by (simp add: parse_schema_def assms(1))
  then show ?thesis by (simp add: validateConfigSchema_def split: option.split)
qed

text \<open>The schema \<open>{"properties":{"n":true}}\<close>.\<close>

lemma unfit_property_rejected_witness:
  fixes s :: config_schema
  assumes "sch_json_schema s = ''{\"properties\":{\"n\":true}}''"
  shows "validateConfigSchema X (Some s) = map_option (\<lambda>_. (sch_key s, InvalidJsonSchema)) (sch_admin_form s)"
proof (rule unfit_property_rejected)
  have "json_parse ''{\"properties\":{\"n\":true}}'' = Some (JObj [(''properties'', JObj [(''n'', JBool True)])])"
    by code_simp
  then show "json_parse (sch_json_schema s) = Some (JObj [(''properties'', JObj [(''n'', JBool True)])])"
    by (simp add: assms)
  show "(''n'', JBool True) \<in> set [(''n'', JBool True)]" by simp
  show "unfit_property (JBool True)" by (simp add: unfit_property_def)
qed simp

end
