(* ===== verification/Manifest.thy ===== *)
theory Manifest
  imports Watch_Sync Auth_Modes Presentation Admin_Form
begin

text \<open>
  \<open>manifest.go\<close>'s exported operations and \<open>checksum.go\<close>: \<open>Validate\<close> composed from
  the component checks, the loaders, the catalog contract and the registration helpers.
  A capability element that is a nil pointer makes \<open>Validate\<close> panic (\<open>capability.Type\<close>);
  every other nil is read through a getter. \<open>manifest_ok\<close> is the contract of an accepted
  manifest. The protobuf decoder, the file system, the executable path and SHA-256 are fields
  of \<open>platform\<close>.
\<close>

subsection \<open>Validate\<close>

definition knownCapabilityTypeSet :: "string set" where
  "knownCapabilityTypeSet = fold insert KnownTypes {}"

lemma knownCapabilityTypeSet [simp]: "typ \<in> knownCapabilityTypeSet \<longleftrightarrow> typ \<in> set KnownTypes"
  by (simp add: knownCapabilityTypeSet_def union_set_fold [of KnownTypes "{}", symmetric])

definition about :: "string \<Rightarrow> cap_problem option \<Rightarrow> manifest_error option" where
  "about cid problem = map_option (CapabilityError cid) problem"

definition config_error :: "(string \<times> schema_problem) option \<Rightarrow> manifest_error option" where
  "config_error e = map_option (\<lambda>(key, p). ConfigError key p) e"

lemma about_None [simp]: "about cid p = None \<longleftrightarrow> p = None"
  by (simp add: about_def)

lemma config_error_None [simp]: "config_error e = None \<longleftrightarrow> e = None"
  by (simp add: config_error_def)

definition check_capability :: "ext \<Rightarrow> capability_descriptor \<Rightarrow> manifest_error option" where
  "check_capability X c = chain
     [reject_if (cd_type c = []) CapTypeRequired,
      reject_if (cd_id c = []) CapIdRequired,
      reject_if (cd_type c \<notin> knownCapabilityTypeSet) (CapabilityError (cd_id c) (UnknownType (cd_type c))),
      about (cd_id c) (validateWatchSyncCapability X (Some c)),
      about (cd_id c) (validateNetworkAccessCapability (Some c)),
      about (cd_id c) (validateRequestRouterCapability (Some c)),
      about (cd_id c) (validateAuthProviderCapability (Some c))]"

fun check_capabilities :: "ext \<Rightarrow> capability_descriptor option list \<Rightarrow> manifest_error verdict" where
  "check_capabilities X [] = Accept"
| "check_capabilities X (None # cs) = Panics"
| "check_capabilities X (Some c # cs) =
     and_then (verdict_of (check_capability X c)) (check_capabilities X cs)"

definition check_capability_config :: "ext \<Rightarrow> capability_descriptor option \<Rightarrow> manifest_error option" where
  "check_capability_config X c =
     first_err (\<lambda>s. map_option (\<lambda>(key, p). CapConfigError (GetId c) key p) (validateConfigSchema X s))
       (getter cd_config_schema [] c)"

definition Validate :: "ext \<Rightarrow> plugin_manifest option \<Rightarrow> manifest_error verdict" where
  "Validate X manifest =
     (case manifest of
        None \<Rightarrow> Reject ManifestRequired
      | Some m \<Rightarrow>
          and_then (verdict_of (chain
            [reject_if (pm_plugin_id m = []) PluginIdRequired,
             reject_if (pm_version m = []) VersionRequired,
             map_option (\<lambda>(f, p). PresentationError f p) (validatePresentation X (pm_presentation m))]))
          (and_then (check_capabilities X (pm_capabilities m))
          (verdict_of (chain
            [validateNetworkAuthPairing (GetCapabilities manifest),
             first_err (\<lambda>s. config_error (validateConfigSchema X s)) (pm_global_config_schema m),
             first_err (\<lambda>s. config_error (validateConfigSchema X s)) (pm_user_config_schema m),
             first_err (check_capability_config X) (GetCapabilities manifest)]))))"

subsection \<open>The contract of an accepted manifest\<close>

definition capability_ok :: "ext \<Rightarrow> capability_descriptor \<Rightarrow> bool" where
  "capability_ok X c \<longleftrightarrow>
     cd_type c \<noteq> [] \<and> cd_id c \<noteq> [] \<and> cd_type c \<in> set KnownTypes
     \<and> watch_sync_capability_ok X (Some c) \<and> network_capability_ok (Some c)
     \<and> router_capability_ok (Some c) \<and> auth_capability_ok (Some c)"

definition header_ok :: "ext \<Rightarrow> plugin_manifest \<Rightarrow> bool" where
  "header_ok X m \<longleftrightarrow>
     pm_plugin_id m \<noteq> [] \<and> pm_version m \<noteq> [] \<and> pred_option (presentation_ok X) (pm_presentation m)"

definition manifest_ok :: "ext \<Rightarrow> plugin_manifest \<Rightarrow> bool" where
  "manifest_ok X m \<longleftrightarrow>
     header_ok X m
     \<and> (\<forall>d\<in>set (pm_capabilities m). \<exists>c. d = Some c \<and> capability_ok X c
          \<and> list_all (config_schema_ok X) (cd_config_schema c))
     \<and> pairing_ok (pm_capabilities m)
     \<and> list_all (config_schema_ok X) (pm_global_config_schema m)
     \<and> list_all (config_schema_ok X) (pm_user_config_schema m)"

subsection \<open>Validate implements it\<close>

lemma Validate_Some:
  "Validate X (Some m) =
     and_then (verdict_of (chain
       [reject_if (pm_plugin_id m = []) PluginIdRequired,
        reject_if (pm_version m = []) VersionRequired,
        map_option (\<lambda>(f, p). PresentationError f p) (validatePresentation X (pm_presentation m))]))
     (and_then (check_capabilities X (pm_capabilities m))
     (verdict_of (chain
       [validateNetworkAuthPairing (pm_capabilities m),
        first_err (\<lambda>s. config_error (validateConfigSchema X s)) (pm_global_config_schema m),
        first_err (\<lambda>s. config_error (validateConfigSchema X s)) (pm_user_config_schema m),
        first_err (check_capability_config X) (pm_capabilities m)])))"
  by (simp add: Validate_def)

lemma check_capability_iff [accept_iff]: "check_capability X c = None \<longleftrightarrow> capability_ok X c"
  unfolding check_capability_def capability_ok_def
  by (simp add: watch_sync.check_None network_access.check_None router.check_None auth.check_None)

lemma check_capability_config_iff [accept_iff]:
  "check_capability_config X (Some c) = None \<longleftrightarrow> list_all (config_schema_ok X) (cd_config_schema c)"
  by (simp add: check_capability_config_def config_schema.check_None list_all_iff)

lemma check_capabilities_Accept [accept_iff]:
  "check_capabilities X ds = Accept \<longleftrightarrow> (\<forall>d\<in>set ds. \<exists>c. d = Some c \<and> capability_ok X c)"
  by (induction X ds rule: check_capabilities.induct) (simp_all add: check_capability_iff)

lemma check_capabilities_prefix:
  "list_all (capability_ok X) cs \<Longrightarrow> check_capabilities X (map Some cs @ ds) = check_capabilities X ds"
  by (induction cs) (simp_all add: check_capability_iff [symmetric])

text \<open>Which error a capability that is not well formed gets, by the first of its own checks.\<close>

lemma check_capability_names:
  assumes "check_capability X c = Some e"
  shows "(cd_type c = [] \<and> e = CapTypeRequired)
    \<or> (cd_type c \<noteq> [] \<and> cd_id c = [] \<and> e = CapIdRequired)
    \<or> (cd_type c \<noteq> [] \<and> cd_id c \<noteq> [] \<and> (\<exists>p. e = CapabilityError (cd_id c) p))"
  using assms by (auto simp: check_capability_def chain_Cons_Some about_def)

lemma check_capabilities_Panics:
  "check_capabilities X ds = Panics \<longleftrightarrow>
     (\<exists>cs rest. ds = map Some cs @ None # rest \<and> list_all (capability_ok X) cs)"
proof (induction X ds rule: check_capabilities.induct)
  case (2 X ds)
  then show ?case by (auto intro: exI [of _ "[]"])
next
  case (3 X c ds)
  have "(\<exists>cs rest. Some c # ds = map Some cs @ None # rest \<and> list_all (capability_ok X) cs)
      \<longleftrightarrow> capability_ok X c \<and> (\<exists>cs rest. ds = map Some cs @ None # rest \<and> list_all (capability_ok X) cs)"
    (is "?l \<longleftrightarrow> ?r")
  proof
    assume ?l
    then obtain cs rest where "Some c # ds = map Some cs @ None # rest" "list_all (capability_ok X) cs"
      by blast
    then show ?r by (cases cs) auto
  next
    assume ?r
    then obtain cs rest where "capability_ok X c" "ds = map Some cs @ None # rest"
      "list_all (capability_ok X) cs" by blast
    then show ?l by (intro exI [of _ "c # cs"] exI [of _ rest]) simp
  qed
  then show ?case using 3 by (simp add: check_capability_iff)
qed simp

lemma header_iff [accept_iff]:
  "verdict_of (chain
     [reject_if (pm_plugin_id m = []) PluginIdRequired,
      reject_if (pm_version m = []) VersionRequired,
      map_option (\<lambda>(f, p). PresentationError f p) (validatePresentation X (pm_presentation m))]) = Accept
   \<longleftrightarrow> header_ok X m"
  by (simp add: header_ok_def validatePresentation_iff)

lemma Validate_Accept [accept_iff]: "Validate X (Some m) = Accept \<longleftrightarrow> manifest_ok X m"
proof -
  have caps: "(\<forall>d\<in>set ds. \<exists>c. d = Some c \<and> capability_ok X c) \<and> (\<forall>d\<in>set ds. check_capability_config X d = None)
      \<longleftrightarrow> (\<forall>d\<in>set ds. \<exists>c. d = Some c \<and> capability_ok X c \<and> list_all (config_schema_ok X) (cd_config_schema c))"
    for ds
    using check_capability_config_iff by metis
  show ?thesis
    unfolding Validate_Some and_then_iff header_iff check_capabilities_Accept manifest_ok_def caps [symmetric]
    by (auto simp: config_schema.check_None pairing.check_None list_all_iff)
qed

lemma Validate_None [simp]: "Validate X None = Reject ManifestRequired"
  by (simp add: Validate_def)

lemma Validate_Accept_iff: "Validate X manifest = Accept \<longleftrightarrow> (\<exists>m. manifest = Some m \<and> manifest_ok X m)"
  by (cases manifest) (simp_all add: Validate_Accept)

lemma Validate_Panics_iff:
  "Validate X (Some m) = Panics \<longleftrightarrow>
     header_ok X m \<and> (\<exists>cs rest. pm_capabilities m = map Some cs @ None # rest \<and> list_all (capability_ok X) cs)"
  unfolding Validate_Some and_then_iff header_iff check_capabilities_Panics by simp

text \<open>Routes, assets and the checksum are not part of what is validated.\<close>

lemma Validate_other_fields:
  "Validate X (Some (m\<lparr>pm_http_routes := rs\<rparr>)) = Validate X (Some m)"
  "Validate X (Some (m\<lparr>pm_assets := as\<rparr>)) = Validate X (Some m)"
  "Validate X (Some (m\<lparr>pm_checksum := cs\<rparr>)) = Validate X (Some m)"
  "Validate X (Some (m\<lparr>pm_supported_platforms := ps\<rparr>)) = Validate X (Some m)"
  by (simp_all add: Validate_def)

subsection \<open>ValidateCatalogPresentation\<close>

definition required_fields :: "plugin_presentation \<Rightarrow> (string \<times> string) list" where
  "required_fields p =
     [(''display_name'', pr_display_name p), (''summary'', pr_summary p),
      (''description_markdown'', pr_description_markdown p), (''setup_markdown'', pr_setup_markdown p),
      (''homepage_url'', pr_homepage_url p), (''source_url'', pr_source_url p),
      (''support_url'', pr_support_url p), (''changelog_url'', pr_changelog_url p),
      (''publisher_name'', pr_publisher_name p), (''publisher_url'', pr_publisher_url p),
      (''license_spdx'', pr_license_spdx p)]"

definition ValidateCatalogPresentation ::
  "ext \<Rightarrow> (rune \<Rightarrow> rune) \<Rightarrow> plugin_manifest option \<Rightarrow> string \<Rightarrow> manifest_error verdict" where
  "ValidateCatalogPresentation X canon manifest expectedSourceURL =
     and_then (Validate X manifest) (verdict_of
       (case getter pm_presentation None manifest of
          None \<Rightarrow> Some CatalogPresentationMissing
        | Some p \<Rightarrow> chain
            [first_err (\<lambda>(name, value). reject_if (trim_space value = []) (CatalogFieldMissing name))
               (required_fields p),
             reject_if (expectedSourceURL \<noteq> [] \<and> \<not> equalCanonicalURL canon (pr_source_url p) expectedSourceURL)
               (CatalogSourceMismatch (pr_source_url p) expectedSourceURL)]))"

lemma catalog_accept:
  "ValidateCatalogPresentation X canon (Some m) expected = Accept \<longleftrightarrow>
     manifest_ok X m
     \<and> (\<exists>p. pm_presentation m = Some p
          \<and> (\<forall>(name, v)\<in>set (required_fields p). trim_space v \<noteq> [])
          \<and> (expected \<noteq> [] \<longrightarrow> equalCanonicalURL canon (pr_source_url p) expected))"
  by (auto simp: ValidateCatalogPresentation_def Validate_Accept split: option.splits
      simp del: first_err.simps)

subsection \<open>Loading\<close>

record platform =
  protojson :: "string \<Rightarrow> plugin_manifest option"
  read_file :: "string \<Rightarrow> string option"
  executable :: "string option"
  sha256 :: "string \<Rightarrow> string"

datatype load_error =
    DecodeManifest
  | InvalidManifest manifest_error
  | ReadManifest string
  | ResolveExecutable
  | ReadExecutable string

datatype 'a outcome = Returned 'a | Failed load_error | Panicked

definition decode :: "platform \<Rightarrow> string \<Rightarrow> load_error + plugin_manifest" where
  "decode P data = (case protojson P data of None \<Rightarrow> Inl DecodeManifest | Some m \<Rightarrow> Inr m)"

definition validated :: "ext \<Rightarrow> plugin_manifest \<Rightarrow> plugin_manifest outcome" where
  "validated X m =
     (case Validate X (Some m) of
        Accept \<Rightarrow> Returned m
      | Reject e \<Rightarrow> Failed (InvalidManifest e)
      | Panics \<Rightarrow> Panicked)"

definition Load :: "ext \<Rightarrow> platform \<Rightarrow> string \<Rightarrow> plugin_manifest outcome" where
  "Load X P data = (case decode P data of Inl e \<Rightarrow> Failed e | Inr m \<Rightarrow> validated X m)"

text \<open>\<open>None\<close> is a panic.\<close>

definition MustLoad :: "ext \<Rightarrow> platform \<Rightarrow> string \<Rightarrow> plugin_manifest option" where
  "MustLoad X P data = (case Load X P data of Returned m \<Rightarrow> Some m | _ \<Rightarrow> None)"

definition LoadFromDisk :: "ext \<Rightarrow> platform \<Rightarrow> string \<Rightarrow> plugin_manifest outcome" where
  "LoadFromDisk X P path =
     (case read_file P path of None \<Rightarrow> Failed (ReadManifest path) | Some data \<Rightarrow> Load X P data)"

definition hex_digit :: "nat \<Rightarrow> char" where
  "hex_digit n = (if n < 10 then char_of (48 + n) else char_of (87 + n))"

definition hex_encode :: "string \<Rightarrow> string" where
  "hex_encode s = concat (map (\<lambda>c. [hex_digit (byte c div 16), hex_digit (byte c mod 16)]) s)"

definition LoadWithChecksum :: "ext \<Rightarrow> platform \<Rightarrow> string \<Rightarrow> string \<Rightarrow> plugin_manifest outcome" where
  "LoadWithChecksum X P embedded version =
     (case decode P embedded of
        Inl e \<Rightarrow> Failed e
      | Inr m0 \<Rightarrow>
          (let m = (if version \<noteq> [] then m0\<lparr>pm_version := version\<rparr> else m0) in
           case validated X m of
             Failed e \<Rightarrow> Failed e
           | Panicked \<Rightarrow> Panicked
           | Returned _ \<Rightarrow>
               (case executable P of
                  None \<Rightarrow> Failed ResolveExecutable
                | Some exe \<Rightarrow>
                    (case read_file P exe of
                       None \<Rightarrow> Failed (ReadExecutable exe)
                     | Some data \<Rightarrow> Returned (m\<lparr>pm_checksum := hex_encode (sha256 P data)\<rparr>)))))"

lemma validated_Returned: "validated X m = Returned m' \<longleftrightarrow> m' = m \<and> manifest_ok X m"
  by (auto simp: validated_def Validate_Accept [symmetric] split: verdict.splits)

lemma Load_Returned: "Load X P data = Returned m \<longleftrightarrow> protojson P data = Some m \<and> manifest_ok X m"
  by (auto simp: Load_def decode_def validated_Returned split: option.splits)

text \<open>\<open>protojson\<close> refuses a null element of a repeated message field, so it never yields one.\<close>

definition decodes_no_nil :: "platform \<Rightarrow> bool" where
  "decodes_no_nil P \<longleftrightarrow> (\<forall>data m. protojson P data = Some m \<longrightarrow> None \<notin> set (pm_capabilities m))"

lemma validated_no_panic: "None \<notin> set (pm_capabilities m) \<Longrightarrow> validated X m \<noteq> Panicked"
  by (auto simp: validated_def Validate_Panics_iff split: verdict.splits)

lemma decode_no_panic:
  assumes "decodes_no_nil P"
  shows "Load X P data \<noteq> Panicked" and "LoadWithChecksum X P data version \<noteq> Panicked"
proof -
  have nil: "None \<notin> set (pm_capabilities m)" if "decode P data = Inr m" for m
    using assms that by (auto simp: decodes_no_nil_def decode_def split: option.splits)
  then show "Load X P data \<noteq> Panicked"
    by (auto simp: Load_def validated_no_panic split: sum.splits)
  have "validated X (m\<lparr>pm_version := v\<rparr>) \<noteq> Panicked" "validated X m \<noteq> Panicked"
    if "decode P data = Inr m" for m v
    using nil [OF that] by (simp_all add: validated_no_panic)
  then show "LoadWithChecksum X P data version \<noteq> Panicked"
    by (auto simp: LoadWithChecksum_def Let_def split: sum.splits option.splits outcome.splits)
qed

lemma hex_digit_chars: "n < 16 \<Longrightarrow> hex_digit n \<in> set ''0123456789abcdef''"
proof -
  have "list_all (\<lambda>n. hex_digit n \<in> set ''0123456789abcdef'') [0..<16]" by code_simp
  then show "n < 16 \<Longrightarrow> hex_digit n \<in> set ''0123456789abcdef''"
    by (simp add: list_all_iff del: upt_rec_numeral)
qed

lemma set_pairs_subset:
  "(\<And>c. f c \<in> A) \<Longrightarrow> (\<And>c. g c \<in> A) \<Longrightarrow> set (concat (map (\<lambda>c. [f c, g c]) s)) \<subseteq> A"
  by auto

lemma hex_encode_shape:
  "length (hex_encode s) = 2 * length s" "set (hex_encode s) \<subseteq> set ''0123456789abcdef''"
proof -
  have "byte c div 16 < 16" for c :: char using byte_less [of c] by linarith
  then have "hex_digit (byte c div 16) \<in> set ''0123456789abcdef''"
    and "hex_digit (byte c mod 16) \<in> set ''0123456789abcdef''" for c
    by (simp_all only: hex_digit_chars mod_less_divisor zero_less_numeral)
  then show "set (hex_encode s) \<subseteq> set ''0123456789abcdef''"
    unfolding hex_encode_def by (rule set_pairs_subset)
  show "length (hex_encode s) = 2 * length s"
    by (induction s) (simp_all add: hex_encode_def)
qed

lemma LoadWithChecksum_Returned:
  "LoadWithChecksum X P embedded version = Returned m \<longleftrightarrow>
     (\<exists>m0 exe data.
        protojson P embedded = Some m0 \<and> executable P = Some exe \<and> read_file P exe = Some data
        \<and> m = m0\<lparr>pm_version := (if version \<noteq> [] then version else pm_version m0),
                 pm_checksum := hex_encode (sha256 P data)\<rparr>
        \<and> manifest_ok X m)"
proof -
  have ck: "manifest_ok X (m\<lparr>pm_checksum := s\<rparr>) = manifest_ok X m" for m s
    by (simp add: Validate_Accept [symmetric] Validate_other_fields)
  have version: "(if version \<noteq> [] then m0\<lparr>pm_version := version\<rparr> else m0)
      = m0\<lparr>pm_version := if version \<noteq> [] then version else pm_version m0\<rparr>" for m0 :: plugin_manifest
    by simp
  have step: "(case validated X m1 of Failed e \<Rightarrow> Failed e | Panicked \<Rightarrow> Panicked | Returned _ \<Rightarrow> r) = Returned m
      \<longleftrightarrow> manifest_ok X m1 \<and> r = Returned m" for m1 r
  proof (cases "validated X m1")
    case (Returned m2)
    then have "manifest_ok X m1" by (simp add: validated_Returned)
    with Returned show ?thesis by simp
  qed (auto simp: validated_def Validate_Accept [symmetric])
  show ?thesis
    unfolding LoadWithChecksum_def decode_def version Let_def
    by (cases "protojson P embedded"; cases "executable P")
      (auto simp: step ck split: option.splits)
qed

subsection \<open>Registration helpers\<close>

definition RegisterHTTPRoutes ::
  "ext \<Rightarrow> plugin_manifest option \<Rightarrow> http_route option list \<Rightarrow> plugin_manifest option \<times> manifest_error verdict"
where
  "RegisterHTTPRoutes X manifest routes =
     (case Validate X manifest of
        Accept \<Rightarrow> (map_option (\<lambda>m. m\<lparr>pm_http_routes := pm_http_routes m @ routes\<rparr>) manifest, Accept)
      | v \<Rightarrow> (manifest, v))"

definition RegisterAssets ::
  "ext \<Rightarrow> plugin_manifest option \<Rightarrow> packaged_asset option list \<Rightarrow> plugin_manifest option \<times> manifest_error verdict"
where
  "RegisterAssets X manifest assets =
     (case Validate X manifest of
        Accept \<Rightarrow> (map_option (\<lambda>m. m\<lparr>pm_assets := pm_assets m @ assets\<rparr>) manifest, Accept)
      | v \<Rightarrow> (manifest, v))"

text \<open>\<open>stat\<close> is \<open>fs.Stat\<close> on the given file system: whether it succeeds.\<close>

definition Asset :: "(string \<Rightarrow> bool) \<Rightarrow> string \<Rightarrow> string + packaged_asset" where
  "Asset stat path =
     (if stat path then Inr \<lparr>pa_path = path, pa_content_type = [], pa_integrity = []\<rparr> else Inl path)"

end
