(* ===== verification/Host_Broker.thy ===== *)
theory Host_Broker
  imports Prelude
begin

text \<open>
  \<open>pluginHostState\<close> of \<open>pkg/pluginsdk/runtime/runtime.go\<close>: the process-wide singleton that
  holds the go-plugin broker, the stream the host assigned and the cached RuntimeHost client.
  A call of a method is one atomic step (\<open>host_step\<close>): every method runs under the mutex, and
  \<open>Host_Goroutines\<close> proves that concurrent handlers, statement by statement, are a sequence of such
  steps. What a dial returns is chosen by the environment: \<open>dial b i\<close>
  is the result of \<open>broker.Dial\<close> at the time of the step. The log of a step lists the dials
  it made. \<open>track\<close> is the specification: a binding starts with \<open>setBroker\<close> or
  \<open>setBrokerID\<close>, and the client is the one successful dial of the current binding.
\<close>

type_synonym uint32 = "32 word"
type_synonym broker = nat
type_synonym conn = nat

record host_state =
  hs_broker :: "broker option"
  hs_brokerID :: uint32
  hs_client :: "conn option"

type_synonym dialer = "broker \<Rightarrow> uint32 \<Rightarrow> conn option"
type_synonym attempt = "broker \<times> uint32 \<times> conn option"

definition pluginHost :: host_state where
  "pluginHost = \<lparr>hs_broker = None, hs_brokerID = 0, hs_client = None\<rparr>"

definition setBroker :: "broker option \<Rightarrow> host_state \<Rightarrow> host_state" where
  "setBroker b s = s\<lparr>hs_broker := b, hs_brokerID := 0, hs_client := None\<rparr>"

definition dialLocked :: "dialer \<Rightarrow> host_state \<Rightarrow> attempt list \<times> host_state" where
  "dialLocked dial s =
     (if hs_client s \<noteq> None \<or> hs_broker s = None \<or> hs_brokerID s = 0 then ([], s)
      else let b = the (hs_broker s); r = dial b (hs_brokerID s) in
           ([(b, hs_brokerID s, r)],
            case r of None \<Rightarrow> s | Some c \<Rightarrow> s\<lparr>hs_client := Some c\<rparr>))"

definition setBrokerID :: "dialer \<Rightarrow> uint32 \<Rightarrow> host_state \<Rightarrow> attempt list \<times> host_state" where
  "setBrokerID dial i s = dialLocked dial (s\<lparr>hs_brokerID := i, hs_client := None\<rparr>)"

definition host :: "dialer \<Rightarrow> host_state \<Rightarrow> conn option \<times> attempt list \<times> host_state" where
  "host dial s = (let (log, t) = dialLocked dial s in (hs_client t, log, t))"

text \<open>The package functions over the singleton.\<close>

definition SetHostBrokerID :: "dialer \<Rightarrow> uint32 \<Rightarrow> host_state \<Rightarrow> attempt list \<times> host_state" where
  "SetHostBrokerID dial i s = setBrokerID dial i s"

definition Host :: "dialer \<Rightarrow> host_state \<Rightarrow> conn option \<times> attempt list \<times> host_state" where
  "Host dial s = host dial s"

subsection \<open>Steps of the singleton\<close>

datatype host_event =
    SetBroker "broker option"
  | SetBrokerID uint32 "attempt list"
  | HostCall "attempt list" "conn option"

inductive host_step :: "host_state \<Rightarrow> host_event \<Rightarrow> host_state \<Rightarrow> bool" where
  "host_step s (SetBroker b) (setBroker b s)"
| "setBrokerID dial i s = (log, t) \<Longrightarrow> host_step s (SetBrokerID i log) t"
| "host dial s = (r, log, t) \<Longrightarrow> host_step s (HostCall log r) t"

inductive_cases SetBrokerE: "host_step s (SetBroker b) t"
inductive_cases SetBrokerIDE: "host_step s (SetBrokerID i log) t"
inductive_cases HostCallE: "host_step s (HostCall log r) t"
lemmas host_step_cases = SetBrokerE SetBrokerIDE HostCallE

inductive_simps host_step_call: "host_step s (HostCall log r) t"

definition successes :: "attempt list \<Rightarrow> conn list" where
  "successes log = List.map_filter (\<lambda>(b, i, r). r) log"

lemma successes_simps [simp]:
  "successes [] = []"
  "successes ((b, i, None) # log) = successes log"
  "successes ((b, i, Some c) # log) = c # successes log"
  by (simp_all add: successes_def List.map_filter_simps)

lemma successes_append [simp]: "successes (xs @ ys) = successes xs @ successes ys"
  by (simp add: successes_def List.map_filter_def)

text \<open>
  The specification. It sees only the calls and the results of the dials, and keeps the
  broker and stream of the current binding and every connection dialed for it.
\<close>

fun track :: "broker option \<times> uint32 \<times> conn list \<Rightarrow> host_event \<Rightarrow> broker option \<times> uint32 \<times> conn list" where
  "track (b, i, cs) (SetBroker b') = (b', 0, [])"
| "track (b, i, cs) (SetBrokerID i' log) = (b, i', successes log)"
| "track (b, i, cs) (HostCall log r) = (b, i, cs @ successes log)"

definition binding_of :: "host_event list \<Rightarrow> broker option \<times> uint32 \<times> conn list" where
  "binding_of tr = foldl track (None, 0, []) tr"

fun event_log :: "host_event \<Rightarrow> attempt list" where
  "event_log (SetBroker b) = []"
| "event_log (SetBrokerID i log) = log"
| "event_log (HostCall log r) = log"

lemma binding_of_simps [simp]:
  "binding_of [] = (None, 0, [])"
  "binding_of (tr @ [e]) = track (binding_of tr) e"
  by (simp_all add: binding_of_def)

definition view :: "host_state \<Rightarrow> broker option \<times> uint32 \<times> conn list" where
  "view s = (hs_broker s, hs_brokerID s, case hs_client s of None \<Rightarrow> [] | Some c \<Rightarrow> [c])"

definition host_inv :: "host_event list \<Rightarrow> host_state \<Rightarrow> bool" where
  "host_inv tr s \<longleftrightarrow>
     binding_of tr = view s
     \<and> (hs_client s \<noteq> None \<longrightarrow> hs_broker s \<noteq> None \<and> hs_brokerID s \<noteq> 0)"

lemma dialLocked_view:
  assumes "dialLocked dial s = (log, t)"
  shows "view t = (hs_broker s, hs_brokerID s, snd (snd (view s)) @ successes log)"
    and "hs_client t \<noteq> None \<Longrightarrow> hs_client s = None \<Longrightarrow> hs_broker t \<noteq> None \<and> hs_brokerID t \<noteq> 0"
    and "hs_client s \<noteq> None \<Longrightarrow> t = s \<and> log = []"
    and "\<forall>(b, i, r)\<in>set log. hs_broker t = Some b \<and> hs_brokerID t = i \<and> i \<noteq> 0"
  using assms
  by (auto simp: dialLocked_def view_def Let_def split: if_splits option.splits)

interpretation host: safe_system host_step pluginHost host_inv
proof
  show "host_inv [] pluginHost"
    by (simp add: host_inv_def view_def pluginHost_def)
next
  fix tr s e t
  assume inv: "host_inv tr s" and step: "host_step s e t"
  show "host_inv (tr @ [e]) t"
  proof (cases e)
    case (SetBroker b)
    with inv step show ?thesis
      by (auto simp: host_inv_def view_def setBroker_def elim!: host_step_cases)
  next
    case (SetBrokerID i log)
    with step obtain dial where d: "dialLocked dial (s\<lparr>hs_brokerID := i, hs_client := None\<rparr>) = (log, t)"
      by (auto simp: setBrokerID_def elim!: host_step_cases)
    from dialLocked_view(1,2) [OF d] inv SetBrokerID show ?thesis
      by (auto simp: host_inv_def view_def)
  next
    case (HostCall log r)
    with step obtain dial where d: "dialLocked dial s = (log, t)"
      by (auto simp: host_def elim!: host_step_cases split: prod.splits)
    from dialLocked_view(1-3) [OF d] inv HostCall show ?thesis
      by (cases "hs_client s") (auto simp: host_inv_def view_def)
  qed
qed

lemma host_step_result: "host_step s (HostCall log r) t \<Longrightarrow> r = hs_client t"
  by (auto simp: host_def elim!: host_step_cases split: prod.splits)

lemma host_step_log:
  "host_step s e t \<Longrightarrow> (b, i, r) \<in> set (event_log e) \<Longrightarrow>
     hs_broker t = Some b \<and> hs_brokerID t = i \<and> i \<noteq> 0"
  by (cases e) (auto simp: setBrokerID_def host_def elim!: host_step_cases dest!: dialLocked_view(4) split: prod.splits)

definition is_call :: "host_event \<Rightarrow> bool" where
  "is_call e \<longleftrightarrow> (case e of HostCall _ _ \<Rightarrow> True | _ \<Rightarrow> False)"

text \<open>Once connected, calls neither dial nor change the client until the next binding.\<close>

lemma calls_keep_client:
  assumes "run host_step s tr t" and "hs_client s = Some c" and "list_all is_call tr"
  shows "t = s \<and> tr = map (\<lambda>_. HostCall [] (Some c)) tr"
  using assms
proof (induction rule: run.induct)
  case (run_snoc s tr t e u)
  then have t: "t = s" and tr: "tr = map (\<lambda>_. HostCall [] (Some c)) tr" by auto
  from run_snoc.prems obtain log r where e: "e = HostCall log r"
    by (cases e) (auto simp: is_call_def)
  with run_snoc.hyps(2) obtain dial where "dialLocked dial s = (log, u)" "r = hs_client u"
    using t by (auto simp: host_def elim!: host_step_cases split: prod.splits)
  with dialLocked_view(3) [OF this(1)] run_snoc.prems(1) have "u = s" "e = HostCall [] (Some c)"
    using e by auto
  with tr show ?case by simp
qed simp

text \<open>A failed dial at bind time is not final: a later call dials again.\<close>

lemma host_redials:
  assumes "hs_client s = None" "hs_broker s = Some b" "hs_brokerID s \<noteq> 0" "dial b (hs_brokerID s) = Some c"
  shows "host dial s = (Some c, [(b, hs_brokerID s, Some c)], s\<lparr>hs_client := Some c\<rparr>)"
  using assms by (simp add: host_def dialLocked_def Let_def)

text \<open>The call that ends a run: its result and the binding it was made in.\<close>

lemma host_call_of_binding:
  assumes "run host_step pluginHost (tr @ [HostCall log r]) s"
  shows "snd (snd (binding_of (tr @ [HostCall log r]))) = (case r of None \<Rightarrow> [] | Some c \<Rightarrow> [c])
    \<and> fst (binding_of (tr @ [HostCall log r])) = hs_broker s
    \<and> (\<forall>(b, i, c)\<in>set log. hs_broker s = Some b \<and> hs_brokerID s = i)"
proof -
  from assms obtain t where step: "host_step t (HostCall log r) s"
    unfolding run_snoc_iff by (elim exE conjE)
  have "binding_of (tr @ [HostCall log r]) = view s"
    using host.Inv_run [OF assms] by (simp add: host_inv_def)
  then show ?thesis
    using host_step_result [OF step] host_step_log [OF step]
    by (auto simp: view_def simp del: binding_of_simps)
qed

end
