(* ===== verification/Serve.thy ===== *)
theory Serve
  imports Manifest Host_Broker
begin

text \<open>
  \<open>runtime.go\<close>, \<open>serve_manifest.go\<close>, \<open>storage_provider.go\<close> and \<open>runtimedefault\<close>: which
  gRPC services a plugin process registers, the startup checks of
  \<open>manifestServeConfig\<close>, the default Runtime server, and \<open>Serve\<close> with its
  \<open>manifest\<close> subcommand. A Go interface value holding a server is a \<open>gserver option\<close>:
  \<open>None\<close> is the nil interface; \<open>srv_nil_pointer\<close> says that the dynamic value is a nil
  pointer, and \<open>srv_implements\<close> lists the services whose server interface the dynamic type
  implements. The gRPC server is the list of the registrations made on it.
\<close>

subsection \<open>Servers\<close>

datatype service =
    RuntimeService | MetadataProviderService | ImageResolverService | MarkerProviderService
  | MediaAnalyzerService | ScheduledTaskService | ScanSourceService | RequestRouterService
  | EventConsumerService | AuthProviderService | AuthProviderChecksService
  | NetworkIdentityAuthService | HttpRoutesService | WatchSyncProviderService
  | NetworkAccessProviderService | WatchSyncDeviceAuthorizationService | StorageProviderService

record gserver =
  srv_id :: nat
  srv_implements :: "service list"
  srv_nil_pointer :: bool

type_synonym configure_func = "config_entry option list \<Rightarrow> string option"

record manifest_runtime =
  mr_manifest :: "plugin_manifest option"
  mr_configure :: "configure_func option"

datatype runtime_server = PluginRuntime gserver | ManifestRuntime manifest_runtime

record capability_servers =
  cs_Runtime :: "runtime_server option"
  cs_MetadataProvider :: "gserver option"
  cs_ImageResolver :: "gserver option"
  cs_MarkerProvider :: "gserver option"
  cs_MediaAnalyzer :: "gserver option"
  cs_ScheduledTask :: "gserver option"
  cs_ScanSource :: "gserver option"
  cs_RequestRouter :: "gserver option"
  cs_EventConsumer :: "gserver option"
  cs_AuthProvider :: "gserver option"
  cs_HttpRoutes :: "gserver option"
  cs_WatchSyncProvider :: "gserver option"
  cs_NetworkAccessProvider :: "gserver option"

text \<open>\<open>CapabilityServers{}\<close>.\<close>

definition no_servers :: capability_servers where
  "no_servers = \<lparr>cs_Runtime = None, cs_MetadataProvider = None, cs_ImageResolver = None, cs_MarkerProvider = None,
     cs_MediaAnalyzer = None, cs_ScheduledTask = None, cs_ScanSource = None, cs_RequestRouter = None,
     cs_EventConsumer = None, cs_AuthProvider = None, cs_HttpRoutes = None, cs_WatchSyncProvider = None,
     cs_NetworkAccessProvider = None\<rparr>"

record optional_services =
  os_watchSyncDeviceAuthorization :: "gserver option"
  os_authProviderChecks :: "gserver option"
  os_networkIdentityAuth :: "gserver option"

definition no_optional_services :: optional_services where
  "no_optional_services =
    \<lparr>os_watchSyncDeviceAuthorization = None, os_authProviderChecks = None, os_networkIdentityAuth = None\<rparr>"

datatype implementation = RuntimeImpl runtime_server | Impl gserver

type_synonym registrations = "(service \<times> implementation) list"

datatype grpc_plugin =
    GRPCPlugin capability_servers
  | WithOptionalServices capability_servers optional_services
  | WithStorage grpc_plugin gserver

type_synonym plugin_set = "(string \<times> grpc_plugin) list"

definition PluginSetName :: string where "PluginSetName = ''silo''"

subsection \<open>Resolution of the auth services\<close>

definition isNilServer :: "gserver option \<Rightarrow> bool" where
  "isNilServer server = (case server of None \<Rightarrow> True | Some v \<Rightarrow> srv_nil_pointer v)"

definition resolveAuthService :: "service \<Rightarrow> gserver option \<Rightarrow> gserver option \<Rightarrow> gserver option" where
  "resolveAuthService svc authProvider explicit =
     (if \<not> isNilServer explicit then explicit
      else case authProvider of
             None \<Rightarrow> None
           | Some server \<Rightarrow> if svc \<in> set (srv_implements server) then Some server else None)"

subsection \<open>Registration\<close>

definition register :: "service \<Rightarrow> gserver option \<Rightarrow> registrations" where
  "register svc server = (case server of None \<Rightarrow> [] | Some v \<Rightarrow> [(svc, Impl v)])"

text \<open>The error of the result is \<open>runtime server is required\<close>.\<close>

definition registerServers ::
  "capability_servers \<Rightarrow> broker option \<Rightarrow> optional_services \<Rightarrow> host_state \<times> registrations
   \<Rightarrow> bool \<times> host_state \<times> registrations" where
  "registerServers servers broker optional = (\<lambda>(h, regs).
     case cs_Runtime servers of
       None \<Rightarrow> (False, setBroker broker h, regs)
     | Some r \<Rightarrow> (True, setBroker broker h, regs @ concat
         [[(RuntimeService, RuntimeImpl r)],
          register MetadataProviderService (cs_MetadataProvider servers),
          register ImageResolverService (cs_ImageResolver servers),
          register MarkerProviderService (cs_MarkerProvider servers),
          register MediaAnalyzerService (cs_MediaAnalyzer servers),
          register ScheduledTaskService (cs_ScheduledTask servers),
          register ScanSourceService (cs_ScanSource servers),
          register RequestRouterService (cs_RequestRouter servers),
          register EventConsumerService (cs_EventConsumer servers),
          register AuthProviderService (cs_AuthProvider servers),
          register AuthProviderChecksService
            (resolveAuthService AuthProviderChecksService (cs_AuthProvider servers) (os_authProviderChecks optional)),
          register NetworkIdentityAuthService
            (resolveAuthService NetworkIdentityAuthService (cs_AuthProvider servers) (os_networkIdentityAuth optional)),
          register HttpRoutesService (cs_HttpRoutes servers),
          register WatchSyncProviderService (cs_WatchSyncProvider servers),
          register NetworkAccessProviderService (cs_NetworkAccessProvider servers)]))"

fun GRPCServer ::
  "grpc_plugin \<Rightarrow> broker option \<Rightarrow> host_state \<times> registrations \<Rightarrow> bool \<times> host_state \<times> registrations"
where
  "GRPCServer (GRPCPlugin servers) broker st = registerServers servers broker no_optional_services st"
| "GRPCServer (WithOptionalServices servers optional) broker st =
     (case registerServers servers broker optional st of
        (False, st') \<Rightarrow> (False, st')
      | (True, h, regs) \<Rightarrow>
          (True, h, regs @ register WatchSyncDeviceAuthorizationService (os_watchSyncDeviceAuthorization optional)))"
| "GRPCServer (WithStorage p storage) broker st =
     (case GRPCServer p broker st of
        (False, st') \<Rightarrow> (False, st')
      | (True, h, regs) \<Rightarrow> (True, h, regs @ [(StorageProviderService, Impl storage)]))"

definition DefaultPluginSet :: "capability_servers \<Rightarrow> plugin_set" where
  "DefaultPluginSet servers = [(PluginSetName, GRPCPlugin servers)]"

definition pluginSetWithOptionalServices :: "capability_servers \<Rightarrow> optional_services \<Rightarrow> plugin_set" where
  "pluginSetWithOptionalServices servers optional =
     (if os_watchSyncDeviceAuthorization optional = None \<and> os_authProviderChecks optional = None
         \<and> os_networkIdentityAuth optional = None
      then DefaultPluginSet servers
      else [(PluginSetName, WithOptionalServices servers optional)])"

definition DefaultPluginSetWithWatchSyncDeviceAuthorization ::
  "capability_servers \<Rightarrow> gserver option \<Rightarrow> plugin_set" where
  "DefaultPluginSetWithWatchSyncDeviceAuthorization servers deviceAuthorization =
     pluginSetWithOptionalServices servers
       (no_optional_services\<lparr>os_watchSyncDeviceAuthorization := deviceAuthorization\<rparr>)"

subsection \<open>Options of ServeManifestWithOptions\<close>

record serve_options =
  so_storageProvider :: "gserver option"
  so_watchSyncDeviceAuthorization :: "gserver option"
  so_authProviderChecks :: "gserver option"
  so_networkIdentityAuth :: "gserver option"
  so_configure :: "configure_func option"

definition zero_serve_options :: serve_options where
  "zero_serve_options =
    \<lparr>so_storageProvider = None, so_watchSyncDeviceAuthorization = None, so_authProviderChecks = None,
     so_networkIdentityAuth = None, so_configure = None\<rparr>"

datatype serve_option =
    WithStorageProvider "gserver option"
  | WithWatchSyncDeviceAuthorization "gserver option"
  | WithAuthProviderChecks "gserver option"
  | WithNetworkIdentityAuth "gserver option"
  | WithConfigure "configure_func option"

definition use_storage_provider :: "gserver option \<Rightarrow> serve_options \<Rightarrow> serve_options" where [simp]:
  "use_storage_provider server o1 = o1\<lparr>so_storageProvider := server\<rparr>"

fun apply_option :: "serve_option \<Rightarrow> serve_options \<Rightarrow> serve_options" where
  "apply_option (WithStorageProvider server) o1 = use_storage_provider server o1"
| "apply_option (WithWatchSyncDeviceAuthorization server) o1 = o1\<lparr>so_watchSyncDeviceAuthorization := server\<rparr>"
| "apply_option (WithAuthProviderChecks server) o1 = o1\<lparr>so_authProviderChecks := server\<rparr>"
| "apply_option (WithNetworkIdentityAuth server) o1 = o1\<lparr>so_networkIdentityAuth := server\<rparr>"
| "apply_option (WithConfigure fn) o1 = o1\<lparr>so_configure := fn\<rparr>"

fun resolve_options :: "serve_options \<Rightarrow> serve_option option list \<Rightarrow> serve_options" where
  "resolve_options o1 [] = o1"
| "resolve_options o1 (None # os) = resolve_options o1 os"
| "resolve_options o1 (Some f # os) = resolve_options (apply_option f o1) os"

definition manifestPluginSet :: "capability_servers \<Rightarrow> serve_options \<Rightarrow> plugin_set" where
  "manifestPluginSet servers options =
     (let set0 = pluginSetWithOptionalServices servers
            \<lparr>os_watchSyncDeviceAuthorization = so_watchSyncDeviceAuthorization options,
             os_authProviderChecks = so_authProviderChecks options,
             os_networkIdentityAuth = so_networkIdentityAuth options\<rparr>
      in case so_storageProvider options of
           None \<Rightarrow> set0
         | Some storage \<Rightarrow>
             map (\<lambda>(n, p). (n, if n = PluginSetName then WithStorage p storage else p)) set0)"

subsection \<open>manifestServeConfig\<close>

record serve_config =
  sc_Plugins :: plugin_set
  sc_Servers :: capability_servers

text \<open>The capability, what it declares, and the service that is missing.\<close>

datatype missing_service = MissingService string string string

definition startup_rules ::
  "bool \<Rightarrow> bool \<Rightarrow> (bool \<times> (capability_descriptor option \<Rightarrow> bool) \<times> string \<times> string) list" where
  "startup_rules hasChecks hasNetwork =
     [(hasChecks, AuthProviderSupportsConnectionTest, AuthProviderConnectionTestKey, ''AuthProviderChecks''),
      (hasChecks, AuthProviderUsesNetworkIdentity, ''auth mode '' @ AuthModeNetwork, ''AuthProviderChecks''),
      (hasNetwork, AuthProviderUsesNetworkIdentity, ''auth mode '' @ AuthModeNetwork, ''NetworkIdentityAuth'')]"

definition check_startup ::
  "bool \<Rightarrow> bool \<Rightarrow> capability_descriptor option list \<Rightarrow> missing_service option" where
  "check_startup hasChecks hasNetwork caps =
     first_err (\<lambda>(registered, declares, declaration, service).
        if registered then None
        else first_err (\<lambda>d. reject_if (declares d) (MissingService (GetId d) declaration service)) caps)
       (startup_rules hasChecks hasNetwork)"

definition manifestServeConfig ::
  "plugin_manifest option \<Rightarrow> capability_servers \<Rightarrow> serve_option option list \<Rightarrow> missing_service + serve_config"
where
  "manifestServeConfig m servers options =
     (let resolved = resolve_options zero_serve_options options;
          hasChecks = resolveAuthService AuthProviderChecksService (cs_AuthProvider servers)
                        (so_authProviderChecks resolved) \<noteq> None;
          hasNetwork = resolveAuthService NetworkIdentityAuthService (cs_AuthProvider servers)
                        (so_networkIdentityAuth resolved) \<noteq> None
      in case check_startup hasChecks hasNetwork (GetCapabilities m) of
           Some e \<Rightarrow> Inl e
         | None \<Rightarrow>
             (let servers' = servers\<lparr>cs_Runtime := Some (ManifestRuntime
                    \<lparr>mr_manifest = m, mr_configure = so_configure resolved\<rparr>)\<rparr>
              in Inr \<lparr>sc_Plugins = manifestPluginSet servers' resolved, sc_Servers = servers'\<rparr>))"

subsection \<open>The Runtime servers\<close>

definition GetManifest :: "manifest_runtime \<Rightarrow> plugin_manifest option" where
  "GetManifest r = mr_manifest r"

definition Configure :: "manifest_runtime \<Rightarrow> config_entry option list \<Rightarrow> string option" where
  "Configure r entries = (case mr_configure r of None \<Rightarrow> None | Some configure \<Rightarrow> configure entries)"

text \<open>Both \<open>manifestRuntime\<close> and \<open>runtimedefault.Server\<close> handle \<open>BindHostBroker\<close> this way.\<close>

definition BindHostBroker :: "dialer \<Rightarrow> uint32 \<Rightarrow> host_state \<Rightarrow> attempt list \<times> host_state" where
  "BindHostBroker dial broker_id h = SetHostBrokerID dial broker_id h"

subsection \<open>Serve\<close>

text \<open>
  The Runtime server of a plugin that does not use \<open>ServeManifest\<close> and the protojson encoder
  are parameters; \<open>None\<close> is their error.
\<close>

record serve_env =
  plugin_get_manifest :: "gserver \<Rightarrow> plugin_manifest option option"
  marshal_manifest :: "plugin_manifest option \<Rightarrow> string option"

text \<open>Host and plugin agree on the handshake; go-plugin refuses a process or a plugin with another one.\<close>

record handshake_config =
  hc_protocol_version :: nat
  hc_cookie_key :: string
  hc_cookie_value :: string

definition HandshakeConfig :: handshake_config where
  "HandshakeConfig = \<lparr>hc_protocol_version = 1, hc_cookie_key = ''SILO_PLUGIN'', hc_cookie_value = ''silo-rpc-plugin-v1''\<rparr>"

datatype serve_result =
    ExitFailure
  | PrintManifest string
  | ServePlugins handshake_config plugin_set

definition Serve :: "serve_env \<Rightarrow> string list \<Rightarrow> serve_config \<Rightarrow> serve_result" where
  "Serve E args cfg =
     (if length args > 1 \<and> args ! 1 = ''manifest'' then
        (case cs_Runtime (sc_Servers cfg) of
           None \<Rightarrow> ExitFailure
         | Some r \<Rightarrow>
             (case (case r of ManifestRuntime mr \<Rightarrow> Some (GetManifest mr) | PluginRuntime s \<Rightarrow> plugin_get_manifest E s) of
                None \<Rightarrow> ExitFailure
              | Some m \<Rightarrow>
                  (case marshal_manifest E m of
                     None \<Rightarrow> ExitFailure
                   | Some data \<Rightarrow> PrintManifest data)))
      else ServePlugins HandshakeConfig
        (if sc_Plugins cfg = [] then DefaultPluginSet (sc_Servers cfg) else sc_Plugins cfg))"

lemma subcommand_args: "length args > 1 \<and> args ! 1 = c \<longleftrightarrow> (\<exists>prog rest. args = prog # c # rest)"
proof
  assume c: "length args > 1 \<and> args ! 1 = c"
  then obtain prog as where "args = prog # as" by (cases args) auto
  with c show "\<exists>prog rest. args = prog # c # rest" by (cases as) auto
qed auto

text \<open>\<open>None\<close> is a panic.\<close>

definition ServeManifestWithOptions ::
  "ext \<Rightarrow> platform \<Rightarrow> serve_env \<Rightarrow> string list \<Rightarrow> string \<Rightarrow> string \<Rightarrow> capability_servers
   \<Rightarrow> serve_option option list \<Rightarrow> serve_result option" where
  "ServeManifestWithOptions X P E args manifestBytes version servers options =
     (case LoadWithChecksum X P manifestBytes version of
        Returned m \<Rightarrow>
          (case manifestServeConfig (Some m) servers options of
             Inl e \<Rightarrow> None
           | Inr cfg \<Rightarrow> Some (Serve E args cfg))
      | _ \<Rightarrow> None)"

definition ServeManifest ::
  "ext \<Rightarrow> platform \<Rightarrow> serve_env \<Rightarrow> string list \<Rightarrow> string \<Rightarrow> string \<Rightarrow> capability_servers \<Rightarrow> serve_result option"
where
  "ServeManifest X P E args manifestBytes version servers =
     ServeManifestWithOptions X P E args manifestBytes version servers []"

subsection \<open>What the startup check guarantees\<close>

definition startup_ok :: "bool \<Rightarrow> bool \<Rightarrow> capability_descriptor option list \<Rightarrow> bool" where
  "startup_ok hasChecks hasNetwork caps \<longleftrightarrow>
     (\<forall>d\<in>set caps.
        (AuthProviderSupportsConnectionTest d \<longrightarrow> hasChecks)
        \<and> (AuthProviderUsesNetworkIdentity d \<longrightarrow> hasChecks \<and> hasNetwork))"

interpretation startup: checker "check_startup hasChecks hasNetwork" "startup_ok hasChecks hasNetwork"
  for hasChecks hasNetwork
  by unfold_locales (cases hasChecks; cases hasNetwork;
    auto simp: check_startup_def startup_rules_def startup_ok_def simp del: first_err.simps)

subsection \<open>What is registered\<close>

text \<open>The specification: every service, in the order of registration, with its server if any.\<close>

definition service_table ::
  "capability_servers \<Rightarrow> serve_options \<Rightarrow> (service \<times> implementation option) list" where
  "service_table s o1 =
     [(RuntimeService, map_option RuntimeImpl (cs_Runtime s)),
      (MetadataProviderService, map_option Impl (cs_MetadataProvider s)),
      (ImageResolverService, map_option Impl (cs_ImageResolver s)),
      (MarkerProviderService, map_option Impl (cs_MarkerProvider s)),
      (MediaAnalyzerService, map_option Impl (cs_MediaAnalyzer s)),
      (ScheduledTaskService, map_option Impl (cs_ScheduledTask s)),
      (ScanSourceService, map_option Impl (cs_ScanSource s)),
      (RequestRouterService, map_option Impl (cs_RequestRouter s)),
      (EventConsumerService, map_option Impl (cs_EventConsumer s)),
      (AuthProviderService, map_option Impl (cs_AuthProvider s)),
      (AuthProviderChecksService, map_option Impl
         (resolveAuthService AuthProviderChecksService (cs_AuthProvider s) (so_authProviderChecks o1))),
      (NetworkIdentityAuthService, map_option Impl
         (resolveAuthService NetworkIdentityAuthService (cs_AuthProvider s) (so_networkIdentityAuth o1))),
      (HttpRoutesService, map_option Impl (cs_HttpRoutes s)),
      (WatchSyncProviderService, map_option Impl (cs_WatchSyncProvider s)),
      (NetworkAccessProviderService, map_option Impl (cs_NetworkAccessProvider s)),
      (WatchSyncDeviceAuthorizationService, map_option Impl (so_watchSyncDeviceAuthorization o1)),
      (StorageProviderService, map_option Impl (so_storageProvider o1))]"

definition present :: "('a \<times> 'b option) list \<Rightarrow> ('a \<times> 'b) list" where
  "present table = concat (map (\<lambda>(k, v). case v of None \<Rightarrow> [] | Some x \<Rightarrow> [(k, x)]) table)"

lemma present_simps:
  "present [] = []"
  "present ((k, v) # kvs) = (case v of None \<Rightarrow> [] | Some x \<Rightarrow> [(k, x)]) @ present kvs"
  by (simp_all add: present_def)

lemma present_keys: "fst ` set (present table) \<subseteq> fst ` set table"
  unfolding present_def by (force split: option.splits)

lemma present_distinct: "distinct (map fst table) \<Longrightarrow> distinct (map fst (present table))"
proof (induction table)
  case (Cons e table)
  obtain k v where e: "e = (k, v)" by (cases e)
  with Cons.prems present_keys [of table] have "k \<notin> fst ` set (present table)" by auto
  with Cons e show ?case by (auto simp: present_simps split: option.splits)
qed (simp add: present_def)

lemma present_lookup: "distinct (map fst table) \<Longrightarrow> (k, v) \<in> set table \<Longrightarrow> map_of (present table) k = v"
proof (induction table)
  case (Cons e table)
  obtain k' v' where e: "e = (k', v')" by (cases e)
  have "k' \<notin> fst ` set (present table)" using Cons.prems(1) e present_keys [of table] by auto
  then have none: "map_of (present table) k' = None" by (simp add: map_of_eq_None_iff)
  show ?case
  proof (cases "k = k'")
    case True
    then have "v = v'" using Cons.prems e by (auto simp: image_iff)
    with True e none show ?thesis by (simp add: present_simps split: option.splits)
  next
    case False
    with Cons e show ?thesis by (auto simp: present_simps split: option.splits)
  qed
qed simp

lemma service_table_keys [simp]: "distinct (map fst (service_table s o1))"
  by (simp add: service_table_def)

lemma register_present: "register svc server = (case map_option Impl server of None \<Rightarrow> [] | Some x \<Rightarrow> [(svc, x)])"
  by (simp add: register_def split: option.splits)

lemma manifestPluginSet_registers:
  assumes "cs_Runtime servers = Some r"
  obtains p where "manifestPluginSet servers o1 = [(PluginSetName, p)]"
    and "\<And>b h. GRPCServer p b (h, []) = (True, setBroker b h, present (service_table servers o1))"
proof -
  let ?opt = "\<lparr>os_watchSyncDeviceAuthorization = so_watchSyncDeviceAuthorization o1,
    os_authProviderChecks = so_authProviderChecks o1, os_networkIdentityAuth = so_networkIdentityAuth o1\<rparr>"
  define core where "core = present (butlast (service_table servers o1))"
  obtain q where q: "pluginSetWithOptionalServices servers ?opt = [(PluginSetName, q)]"
    and reg: "\<And>b h. GRPCServer q b (h, []) = (True, setBroker b h, core)"
  proof (cases "so_watchSyncDeviceAuthorization o1 = None \<and> so_authProviderChecks o1 = None
      \<and> so_networkIdentityAuth o1 = None")
    case True
    show ?thesis
      by (rule that [of "GRPCPlugin servers"])
        (use True assms in \<open>simp_all add: pluginSetWithOptionalServices_def DefaultPluginSet_def
           registerServers_def core_def service_table_def present_simps register_present no_optional_services_def\<close>)
  next
    case False
    show ?thesis
      by (rule that [of "WithOptionalServices servers ?opt"])
        (use False assms in \<open>auto simp: pluginSetWithOptionalServices_def
           registerServers_def core_def service_table_def present_simps register_present\<close>)
  qed
  have last: "present (service_table servers o1) = core @ register StorageProviderService (so_storageProvider o1)"
    by (simp add: core_def service_table_def present_simps register_present)
  show ?thesis
  proof (cases "so_storageProvider o1")
    case None
    then show ?thesis using that [of q] q reg last
      by (simp add: manifestPluginSet_def register_def)
  next
    case (Some storage)
    then show ?thesis using that [of "WithStorage q storage"] q reg last
      by (simp add: manifestPluginSet_def register_def)
  qed
qed

subsection \<open>The served configuration\<close>

definition auth_service :: "service \<Rightarrow> capability_servers \<Rightarrow> serve_options \<Rightarrow> gserver option" where
  "auth_service svc s o1 = resolveAuthService svc (cs_AuthProvider s)
     (if svc = AuthProviderChecksService then so_authProviderChecks o1 else so_networkIdentityAuth o1)"

lemma manifestServeConfig_Inr:
  "manifestServeConfig m servers options = Inr cfg \<longleftrightarrow>
     (let o1 = resolve_options zero_serve_options options;
          servers' = servers\<lparr>cs_Runtime := Some (ManifestRuntime
            \<lparr>mr_manifest = m, mr_configure = so_configure o1\<rparr>)\<rparr>
      in startup_ok (auth_service AuthProviderChecksService servers o1 \<noteq> None)
           (auth_service NetworkIdentityAuthService servers o1 \<noteq> None) (GetCapabilities m)
         \<and> cfg = \<lparr>sc_Plugins = manifestPluginSet servers' o1, sc_Servers = servers'\<rparr>)"
  unfolding manifestServeConfig_def Let_def auth_service_def
  by (auto simp: startup.check_None [symmetric] split: option.splits)

lemma resolve_options_append:
  "resolve_options o1 (xs @ ys) = resolve_options (resolve_options o1 xs) ys"
  by (induction o1 xs rule: resolve_options.induct) simp_all

end
