(* ===== verification/Plugin_Client.thy ===== *)
theory Plugin_Client
  imports Serve
begin

text \<open>
  The host's side of a plugin connection: \<open>runtime.Client\<close> of \<open>runtime.go\<close> with its typed
  accessors, and what a call through an accessor reaches. A generated client
  (\<open>typed_client\<close>) is the service whose methods it invokes and the connection. gRPC itself is a
  parameter: \<open>dispatch conn svc\<close> is the implementation a call of a method of \<open>svc\<close> over
  \<open>conn\<close> is handled by, \<open>None\<close> where the call is answered \<open>Unimplemented\<close>.

  The services are linearly ordered in the order of their registration.
\<close>

subsection \<open>The order of the services\<close>

primrec service_rank :: "service \<Rightarrow> nat" where
  "service_rank RuntimeService = 0"
| "service_rank MetadataProviderService = 1"
| "service_rank ImageResolverService = 2"
| "service_rank MarkerProviderService = 3"
| "service_rank MediaAnalyzerService = 4"
| "service_rank ScheduledTaskService = 5"
| "service_rank ScanSourceService = 6"
| "service_rank RequestRouterService = 7"
| "service_rank EventConsumerService = 8"
| "service_rank AuthProviderService = 9"
| "service_rank AuthProviderChecksService = 10"
| "service_rank NetworkIdentityAuthService = 11"
| "service_rank HttpRoutesService = 12"
| "service_rank WatchSyncProviderService = 13"
| "service_rank NetworkAccessProviderService = 14"
| "service_rank WatchSyncDeviceAuthorizationService = 15"
| "service_rank StorageProviderService = 16"

definition all_services :: "service list" where
  "all_services =
     [RuntimeService, MetadataProviderService, ImageResolverService, MarkerProviderService,
      MediaAnalyzerService, ScheduledTaskService, ScanSourceService, RequestRouterService,
      EventConsumerService, AuthProviderService, AuthProviderChecksService, NetworkIdentityAuthService,
      HttpRoutesService, WatchSyncProviderService, NetworkAccessProviderService,
      WatchSyncDeviceAuthorizationService, StorageProviderService]"

lemma all_services_nth: "all_services ! service_rank s = s"
  by (cases s) (simp_all add: all_services_def)

lemma service_rank_inject [simp]: "service_rank s = service_rank t \<longleftrightarrow> s = t"
  by (metis all_services_nth)

lemma mem_all_services [simp]: "s \<in> set all_services"
  by (cases s) (simp_all add: all_services_def)

instantiation service :: linorder
begin

definition less_eq_service :: "service \<Rightarrow> service \<Rightarrow> bool" where
  "less_eq_service s t \<longleftrightarrow> service_rank s \<le> service_rank t"

definition less_service :: "service \<Rightarrow> service \<Rightarrow> bool" where
  "less_service s t \<longleftrightarrow> service_rank s < service_rank t"

instance
  by standard (auto simp: less_eq_service_def less_service_def)

end

lemma service_table_order: "map fst (service_table s o1) = all_services"
  by (simp add: service_table_def all_services_def)

lemma all_services_sorted: "sorted_wrt (<) all_services"
  by (simp add: all_services_def less_service_def)

lemma present_filter: "map fst (present table) = map fst (filter (\<lambda>(k, v). v \<noteq> None) table)"
  by (induction table) (auto simp: present_simps present_def split: option.splits)

lemma present_sorted:
  assumes "sorted_wrt (<) (map fst table)"
  shows "sorted_wrt (<) (map fst (present table))"
  using assms by (simp add: present_filter sorted_wrt_map sorted_wrt_filter)

subsection \<open>runtime.Client\<close>

text \<open>A nil \<open>*plugin.GRPCBroker\<close> is \<open>None\<close>. The accessors keep the names of the Go methods.\<close>

record client =
  cl_conn :: conn
  cl_broker :: "broker option"

record typed_client =
  tc_service :: service
  tc_conn :: conn

definition NewClient :: "conn \<Rightarrow> client" where
  "NewClient conn = \<lparr>cl_conn = conn, cl_broker = None\<rparr>"

definition GRPCClient :: "broker option \<Rightarrow> conn \<Rightarrow> client" where
  "GRPCClient broker conn = \<lparr>cl_conn = conn, cl_broker = broker\<rparr>"

definition Client_Conn :: "client \<Rightarrow> conn" where "Client_Conn c = cl_conn c"
definition Client_Broker :: "client \<Rightarrow> broker option" where "Client_Broker c = cl_broker c"

definition Client_Runtime :: "client \<Rightarrow> typed_client" where
  "Client_Runtime c = \<lparr>tc_service = RuntimeService, tc_conn = cl_conn c\<rparr>"

definition Client_MetadataProvider :: "client \<Rightarrow> typed_client" where
  "Client_MetadataProvider c = \<lparr>tc_service = MetadataProviderService, tc_conn = cl_conn c\<rparr>"

definition Client_ImageResolver :: "client \<Rightarrow> typed_client" where
  "Client_ImageResolver c = \<lparr>tc_service = ImageResolverService, tc_conn = cl_conn c\<rparr>"

definition Client_MarkerProvider :: "client \<Rightarrow> typed_client" where
  "Client_MarkerProvider c = \<lparr>tc_service = MarkerProviderService, tc_conn = cl_conn c\<rparr>"

definition Client_MediaAnalyzer :: "client \<Rightarrow> typed_client" where
  "Client_MediaAnalyzer c = \<lparr>tc_service = MediaAnalyzerService, tc_conn = cl_conn c\<rparr>"

definition Client_ScheduledTask :: "client \<Rightarrow> typed_client" where
  "Client_ScheduledTask c = \<lparr>tc_service = ScheduledTaskService, tc_conn = cl_conn c\<rparr>"

definition Client_ScanSource :: "client \<Rightarrow> typed_client" where
  "Client_ScanSource c = \<lparr>tc_service = ScanSourceService, tc_conn = cl_conn c\<rparr>"

definition Client_RequestRouter :: "client \<Rightarrow> typed_client" where
  "Client_RequestRouter c = \<lparr>tc_service = RequestRouterService, tc_conn = cl_conn c\<rparr>"

definition Client_EventConsumer :: "client \<Rightarrow> typed_client" where
  "Client_EventConsumer c = \<lparr>tc_service = EventConsumerService, tc_conn = cl_conn c\<rparr>"

definition Client_AuthProvider :: "client \<Rightarrow> typed_client" where
  "Client_AuthProvider c = \<lparr>tc_service = AuthProviderService, tc_conn = cl_conn c\<rparr>"

definition Client_AuthProviderChecks :: "client \<Rightarrow> typed_client" where
  "Client_AuthProviderChecks c = \<lparr>tc_service = AuthProviderChecksService, tc_conn = cl_conn c\<rparr>"

definition Client_NetworkIdentityAuth :: "client \<Rightarrow> typed_client" where
  "Client_NetworkIdentityAuth c = \<lparr>tc_service = NetworkIdentityAuthService, tc_conn = cl_conn c\<rparr>"

definition Client_HttpRoutes :: "client \<Rightarrow> typed_client" where
  "Client_HttpRoutes c = \<lparr>tc_service = HttpRoutesService, tc_conn = cl_conn c\<rparr>"

definition Client_WatchSyncProvider :: "client \<Rightarrow> typed_client" where
  "Client_WatchSyncProvider c = \<lparr>tc_service = WatchSyncProviderService, tc_conn = cl_conn c\<rparr>"

definition Client_WatchSyncDeviceAuthorization :: "client \<Rightarrow> typed_client" where
  "Client_WatchSyncDeviceAuthorization c = \<lparr>tc_service = WatchSyncDeviceAuthorizationService, tc_conn = cl_conn c\<rparr>"

definition Client_NetworkAccessProvider :: "client \<Rightarrow> typed_client" where
  "Client_NetworkAccessProvider c = \<lparr>tc_service = NetworkAccessProviderService, tc_conn = cl_conn c\<rparr>"

lemmas accessor_defs =
  Client_Runtime_def
  Client_MetadataProvider_def
  Client_ImageResolver_def
  Client_MarkerProvider_def
  Client_MediaAnalyzer_def
  Client_ScheduledTask_def
  Client_ScanSource_def
  Client_RequestRouter_def
  Client_EventConsumer_def
  Client_AuthProvider_def
  Client_AuthProviderChecks_def
  Client_NetworkIdentityAuth_def
  Client_HttpRoutes_def
  Client_WatchSyncProvider_def
  Client_WatchSyncDeviceAuthorization_def
  Client_NetworkAccessProvider_def

text \<open>Every accessor keeps the connection of the client.\<close>

lemma accessor_conn [simp]:
  "tc_conn (Client_Runtime c) = cl_conn c" "tc_conn (Client_MetadataProvider c) = cl_conn c"
  "tc_conn (Client_ImageResolver c) = cl_conn c" "tc_conn (Client_MarkerProvider c) = cl_conn c"
  "tc_conn (Client_MediaAnalyzer c) = cl_conn c" "tc_conn (Client_ScheduledTask c) = cl_conn c"
  "tc_conn (Client_ScanSource c) = cl_conn c" "tc_conn (Client_RequestRouter c) = cl_conn c"
  "tc_conn (Client_EventConsumer c) = cl_conn c" "tc_conn (Client_AuthProvider c) = cl_conn c"
  "tc_conn (Client_AuthProviderChecks c) = cl_conn c" "tc_conn (Client_NetworkIdentityAuth c) = cl_conn c"
  "tc_conn (Client_HttpRoutes c) = cl_conn c" "tc_conn (Client_WatchSyncProvider c) = cl_conn c"
  "tc_conn (Client_WatchSyncDeviceAuthorization c) = cl_conn c" "tc_conn (Client_NetworkAccessProvider c) = cl_conn c"
  by (simp_all add: accessor_defs)

text \<open>
  What the plugin supplied for the client of each accessor: the Runtime server of its manifest, a field of its
  \<open>CapabilityServers\<close>, an option, or for the two auth services an option that falls back on the AuthProvider.
\<close>

definition accessor_table ::
  "plugin_manifest option \<Rightarrow> capability_servers \<Rightarrow> serve_options \<Rightarrow> ((client \<Rightarrow> typed_client) \<times> implementation option) list" where
  "accessor_table m s o1 =
     [(Client_Runtime, Some (RuntimeImpl (ManifestRuntime \<lparr>mr_manifest = m, mr_configure = so_configure o1\<rparr>))),
      (Client_MetadataProvider, map_option Impl (cs_MetadataProvider s)),
      (Client_ImageResolver, map_option Impl (cs_ImageResolver s)),
      (Client_MarkerProvider, map_option Impl (cs_MarkerProvider s)),
      (Client_MediaAnalyzer, map_option Impl (cs_MediaAnalyzer s)),
      (Client_ScheduledTask, map_option Impl (cs_ScheduledTask s)),
      (Client_ScanSource, map_option Impl (cs_ScanSource s)),
      (Client_RequestRouter, map_option Impl (cs_RequestRouter s)),
      (Client_EventConsumer, map_option Impl (cs_EventConsumer s)),
      (Client_AuthProvider, map_option Impl (cs_AuthProvider s)),
      (Client_AuthProviderChecks, map_option Impl (auth_service AuthProviderChecksService s o1)),
      (Client_NetworkIdentityAuth, map_option Impl (auth_service NetworkIdentityAuthService s o1)),
      (Client_HttpRoutes, map_option Impl (cs_HttpRoutes s)),
      (Client_WatchSyncProvider, map_option Impl (cs_WatchSyncProvider s)),
      (Client_WatchSyncDeviceAuthorization, map_option Impl (so_watchSyncDeviceAuthorization o1)),
      (Client_NetworkAccessProvider, map_option Impl (cs_NetworkAccessProvider s))]"

text \<open>
  gRPC finds the handler of a call by the service's name among the registrations of the server at the
  other end, \<open>served conn\<close>.
\<close>

definition documented_dispatch ::
  "(conn \<Rightarrow> service \<Rightarrow> implementation option) \<Rightarrow> (conn \<Rightarrow> registrations) \<Rightarrow> bool" where
  "documented_dispatch dispatch served \<longleftrightarrow> (\<forall>conn svc. dispatch conn svc = map_of (served conn) svc)"

definition reached :: "(conn \<Rightarrow> service \<Rightarrow> implementation option) \<Rightarrow> typed_client \<Rightarrow> implementation option" where
  "reached dispatch t = dispatch (tc_conn t) (tc_service t)"

lemma reached_row:
  assumes "documented_dispatch dispatch served" and "served (tc_conn t) = present (service_table s o1)"
    and "(tc_service t, v) \<in> set (service_table s o1)"
  shows "reached dispatch t = v"
  using assms by (simp add: reached_def documented_dispatch_def present_lookup)

subsection \<open>What a served configuration registers\<close>

abbreviation resolved :: "serve_option option list \<Rightarrow> serve_options" where
  "resolved options \<equiv> resolve_options zero_serve_options options"

lemma served_plugin:
  assumes "manifestServeConfig m servers options = Inr cfg" and "(n, p) \<in> set (sc_Plugins cfg)"
  shows "n = PluginSetName"
    and "GRPCServer p b (h, []) = (True, setBroker b h, present (service_table (sc_Servers cfg) (resolved options)))"
proof -
  have rt: "cs_Runtime (sc_Servers cfg) = Some (ManifestRuntime \<lparr>mr_manifest = m, mr_configure = so_configure (resolved options)\<rparr>)"
    and plugins: "sc_Plugins cfg = manifestPluginSet (sc_Servers cfg) (resolved options)"
    using assms(1) by (auto simp: manifestServeConfig_Inr Let_def)
  obtain q where "manifestPluginSet (sc_Servers cfg) (resolved options) = [(PluginSetName, q)]"
    and "\<And>b h. GRPCServer q b (h, []) = (True, setBroker b h, present (service_table (sc_Servers cfg) (resolved options)))"
    using manifestPluginSet_registers [OF rt, of "resolved options"] by blast
  with plugins assms(2) show "n = PluginSetName"
    and "GRPCServer p b (h, []) = (True, setBroker b h, present (service_table (sc_Servers cfg) (resolved options)))"
    by simp_all
qed

text \<open>The registrations are strictly increasing, so none is made twice.\<close>

lemma registrations_increasing:
  assumes "manifestServeConfig m servers options = Inr cfg" and "(n, p) \<in> set (sc_Plugins cfg)"
    and "GRPCServer p b (h, []) = (ok, h', regs)"
  shows "sorted_wrt (<) (map fst regs)"
proof -
  have "regs = present (service_table (sc_Servers cfg) (resolved options))"
    using assms(3) by (simp add: served_plugin(2) [OF assms(1,2)])
  then show ?thesis by (simp add: present_sorted service_table_order all_services_sorted)
qed

text \<open>The servers of a served configuration are those the plugin supplied, with the Runtime server of its manifest.\<close>

lemma served_servers:
  "manifestServeConfig m servers options = Inr cfg \<Longrightarrow>
     sc_Servers cfg = servers\<lparr>cs_Runtime :=
       Some (ManifestRuntime \<lparr>mr_manifest = m, mr_configure = so_configure (resolved options)\<rparr>)\<rparr>"
  by (auto simp: manifestServeConfig_Inr Let_def)

lemma accessor_rows:
  "list_all (\<lambda>(accessor, server). (tc_service (accessor c), server) \<in>
     set (service_table (servers\<lparr>cs_Runtime := Some (ManifestRuntime \<lparr>mr_manifest = m, mr_configure = so_configure o1\<rparr>)\<rparr>) o1)
     \<and> tc_conn (accessor c) = cl_conn c) (accessor_table m servers o1)"
  by (simp add: accessor_table_def service_table_def accessor_defs auth_service_def)

end
