(* ===== verification/Runtime_Host.thy ===== *)
theory Runtime_Host
  imports Manifest_Errors
begin

text \<open>
  The typed RuntimeHost client of \<open>pkg/pluginsdk/runtimehost\<close>. A method is a function that
  builds the request (and may refuse the arguments), the RPC, and a function that decodes the
  response; \<open>call\<close> composes them. The RPC itself (generated gRPC code and the host) is a
  parameter of each method. Go's \<open>int\<close> is 64 bits wide: \<open>int32(x)\<close> is \<open>ucast\<close> and
  \<open>int(y)\<close> of an \<open>int32\<close> is \<open>scast\<close>. \<open>structpb.NewStruct\<close>, \<open>encoding/json\<close> and
  \<open>AsMap\<close> are fields of \<open>codec\<close>.
\<close>

type_synonym goint = int64
type_synonym headers = "(string \<times> string) list"
type_synonym any_map = "(string \<times> gany) list"

record codec =
  new_struct :: "any_map \<Rightarrow> pb_struct option"
  marshal_any :: "gany \<Rightarrow> string option"
  as_map :: "pb_struct \<Rightarrow> any_map"

datatype host_error =
    InstallationRequired | PathRequired | MediaFileRequired | EventNameRequired
  | TargetPluginRequired | ConfigKeyRequired | EncodeFailed
  | StateKeyRequired | StateKeyTooLong nat | StateValueTooLong string nat | StateNotExist
  | StatusRequired | StatusStateRequired
  | HTTPStatus goint string | ResponseTooLong goint | DecodeFailed
  | RpcError string

type_synonym ('q, 'p) rpc = "'q \<Rightarrow> string + 'p"

definition call :: "('q, 'p) rpc \<Rightarrow> host_error + 'q \<Rightarrow> ('p \<Rightarrow> 'a) \<Rightarrow> host_error + 'a" where
  "call rpc req decode =
     (case req of
        Inl e \<Rightarrow> Inl e
      | Inr q \<Rightarrow> (case rpc q of Inl e \<Rightarrow> Inl (RpcError e) | Inr p \<Rightarrow> Inr (decode p)))"

text \<open>Whatever comes back, only a request the client accepted was sent.\<close>

lemma call_Inr: "call rpc req decode = Inr a \<longleftrightarrow> (\<exists>q p. req = Inr q \<and> rpc q = Inr p \<and> a = decode p)"
  by (auto simp: call_def split: sum.splits)

lemma call_refused: "req = Inl e \<Longrightarrow> call rpc req decode = Inl e"
  by (simp add: call_def)

subsection \<open>client.go: plugin HTTP\<close>

definition int32_of :: "goint \<Rightarrow> int32" where "int32_of x = ucast x"
definition int_of32 :: "int32 \<Rightarrow> goint" where "int_of32 y = scast y"

record http_request =
  hq_installation_id :: goint
  hq_method :: string
  hq_path :: string
  hq_headers :: headers
  hq_body :: string
  hq_query :: any_map

record http_response =
  hp_status_code :: goint
  hp_headers :: headers
  hp_body :: string

record pb_http_request =
  phq_installation_id :: int32
  phq_method :: string
  phq_path :: string
  phq_headers :: headers
  phq_body :: string
  phq_query :: "pb_struct option"

record pb_http_response =
  php_status_code :: int32
  php_headers :: headers
  php_body :: string

definition http_build :: "codec \<Rightarrow> http_request \<Rightarrow> host_error + pb_http_request" where
  "http_build C req =
     (if sint (hq_installation_id req) \<le> 0 then Inl InstallationRequired
      else if hq_path req = [] then Inl PathRequired
      else case (if hq_query req = [] then Some None else map_option Some (new_struct C (hq_query req))) of
             None \<Rightarrow> Inl EncodeFailed
           | Some query \<Rightarrow> Inr
               \<lparr>phq_installation_id = int32_of (hq_installation_id req),
                phq_method = (if hq_method req = [] then ''GET'' else hq_method req),
                phq_path = hq_path req, phq_headers = hq_headers req, phq_body = hq_body req,
                phq_query = query\<rparr>)"

definition http_decode :: "pb_http_response \<Rightarrow> http_response" where
  "http_decode p =
     \<lparr>hp_status_code = int_of32 (php_status_code p), hp_headers = php_headers p, hp_body = php_body p\<rparr>"

definition CallPluginHTTP ::
  "codec \<Rightarrow> (pb_http_request, pb_http_response) rpc \<Rightarrow> http_request \<Rightarrow> host_error + http_response" where
  "CallPluginHTTP C rpc req = call rpc (http_build C req) http_decode"

subsection \<open>client.go: scoped streams\<close>

record stream_request =
  sr_media_file_id :: goint
  sr_play_method :: string
  sr_expires_at_unix :: int64
  sr_max_watch_minutes :: goint
  sr_max_resolution_height :: goint
  sr_allow_direct_play :: bool
  sr_allow_downloads :: bool
  sr_disable_seeking :: bool
  sr_audit_subject :: string
  sr_watermark_mode :: string
  sr_watermark_text :: string
  sr_watermark_logo_url :: string

record pb_stream_request =
  psr_media_file_id :: int64
  psr_play_method :: string
  psr_expires_at_unix :: int64
  psr_max_watch_minutes :: int32
  psr_max_resolution_height :: int32
  psr_allow_direct_play :: bool
  psr_allow_downloads :: bool
  psr_disable_seeking :: bool
  psr_audit_subject :: string
  psr_watermark_mode :: string
  psr_watermark_text :: string
  psr_watermark_logo_url :: string

record stream_grant =
  sg_stream_url :: string
  sg_play_method :: string
  sg_expires_at_unix :: int64

definition stream_build :: "stream_request \<Rightarrow> host_error + pb_stream_request" where
  "stream_build r =
     (if sint (sr_media_file_id r) \<le> 0 then Inl MediaFileRequired
      else Inr
        \<lparr>psr_media_file_id = sr_media_file_id r, psr_play_method = sr_play_method r,
         psr_expires_at_unix = sr_expires_at_unix r,
         psr_max_watch_minutes = int32_of (sr_max_watch_minutes r),
         psr_max_resolution_height = int32_of (sr_max_resolution_height r),
         psr_allow_direct_play = sr_allow_direct_play r, psr_allow_downloads = sr_allow_downloads r,
         psr_disable_seeking = sr_disable_seeking r, psr_audit_subject = sr_audit_subject r,
         psr_watermark_mode = sr_watermark_mode r, psr_watermark_text = sr_watermark_text r,
         psr_watermark_logo_url = sr_watermark_logo_url r\<rparr>)"

text \<open>The response carries the three fields of the grant under the same names.\<close>

definition MintScopedStream ::
  "(pb_stream_request, stream_grant) rpc \<Rightarrow> stream_request \<Rightarrow> host_error + stream_grant" where
  "MintScopedStream rpc r = call rpc (stream_build r) (\<lambda>p. p)"

subsection \<open>client.go and events.go: events and config\<close>

definition structFromMap :: "codec \<Rightarrow> any_map \<Rightarrow> host_error + pb_struct option" where
  "structFromMap C value =
     (if value = [] then Inr None
      else case new_struct C value of None \<Rightarrow> Inl EncodeFailed | Some s \<Rightarrow> Inr (Some s))"

datatype event_target = Broadcast | ToPlugin string | ToInstallation int64

record event_request =
  ev_target :: event_target
  ev_name :: string
  ev_payload :: "pb_struct option"

definition event_build :: "codec \<Rightarrow> event_target \<Rightarrow> string \<Rightarrow> any_map \<Rightarrow> host_error + event_request" where
  "event_build C target name payload =
     (if name = [] then Inl EventNameRequired
      else case structFromMap C payload of
             Inl e \<Rightarrow> Inl e
           | Inr pb \<Rightarrow> Inr \<lparr>ev_target = target, ev_name = name, ev_payload = pb\<rparr>)"

definition PublishEvent ::
  "codec \<Rightarrow> (event_request, unit) rpc \<Rightarrow> string \<Rightarrow> any_map \<Rightarrow> host_error + unit" where
  "PublishEvent C rpc name payload = call rpc (event_build C Broadcast name payload) (\<lambda>_. ())"

definition PublishEventTo ::
  "codec \<Rightarrow> (event_request, unit) rpc \<Rightarrow> string \<Rightarrow> string \<Rightarrow> any_map \<Rightarrow> host_error + unit" where
  "PublishEventTo C rpc target name payload =
     call rpc (if target = [] then Inl TargetPluginRequired
               else event_build C (ToPlugin target) name payload) (\<lambda>_. ())"

definition PublishEventToInstallation ::
  "codec \<Rightarrow> (event_request, unit) rpc \<Rightarrow> goint \<Rightarrow> string \<Rightarrow> any_map \<Rightarrow> host_error + unit" where
  "PublishEventToInstallation C rpc target name payload =
     call rpc (if sint target \<le> 0 then Inl InstallationRequired
               else event_build C (ToInstallation target) name payload) (\<lambda>_. ())"

text \<open>A nil map is \<open>None\<close>; it is stored as an empty struct.\<close>

definition SetGlobalConfigEntry ::
  "codec \<Rightarrow> (string \<times> pb_struct, unit) rpc \<Rightarrow> string \<Rightarrow> any_map option \<Rightarrow> host_error + unit" where
  "SetGlobalConfigEntry C rpc key entry =
     call rpc (if key = [] then Inl ConfigKeyRequired
               else case new_struct C (case entry of None \<Rightarrow> [] | Some m \<Rightarrow> m) of
                      None \<Rightarrow> Inl EncodeFailed
                    | Some pb \<Rightarrow> Inr (key, pb)) (\<lambda>_. ())"

subsection \<open>client.go: the catalog\<close>

record media_presence =
  mp_external_id :: string
  mp_media_id :: string
  mp_library_id :: string
  mp_title :: string

definition zero_presence :: media_presence where
  "zero_presence = \<lparr>mp_external_id = [], mp_media_id = [], mp_library_id = [], mp_title = []\<rparr>"

definition presence_map :: "media_presence option list \<Rightarrow> string \<rightharpoonup> media_presence" where
  "presence_map ps =
     foldl (\<lambda>out p. let q = (case p of None \<Rightarrow> zero_presence | Some q \<Rightarrow> q) in out(mp_external_id q \<mapsto> q))
       (\<lambda>_. None) ps"

definition CheckMediaPresence ::
  "(string \<times> string \<times> string list, media_presence option list) rpc \<Rightarrow> string \<Rightarrow> string \<Rightarrow> string list
   \<Rightarrow> host_error + (string \<rightharpoonup> media_presence)" where
  "CheckMediaPresence rpc provider mediaType ids =
     (if ids = [] then Inr (\<lambda>_. None)
      else call rpc (Inr (provider, mediaType, ids)) presence_map)"

definition ResolveCatalogImageURLs ::
  "(string list \<times> string, string \<rightharpoonup> string) rpc \<Rightarrow> string list \<Rightarrow> string
   \<Rightarrow> host_error + (string \<rightharpoonup> string)" where
  "ResolveCatalogImageURLs rpc paths variant =
     (if paths = [] then Inr (\<lambda>_. None) else call rpc (Inr (paths, variant)) (\<lambda>urls. urls))"

record media_query =
  mq_library_ids :: "string list"
  mq_media_types :: "string list"
  mq_query :: string
  mq_genre :: string
  mq_year_min :: goint
  mq_year_max :: goint
  mq_sort :: string
  mq_descending :: bool
  mq_page_size :: goint
  mq_page_token :: string

record pb_media_query =
  pmq_library_ids :: "string list"
  pmq_media_types :: "string list"
  pmq_query :: string
  pmq_genre :: string
  pmq_year_min :: int32
  pmq_year_max :: int32
  pmq_sort :: string
  pmq_descending :: bool
  pmq_page_size :: int32
  pmq_page_token :: string

definition media_query_build :: "media_query \<Rightarrow> pb_media_query" where
  "media_query_build q =
     \<lparr>pmq_library_ids = mq_library_ids q, pmq_media_types = mq_media_types q, pmq_query = mq_query q,
      pmq_genre = mq_genre q, pmq_year_min = int32_of (mq_year_min q), pmq_year_max = int32_of (mq_year_max q),
      pmq_sort = mq_sort q, pmq_descending = mq_descending q, pmq_page_size = int32_of (mq_page_size q),
      pmq_page_token = mq_page_token q\<rparr>"

record 'n media_item =
  mi_media_id :: string
  mi_library_id :: string
  mi_media_type :: string
  mi_title :: string
  mi_year :: 'n
  mi_overview :: string
  mi_poster_url :: string
  mi_backdrop_url :: string
  mi_genres :: "string list"
  mi_runtime_minutes :: 'n
  mi_rating :: f64
  mi_content_rating :: string
  mi_added_at :: string
  mi_external_provider :: string
  mi_external_id :: string

definition zero_item :: "int32 media_item" where
  "zero_item =
     \<lparr>mi_media_id = [], mi_library_id = [], mi_media_type = [], mi_title = [], mi_year = 0, mi_overview = [],
      mi_poster_url = [], mi_backdrop_url = [], mi_genres = [], mi_runtime_minutes = 0, mi_rating = 0,
      mi_content_rating = [], mi_added_at = [], mi_external_provider = [], mi_external_id = []\<rparr>"

definition media_item_decode :: "int32 media_item option \<Rightarrow> goint media_item" where
  "media_item_decode it =
     (let i = (case it of None \<Rightarrow> zero_item | Some i \<Rightarrow> i) in
      \<lparr>mi_media_id = mi_media_id i, mi_library_id = mi_library_id i, mi_media_type = mi_media_type i,
       mi_title = mi_title i, mi_year = int_of32 (mi_year i), mi_overview = mi_overview i,
       mi_poster_url = mi_poster_url i, mi_backdrop_url = mi_backdrop_url i, mi_genres = mi_genres i,
       mi_runtime_minutes = int_of32 (mi_runtime_minutes i), mi_rating = mi_rating i,
       mi_content_rating = mi_content_rating i, mi_added_at = mi_added_at i,
       mi_external_provider = mi_external_provider i, mi_external_id = mi_external_id i\<rparr>)"

record pb_media_page =
  pmp_items :: "int32 media_item option list"
  pmp_next_page_token :: string
  pmp_total_count :: int32

record media_page =
  mpg_items :: "goint media_item list"
  mpg_next_page_token :: string
  mpg_total_count :: goint

definition ListLibraryMedia :: "(pb_media_query, pb_media_page) rpc \<Rightarrow> media_query \<Rightarrow> host_error + media_page" where
  "ListLibraryMedia rpc q = call rpc (Inr (media_query_build q))
     (\<lambda>p. \<lparr>mpg_items = map media_item_decode (pmp_items p), mpg_next_page_token = pmp_next_page_token p,
           mpg_total_count = int_of32 (pmp_total_count p)\<rparr>)"

record 'n type_count =
  tc_media_type :: string
  tc_count :: 'n

record 'n library_count =
  lc_library_id :: string
  lc_library_name :: string
  lc_media_type :: string
  lc_count :: 'n

record pb_catalog_stats =
  pcs_total_items :: int32
  pcs_media_type_counts :: "int32 type_count option list"
  pcs_library_counts :: "int32 library_count option list"

record catalog_stats =
  cst_total_items :: goint
  cst_media_type_counts :: "goint type_count list"
  cst_library_counts :: "goint library_count list"

definition GetCatalogStats :: "(string list, pb_catalog_stats) rpc \<Rightarrow> string list \<Rightarrow> host_error + catalog_stats" where
  "GetCatalogStats rpc libraryIDs = call rpc (Inr libraryIDs)
     (\<lambda>p. \<lparr>cst_total_items = int_of32 (pcs_total_items p),
           cst_media_type_counts = map (\<lambda>c. \<lparr>tc_media_type = getter tc_media_type [] c,
             tc_count = int_of32 (getter tc_count 0 c)\<rparr>) (pcs_media_type_counts p),
           cst_library_counts = map (\<lambda>c. \<lparr>lc_library_id = getter lc_library_id [] c,
             lc_library_name = getter lc_library_name [] c, lc_media_type = getter lc_media_type [] c,
             lc_count = int_of32 (getter lc_count 0 c)\<rparr>) (pcs_library_counts p)\<rparr>)"

record library_info =
  li_id :: string
  li_name :: string
  li_media_type :: string

definition ListLibraries :: "(string, library_info option list) rpc \<Rightarrow> string \<Rightarrow> host_error + library_info option list" where
  "ListLibraries rpc userID = call rpc (Inr userID) (\<lambda>p. p)"

subsection \<open>discovery.go\<close>

record installed_plugin =
  ip_installation_id :: int64
  ip_plugin_id :: string
  ip_version :: string
  ip_enabled :: bool
  ip_capabilities :: "capability_descriptor option list"

definition ListInstalledPlugins ::
  "(unit, installed_plugin option list) rpc \<Rightarrow> host_error + installed_plugin option list" where
  "ListInstalledPlugins rpc = call rpc (Inr ()) (\<lambda>p. p)"

text \<open>
  The result distinguishes no descriptor (the outer \<open>None\<close>) from a nil element of the list,
  which has the empty type and is never selected.
\<close>

fun first_of_type :: "string \<Rightarrow> capability_descriptor option list \<Rightarrow> capability_descriptor option" where
  "first_of_type t [] = None"
| "first_of_type t (c # cs) = (if GetType c = t then c else first_of_type t cs)"

definition Capability :: "installed_plugin option \<Rightarrow> string \<Rightarrow> capability_descriptor option" where
  "Capability plugin t =
     (case plugin of
        None \<Rightarrow> None
      | Some p \<Rightarrow> if t = [] then None else first_of_type t (ip_capabilities p))"

definition HasCapability :: "installed_plugin option \<Rightarrow> string \<Rightarrow> bool" where
  "HasCapability plugin t \<longleftrightarrow> Capability plugin t \<noteq> None"

fun select_plugins :: "string \<Rightarrow> installed_plugin option list \<Rightarrow> installed_plugin option list" where
  "select_plugins t [] = []"
| "select_plugins t (p # ps) = (if HasCapability p t then p # select_plugins t ps else select_plugins t ps)"

definition ListInstalledPluginsByCapability ::
  "(unit, installed_plugin option list) rpc \<Rightarrow> string \<Rightarrow> host_error + installed_plugin option list" where
  "ListInstalledPluginsByCapability rpc t =
     (case ListInstalledPlugins rpc of Inl e \<Rightarrow> Inl e | Inr ps \<Rightarrow> Inr (select_plugins t ps))"

definition CapabilityMetadata :: "codec \<Rightarrow> capability_descriptor option \<Rightarrow> any_map" where
  "CapabilityMetadata C d = (case GetMetadata d of None \<Rightarrow> [] | Some s \<Rightarrow> as_map C s)"

definition CapabilityMetadataString :: "codec \<Rightarrow> capability_descriptor option \<Rightarrow> string \<Rightarrow> string" where
  "CapabilityMetadataString C d key =
     (case map_of (CapabilityMetadata C d) key of Some (AnyString s) \<Rightarrow> s | _ \<Rightarrow> [])"

fun any_strings :: "gany list \<Rightarrow> string list" where
  "any_strings [] = []"
| "any_strings (AnyString s # xs) = s # any_strings xs"
| "any_strings (x # xs) = any_strings xs"

text \<open>\<open>None\<close> is the nil slice.\<close>

definition CapabilityMetadataStrings ::
  "codec \<Rightarrow> capability_descriptor option \<Rightarrow> string \<Rightarrow> string list option" where
  "CapabilityMetadataStrings C d key =
     (case map_of (CapabilityMetadata C d) key of Some (AnyList xs) \<Rightarrow> Some (any_strings xs) | _ \<Rightarrow> None)"

lemma first_of_type_Some:
  "t \<noteq> [] \<Longrightarrow> first_of_type t cs = Some c \<longleftrightarrow>
     (\<exists>pre post. cs = pre @ Some c # post \<and> cd_type c = t \<and> (\<forall>d\<in>set pre. GetType d \<noteq> t))"
proof (induction cs)
  case (Cons d cs)
  show ?case
  proof (cases "GetType d = t")
    case True
    then obtain e where "d = Some e" "cd_type e = t" using Cons.prems by (cases d) auto
    then show ?thesis by (auto simp: Cons_eq_append_conv)
  next
    case False
    then have "(\<exists>pre post. d # cs = pre @ Some c # post \<and> cd_type c = t \<and> (\<forall>d\<in>set pre. GetType d \<noteq> t))
        \<longleftrightarrow> (\<exists>pre post. cs = pre @ Some c # post \<and> cd_type c = t \<and> (\<forall>d\<in>set pre. GetType d \<noteq> t))"
      by (fastforce simp: Cons_eq_append_conv intro: exI [of _ "d # _"])
    with False Cons show ?thesis by simp
  qed
qed simp

lemma first_of_type_None: "t \<noteq> [] \<Longrightarrow> first_of_type t cs = None \<longleftrightarrow> (\<forall>d\<in>set cs. GetType d \<noteq> t)"
proof (induction cs)
  case (Cons d cs)
  then show ?case by (cases d) auto
qed simp

lemma HasCapability_iff:
  "HasCapability plugin t \<longleftrightarrow> t \<noteq> [] \<and> (\<exists>p. plugin = Some p \<and> (\<exists>c. Some c \<in> set (ip_capabilities p) \<and> cd_type c = t))"
proof (cases "plugin = None \<or> t = []")
  case False
  then obtain p where p: "plugin = Some p" and t: "t \<noteq> []" by auto
  have "(\<exists>d\<in>set cs. GetType d = t) \<longleftrightarrow> (\<exists>c. Some c \<in> set cs \<and> cd_type c = t)" for cs
  proof
    assume "\<exists>d\<in>set cs. GetType d = t"
    then obtain d where "d \<in> set cs" "GetType d = t" by blast
    with t show "\<exists>c. Some c \<in> set cs \<and> cd_type c = t" by (cases d) auto
  next
    assume "\<exists>c. Some c \<in> set cs \<and> cd_type c = t"
    then show "\<exists>d\<in>set cs. GetType d = t" by (auto intro: bexI [of _ "Some _"])
  qed
  with p t show ?thesis by (simp add: HasCapability_def Capability_def first_of_type_None)
qed (auto simp: HasCapability_def Capability_def split: option.splits)

lemma select_plugins_filter: "select_plugins t ps = filter (\<lambda>p. HasCapability p t) ps"
  by (induction ps) simp_all

subsection \<open>host_info.go\<close>

definition HostRoleAPI :: string where "HostRoleAPI = ''api''"
definition HostRoleProxy :: string where "HostRoleProxy = ''proxy''"
definition ListenerAPI :: string where "ListenerAPI = ''api''"
definition ListenerJellyfin :: string where "ListenerJellyfin = ''jellyfin''"
definition ListenerABS :: string where "ListenerABS = ''abs''"

record 'n listener =
  ln_name :: string
  ln_address :: string
  ln_default_port :: 'n

record 'l host_info_of =
  hi_public_base_url :: string
  hi_internal_base_url :: string
  hi_plugin_proxy_base_url :: string
  hi_host_role :: string
  hi_host_name :: string
  hi_node_id :: int64
  hi_ingress_token :: string
  hi_listeners :: "'l list"

type_synonym pb_host_info = "int32 listener option host_info_of"
type_synonym host_info = "goint listener host_info_of"

definition host_info_decode :: "pb_host_info \<Rightarrow> host_info" where
  "host_info_decode p =
     \<lparr>hi_public_base_url = hi_public_base_url p, hi_internal_base_url = hi_internal_base_url p,
      hi_plugin_proxy_base_url = hi_plugin_proxy_base_url p, hi_host_role = hi_host_role p,
      hi_host_name = hi_host_name p, hi_node_id = hi_node_id p, hi_ingress_token = hi_ingress_token p,
      hi_listeners = map (\<lambda>l. \<lparr>ln_name = getter ln_name [] l, ln_address = getter ln_address [] l,
        ln_default_port = int_of32 (getter ln_default_port 0 l)\<rparr>) (hi_listeners p)\<rparr>"

definition GetHostInfo :: "(unit, pb_host_info) rpc \<Rightarrow> host_error + host_info" where
  "GetHostInfo rpc = call rpc (Inr ()) host_info_decode"

text \<open>The result is the index of the element Go returns a pointer to, with the element.\<close>

fun find_listener :: "string \<Rightarrow> nat \<Rightarrow> goint listener list \<Rightarrow> (nat \<times> goint listener) option" where
  "find_listener name i [] = None"
| "find_listener name i (l # ls) = (if ln_name l = name then Some (i, l) else find_listener name (Suc i) ls)"

definition Listener :: "host_info option \<Rightarrow> string \<Rightarrow> (nat \<times> goint listener) option" where
  "Listener h name = (case h of None \<Rightarrow> None | Some h \<Rightarrow> find_listener name 0 (hi_listeners h))"

lemma find_listener_Some:
  "find_listener name i ls = Some (j, l) \<Longrightarrow>
     i \<le> j \<and> j - i < length ls \<and> ls ! (j - i) = l \<and> ln_name l = name \<and> (\<forall>k<j - i. ln_name (ls ! k) \<noteq> name)"
proof (induction name i ls rule: find_listener.induct)
  case (2 name i l0 ls)
  show ?case
  proof (cases "ln_name l0 = name")
    case False
    with 2 have IH: "Suc i \<le> j" "j - Suc i < length ls" "ls ! (j - Suc i) = l" "ln_name l = name"
      "\<forall>k<j - Suc i. ln_name (ls ! k) \<noteq> name" by auto
    then have "j - i = Suc (j - Suc i)" by simp
    with IH False show ?thesis by (auto simp: less_Suc_eq_0_disj)
  qed (use 2 in auto)
qed simp

lemma find_listener_None: "find_listener name i ls = None \<longleftrightarrow> (\<forall>l\<in>set ls. ln_name l \<noteq> name)"
  by (induction name i ls rule: find_listener.induct) auto

end
