(* ===== verification/Plugin_Mains.thy ===== *)
theory Plugin_Mains
  imports Plugin_Client Runtime_Host
begin

text \<open>
  The entry points of the example plugins: the manifest bootstrap \<open>loadManifest\<close> that three of
  them copy, the \<open>main\<close> functions, the Runtime servers they write themselves, and the handlers of
  \<open>hello-runtime-host\<close>, \<open>hello-scheduled-task\<close> and \<open>compat-probe\<close>. The embedded
  \<open>manifest.json\<close> is a byte string; \<open>target\<close> is \<open>GOOS\<close> and \<open>GOARCH\<close> of the
  build. \<open>hello-storage\<close> packs its book with \<open>archive/zip\<close>, a parameter of \<open>newProvider\<close>.
\<close>

subsection \<open>loadManifest\<close>

definition default_platforms :: "supported_platform \<Rightarrow> plugin_manifest \<Rightarrow> plugin_manifest" where
  "default_platforms target m =
     (if pm_supported_platforms m = [] then m\<lparr>pm_supported_platforms := [Some target]\<rparr> else m)"

definition loadManifest ::
  "ext \<Rightarrow> platform \<Rightarrow> supported_platform \<Rightarrow> string \<Rightarrow> plugin_manifest outcome" where
  "loadManifest X P target manifestJSON =
     (case Load X P manifestJSON of
        Failed e \<Rightarrow> Failed e
      | Panicked \<Rightarrow> Panicked
      | Returned m \<Rightarrow>
          (case executable P of
             None \<Rightarrow> Failed ResolveExecutable
           | Some executablePath \<Rightarrow>
               (case read_file P executablePath of
                  None \<Rightarrow> Failed (ReadExecutable executablePath)
                | Some binaryData \<Rightarrow>
                    Returned (default_platforms target
                      (m\<lparr>pm_checksum := hex_encode (sha256 P binaryData)\<rparr>)))))"

text \<open>The copies in the scan source and the scheduled task example.\<close>

definition scan_loadManifest ::
  "ext \<Rightarrow> platform \<Rightarrow> supported_platform \<Rightarrow> string \<Rightarrow> plugin_manifest outcome" where
  "scan_loadManifest = loadManifest"

definition task_loadManifest ::
  "ext \<Rightarrow> platform \<Rightarrow> supported_platform \<Rightarrow> string \<Rightarrow> plugin_manifest outcome" where
  "task_loadManifest = loadManifest"

lemma bind_Returned:
  "(case x of Returned a \<Rightarrow> f a | Failed e \<Rightarrow> Failed e | Panicked \<Rightarrow> Panicked) = Returned r
     \<longleftrightarrow> (\<exists>a. x = Returned a \<and> f a = Returned r)"
  by (cases x) simp_all

lemma loadManifest_Returned:
  "loadManifest X P target data = Returned m \<longleftrightarrow>
     (\<exists>m0 exe bin. protojson P data = Some m0 \<and> manifest_ok X m0 \<and> executable P = Some exe
        \<and> read_file P exe = Some bin
        \<and> m = default_platforms target (m0\<lparr>pm_checksum := hex_encode (sha256 P bin)\<rparr>))"
  unfolding loadManifest_def bind_Returned
  by (cases "executable P"; cases "read_file P (the (executable P))") (auto simp: Load_Returned)

lemma manifest_ok_default_platforms: "manifest_ok X (default_platforms target m) = manifest_ok X m"
  by (simp add: default_platforms_def Validate_Accept [symmetric] Validate_other_fields)

lemma default_platforms_named: "pm_supported_platforms (default_platforms target m) \<noteq> []"
  by (simp add: default_platforms_def)

lemma manifest_ok_checksum: "manifest_ok X (m\<lparr>pm_checksum := c\<rparr>) = manifest_ok X m"
  by (simp add: Validate_Accept [symmetric] Validate_other_fields)

subsection \<open>The Runtime servers of the examples\<close>

text \<open>
  \<open>runtimeServer\<close> of \<open>hello-runtime-host\<close> embeds \<open>runtimedefault.Server\<close>, so it handles
  \<open>BindHostBroker\<close>; in the other examples it embeds the generated \<open>Unimplemented\<close> server,
  which answers every other method of the service with that error (\<open>None\<close>).
\<close>

record runtimeServer =
  rs_manifest :: plugin_manifest
  rs_binds :: bool

definition rs_GetManifest :: "runtimeServer \<Rightarrow> plugin_manifest option" where
  "rs_GetManifest s = Some (rs_manifest s)"

definition scan_GetManifest :: "runtimeServer \<Rightarrow> plugin_manifest option" where
  "scan_GetManifest s = Some (rs_manifest s)"

definition task_GetManifest :: "runtimeServer \<Rightarrow> plugin_manifest option" where
  "task_GetManifest s = Some (rs_manifest s)"

text \<open>\<open>runtimedefault.Server\<close>.\<close>

definition default_BindHostBroker :: "dialer \<Rightarrow> uint32 \<Rightarrow> host_state \<Rightarrow> attempt list \<times> host_state" where
  "default_BindHostBroker dial broker_id h = SetHostBrokerID dial broker_id h"

definition rs_BindHostBroker ::
  "runtimeServer \<Rightarrow> dialer \<Rightarrow> uint32 \<Rightarrow> host_state \<Rightarrow> (attempt list \<times> host_state) option" where
  "rs_BindHostBroker s dial broker_id h =
     (if rs_binds s then Some (default_BindHostBroker dial broker_id h) else None)"

subsection \<open>Handlers\<close>

text \<open>The request \<open>hello-runtime-host\<close> publishes, and its task. \<open>rpc c\<close> is \<open>PublishEvent\<close> over \<open>c\<close>.\<close>

definition ping_payload :: any_map where
  "ping_payload = [(''message'', AnyString ''hello'')]"

definition host_task_Run ::
  "codec \<Rightarrow> dialer \<Rightarrow> (conn \<Rightarrow> (event_request, unit) rpc) \<Rightarrow> host_state
   \<Rightarrow> (host_error + unit) \<times> conn option \<times> attempt list \<times> host_state" where
  "host_task_Run C dial rpc h =
     (let (client, log, h') = Host dial h in
      case client of
        None \<Rightarrow> (Inr (), client, log, h')
      | Some c \<Rightarrow> (PublishEvent C (rpc c) ''ping'' ping_payload, client, log, h'))"

definition task_Run :: "host_error + unit" where "task_Run = Inr ()"

definition probe_Search :: "host_error + unit" where "probe_Search = Inr ()"

subsection \<open>main\<close>

datatype main_result = ExitOne | MainPanics | Ran serve_result

text \<open>A server of an example: it implements one service and is not a nil pointer.\<close>

definition example_server :: "nat \<Rightarrow> service \<Rightarrow> gserver" where
  "example_server i svc = \<lparr>srv_id = i, srv_implements = [svc], srv_nil_pointer = False\<rparr>"

definition example_runtime :: runtime_server where
  "example_runtime = PluginRuntime (example_server 0 RuntimeService)"

text \<open>In a process whose Runtime server is \<open>s\<close>, \<open>GetManifest\<close> is that server's.\<close>

definition with_runtime :: "serve_env \<Rightarrow> runtimeServer \<Rightarrow> serve_env" where
  "with_runtime E s = E\<lparr>plugin_get_manifest := (\<lambda>_. Some (rs_GetManifest s))\<rparr>"

definition runtime_host_main ::
  "ext \<Rightarrow> platform \<Rightarrow> serve_env \<Rightarrow> supported_platform \<Rightarrow> string \<Rightarrow> string list \<Rightarrow> main_result" where
  "runtime_host_main X P E target manifestJSON args =
     (case loadManifest X P target manifestJSON of
        Returned m \<Rightarrow> Ran (Serve (with_runtime E \<lparr>rs_manifest = m, rs_binds = True\<rparr>) args
          \<lparr>sc_Plugins = [], sc_Servers = no_servers\<lparr>cs_Runtime := Some example_runtime,
             cs_ScheduledTask := Some (example_server 1 ScheduledTaskService)\<rparr>\<rparr>)
      | Panicked \<Rightarrow> MainPanics
      | Failed e \<Rightarrow> ExitOne)"

definition scheduled_task_main ::
  "ext \<Rightarrow> platform \<Rightarrow> serve_env \<Rightarrow> supported_platform \<Rightarrow> string \<Rightarrow> string list \<Rightarrow> main_result" where
  "scheduled_task_main X P E target manifestJSON args =
     (case task_loadManifest X P target manifestJSON of
        Returned m \<Rightarrow> Ran (Serve (with_runtime E \<lparr>rs_manifest = m, rs_binds = False\<rparr>) args
          \<lparr>sc_Plugins = [], sc_Servers = no_servers\<lparr>cs_Runtime := Some example_runtime,
             cs_ScheduledTask := Some (example_server 1 ScheduledTaskService)\<rparr>\<rparr>)
      | _ \<Rightarrow> MainPanics)"

definition scan_source_main ::
  "ext \<Rightarrow> platform \<Rightarrow> serve_env \<Rightarrow> supported_platform \<Rightarrow> string \<Rightarrow> string list \<Rightarrow> main_result" where
  "scan_source_main X P E target manifestJSON args =
     (case scan_loadManifest X P target manifestJSON of
        Returned m \<Rightarrow> Ran (Serve (with_runtime E \<lparr>rs_manifest = m, rs_binds = False\<rparr>) args
          \<lparr>sc_Plugins = [], sc_Servers = no_servers\<lparr>cs_Runtime := Some example_runtime,
             cs_ScanSource := Some (example_server 1 ScanSourceService)\<rparr>\<rparr>)
      | _ \<Rightarrow> MainPanics)"

definition of_serve :: "serve_result option \<Rightarrow> main_result" where
  "of_serve r = (case r of None \<Rightarrow> MainPanics | Some s \<Rightarrow> Ran s)"

definition network_access_main :: "ext \<Rightarrow> platform \<Rightarrow> serve_env \<Rightarrow> string \<Rightarrow> string list \<Rightarrow> main_result" where
  "network_access_main X P E manifestJSON args =
     of_serve (ServeManifest X P E args manifestJSON ''0.1.0''
       (no_servers\<lparr>cs_NetworkAccessProvider := Some (example_server 1 NetworkAccessProviderService)\<rparr>))"

definition compat_probe_main :: "ext \<Rightarrow> platform \<Rightarrow> serve_env \<Rightarrow> string \<Rightarrow> string list \<Rightarrow> main_result" where
  "compat_probe_main X P E manifestJSON args =
     of_serve (ServeManifest X P E args manifestJSON ''0.13.2''
       (no_servers\<lparr>cs_MetadataProvider := Some (example_server 1 MetadataProviderService)\<rparr>))"

subsection \<open>hello-storage\<close>

text \<open>
  \<open>archive/zip\<close>'s writer with state \<open>'w\<close>: a new header with method \<open>Store\<close>, data for the last
  header, and closing, which yields the bytes of the archive. \<open>None\<close> is an error.
\<close>

record 'w zip_writer =
  zw_new :: 'w
  zw_create :: "'w \<Rightarrow> string \<Rightarrow> 'w option"
  zw_write :: "'w \<Rightarrow> string \<Rightarrow> 'w option"
  zw_close :: "'w \<Rightarrow> string option"

definition book_entries :: "(string \<times> string) list" where
  "book_entries =
     [(''mimetype'', ''application/epub+zip''),
      (''META-INF/container.xml'', ''<container><rootfile full-path=\"book.opf\"/></container>''),
      (''book.opf'', ''<package xmlns=\"http://www.idpf.org/2007/opf\" version=\"3.0\" unique-identifier=\"id\"><metadata xmlns:dc=\"http://purl.org/dc/elements/1.1/\"><dc:identifier id=\"id\">fixture</dc:identifier><dc:title>Storage Fixture</dc:title><dc:language>en</dc:language></metadata><manifest><item id=\"body\" href=\"OEBPS/body.xhtml\" media-type=\"application/xhtml+xml\"/></manifest><spine><itemref idref=\"body\"/></spine></package>''),
      (''OEBPS/body.xhtml'', ''<html xmlns=\"http://www.w3.org/1999/xhtml\"><head><title>Fixture</title></head><body><p>Native storage fixture.</p></body></html>''),
      (''OEBPS/payload.bin'', replicate (5 * 2 ^ 20) (CHR ''x''))]"

fun write_entries :: "'w zip_writer \<Rightarrow> 'w \<Rightarrow> (string \<times> string) list \<Rightarrow> 'w option" where
  "write_entries Z w [] = Some w"
| "write_entries Z w ((name, data) # entries) =
     (case zw_create Z w name of
        None \<Rightarrow> None
      | Some w1 \<Rightarrow>
          (case zw_write Z w1 data of
             None \<Rightarrow> None
           | Some w2 \<Rightarrow> write_entries Z w2 entries))"

text \<open>The book of the provider.\<close>

definition newProvider :: "'w zip_writer \<Rightarrow> string option" where
  "newProvider Z =
     (case write_entries Z (zw_new Z) book_entries of
        None \<Rightarrow> None
      | Some w \<Rightarrow> zw_close Z w)"

definition storage_main ::
  "'w zip_writer \<Rightarrow> ext \<Rightarrow> platform \<Rightarrow> serve_env \<Rightarrow> string \<Rightarrow> string list \<Rightarrow> main_result" where
  "storage_main Z X P E manifestJSON args =
     (case newProvider Z of
        None \<Rightarrow> MainPanics
      | Some book \<Rightarrow>
          of_serve (ServeManifestWithOptions X P E args manifestJSON ''0.1.0'' no_servers
            [Some (WithStorageProvider (Some (example_server 1 StorageProviderService)))]))"

subsection \<open>Plugins without an AuthProvider\<close>

text \<open>Whether a manifest promises an auth service, and a process that registers exactly \<open>regs\<close>.\<close>

definition declares_auth :: "plugin_manifest \<Rightarrow> bool" where
  "declares_auth m \<longleftrightarrow>
     (\<exists>d\<in>set (pm_capabilities m). AuthProviderSupportsConnectionTest d \<or> AuthProviderUsesNetworkIdentity d)"

definition serves_exactly :: "main_result \<Rightarrow> registrations \<Rightarrow> bool" where
  "serves_exactly r regs \<longleftrightarrow>
     (\<exists>p. r = Ran (ServePlugins HandshakeConfig [(PluginSetName, p)]) \<and> (\<forall>b h. GRPCServer p b (h, []) = (True, setBroker b h, regs)))"

definition manifest_server :: "plugin_manifest \<Rightarrow> serve_options \<Rightarrow> runtime_server" where
  "manifest_server m o1 = ManifestRuntime \<lparr>mr_manifest = Some m, mr_configure = so_configure o1\<rparr>"

lemma serve_without_auth:
  assumes "LoadWithChecksum X P data v = Returned m" and "cs_AuthProvider s = None"
    and "so_authProviderChecks (resolved options) = None" and "so_networkIdentityAuth (resolved options) = None"
    and "r = of_serve (ServeManifestWithOptions X P E [prog] data v s options)"
  shows "if declares_auth m then r = MainPanics
    else serves_exactly r (present (service_table
      (s\<lparr>cs_Runtime := Some (manifest_server m (resolved options))\<rparr>) (resolved options)))"
proof -
  have none: "auth_service svc s (resolved options) = None" for svc
    using assms(2-4) by (simp add: auth_service_def resolveAuthService_def isNilServer_def)
  have ok: "startup_ok False False (pm_capabilities m) \<longleftrightarrow> \<not> declares_auth m"
    by (auto simp: startup_ok_def declares_auth_def)
  let ?s = "s\<lparr>cs_Runtime := Some (manifest_server m (resolved options))\<rparr>"
  have char: "manifestServeConfig (Some m) s options = Inr cfg \<longleftrightarrow>
      \<not> declares_auth m \<and> cfg = \<lparr>sc_Plugins = manifestPluginSet ?s (resolved options), sc_Servers = ?s\<rparr>" for cfg
    by (simp add: manifestServeConfig_Inr Let_def none ok manifest_server_def)
  show ?thesis
  proof (cases "manifestServeConfig (Some m) s options")
    case (Inl e)
    with char have "declares_auth m" by (metis Inl_Inr_False)
    with Inl assms(1,5) show ?thesis by (simp add: ServeManifestWithOptions_def of_serve_def)
  next
    case (Inr cfg)
    obtain p where "manifestPluginSet ?s (resolved options) = [(PluginSetName, p)]"
      and "\<And>b h. GRPCServer p b (h, []) = (True, setBroker b h, present (service_table ?s (resolved options)))"
      using manifestPluginSet_registers [of ?s _ "resolved options"] by auto
    with Inr assms(1,5) char [of cfg] show ?thesis
      by (simp add: serves_exactly_def of_serve_def ServeManifestWithOptions_def Serve_def)
  qed
qed

end
