(* ===== verification/Monitor.thy ===== *)
theory Monitor
  imports Prelude
begin

text \<open>
  Goroutines that share a state under one \<open>sync.Mutex\<close>. A goroutine that calls a method waits for the
  mutex, runs the statements of the method one at a time, and unlocks on return; between two of
  its statements any other goroutine may run. The model does not assume that only the holder of the mutex runs
  statements: that is proved.

  \<^item> \<open>enter m\<close> is the first statement of method \<open>m\<close> after \<open>Lock\<close>,
  \<^item> \<open>exec (pc, s) (pc', s')\<close> runs the statement \<open>pc\<close>,
  \<^item> \<open>finished pc\<close> says that only the deferred \<open>Unlock\<close> is left; its value is the call as an event of the
    specification, with the results the method returns.

  The locale \<open>monitor\<close> takes an assertion for each statement and gives that the calls, in the
  order of their returns, are a run of the specification in which every method is one step.
\<close>

type_synonym goroutine_id = nat

datatype ('m, 'pc) goroutine = Calling 'm | Inside 'm 'pc

record ('s, 'm, 'pc) process =
  shared :: 's
  holder :: "goroutine_id option"
  goroutines :: "goroutine_id \<rightharpoonup> ('m, 'pc) goroutine"

definition idle :: "'s \<Rightarrow> ('s, 'm, 'pc) process" where
  "idle s = \<lparr>shared = s, holder = None, goroutines = Map.empty\<rparr>"

datatype ('m, 'e) activity =
    Called goroutine_id 'm
  | Locked goroutine_id
  | Executed goroutine_id
  | Answered goroutine_id 'e

inductive monitor_step ::
  "('m \<Rightarrow> 'pc) \<Rightarrow> ('pc \<times> 's \<Rightarrow> 'pc \<times> 's \<Rightarrow> bool) \<Rightarrow> ('pc \<Rightarrow> 'e option)
   \<Rightarrow> ('s, 'm, 'pc) process \<Rightarrow> ('m, 'e) activity \<Rightarrow> ('s, 'm, 'pc) process \<Rightarrow> bool"
  for enter exec finished
where
  call: "goroutines P g = None \<Longrightarrow>
     monitor_step enter exec finished P (Called g m) (P\<lparr>goroutines := (goroutines P)(g \<mapsto> Calling m)\<rparr>)"
| lock: "goroutines P g = Some (Calling m) \<Longrightarrow> holder P = None \<Longrightarrow>
     monitor_step enter exec finished P (Locked g)
       (P\<lparr>holder := Some g, goroutines := (goroutines P)(g \<mapsto> Inside m (enter m))\<rparr>)"
| execute: "goroutines P g = Some (Inside m pc) \<Longrightarrow> exec (pc, shared P) (pc', s') \<Longrightarrow>
     monitor_step enter exec finished P (Executed g)
       (P\<lparr>shared := s', goroutines := (goroutines P)(g \<mapsto> Inside m pc')\<rparr>)"
| return: "goroutines P g = Some (Inside m pc) \<Longrightarrow> finished pc = Some e \<Longrightarrow>
     monitor_step enter exec finished P (Answered g e)
       (P\<lparr>holder := None, goroutines := (goroutines P)(g := None)\<rparr>)"

inductive_cases CalledE: "monitor_step enter exec finished P (Called g m) Q"
inductive_cases LockedE: "monitor_step enter exec finished P (Locked g) Q"
inductive_cases ExecutedE: "monitor_step enter exec finished P (Executed g) Q"
inductive_cases AnsweredE: "monitor_step enter exec finished P (Answered g e) Q"

text \<open>What a trace says: the returned calls in order, and the calls that have not returned.\<close>

fun returned :: "('m, 'e) activity \<Rightarrow> 'e list" where
  "returned (Answered g e) = [e]"
| "returned _ = []"

definition returns :: "('m, 'e) activity list \<Rightarrow> 'e list" where
  "returns tr = concat (map returned tr)"

fun open_call :: "(goroutine_id \<rightharpoonup> 'm) \<Rightarrow> ('m, 'e) activity \<Rightarrow> goroutine_id \<rightharpoonup> 'm" where
  "open_call c (Called g m) = c(g \<mapsto> m)"
| "open_call c (Answered g e) = c(g := None)"
| "open_call c _ = c"

definition open_calls :: "('m, 'e) activity list \<Rightarrow> goroutine_id \<rightharpoonup> 'm" where
  "open_calls tr = foldl open_call Map.empty tr"

lemma returns_simps [simp]:
  "returns [] = []"
  "returns (tr @ tr') = returns tr @ returns tr'"
  "returns (a # tr) = returned a @ returns tr"
  by (simp_all add: returns_def)

lemma open_calls_simps [simp]:
  "open_calls [] = Map.empty"
  "open_calls (tr @ [a]) = open_call (open_calls tr) a"
  by (simp_all add: open_calls_def)

lemma open_calls_called: "open_calls tr g = Some m \<Longrightarrow> Called g m \<in> set tr"
proof (induction tr rule: rev_induct)
  case (snoc a tr)
  then show ?case by (cases a) (auto split: if_splits)
qed simp

lemma returns_iff: "e \<in> set (returns tr) \<longleftrightarrow> (\<exists>g. Answered g e \<in> set tr)"
proof (induction tr)
  case (Cons a tr)
  then show ?case by (cases a) auto
qed simp

lemma open_calls_executed: "open_calls (tr @ replicate n (Executed h)) = open_calls tr"
proof (induction n arbitrary: tr)
  case (Suc n)
  from Suc.IH [of "tr @ [Executed h]"] show ?case by simp
qed simp

fun called_method :: "('m, 'pc) goroutine \<Rightarrow> 'm" where
  "called_method (Calling m) = m"
| "called_method (Inside m pc) = m"

text \<open>
  Executing a schedule with a fixed outcome of every statement, \<open>next pc s\<close>: the result is \<open>None\<close> when the schedule
  asks for a step that is not possible.
\<close>

fun perform ::
  "('m \<Rightarrow> 'pc) \<Rightarrow> ('pc \<Rightarrow> 's \<Rightarrow> 'pc \<times> 's) \<Rightarrow> ('pc \<Rightarrow> 'e option) \<Rightarrow> ('m, 'e) activity
   \<Rightarrow> ('s, 'm, 'pc) process \<Rightarrow> ('s, 'm, 'pc) process option"
where
  "perform enter nxt finished (Called g m) P =
     (case goroutines P g of
        None \<Rightarrow> Some (P\<lparr>goroutines := (goroutines P)(g \<mapsto> Calling m)\<rparr>)
      | Some _ \<Rightarrow> None)"
| "perform enter nxt finished (Locked g) P =
     (case (holder P, goroutines P g) of
        (None, Some (Calling m)) \<Rightarrow>
          Some (P\<lparr>holder := Some g, goroutines := (goroutines P)(g \<mapsto> Inside m (enter m))\<rparr>)
      | _ \<Rightarrow> None)"
| "perform enter nxt finished (Executed g) P =
     (case goroutines P g of
        Some (Inside m pc) \<Rightarrow>
          (case finished pc of
             None \<Rightarrow> (case nxt pc (shared P) of (pc', s') \<Rightarrow>
                Some (P\<lparr>shared := s', goroutines := (goroutines P)(g \<mapsto> Inside m pc')\<rparr>))
           | Some e \<Rightarrow> None)
      | _ \<Rightarrow> None)"
| "perform enter nxt finished (Answered g e) P =
     (case goroutines P g of
        Some (Inside m pc) \<Rightarrow>
          if finished pc = Some e then Some (P\<lparr>holder := None, goroutines := (goroutines P)(g := None)\<rparr>) else None
      | _ \<Rightarrow> None)"

lemma perform_sound:
  assumes "perform enter nxt finished a P = Some Q"
    and "\<And>pc s. finished pc = None \<Longrightarrow> exec (pc, s) (nxt pc s)"
  shows "monitor_step enter exec finished P a Q"
proof (cases a)
  case (Executed g)
  with assms(1) obtain m pc where g: "goroutines P g = Some (Inside m pc)" "finished pc = None"
    by (auto split: option.splits goroutine.splits)
  obtain pc' s' where n: "nxt pc (shared P) = (pc', s')" by fastforce
  with assms(1) Executed g have "Q = P\<lparr>shared := s', goroutines := (goroutines P)(g \<mapsto> Inside m pc')\<rparr>" by simp
  with execute [OF g(1), of exec pc' s' enter finished] assms(2) [OF g(2), of "shared P"] n Executed show ?thesis by simp
qed (use assms(1) in \<open>auto intro: monitor_step.intros split: option.splits goroutine.splits if_splits\<close>)

fun schedule ::
  "('a \<Rightarrow> 'p \<Rightarrow> 'p option) \<Rightarrow> 'a list \<Rightarrow> 'p \<Rightarrow> 'p option" where
  "schedule act [] P = Some P"
| "schedule act (a # tr) P = Option.bind (act a P) (schedule act tr)"

lemma schedule_run:
  assumes "schedule act tr P = Some Q" and "\<And>a P Q. act a P = Some Q \<Longrightarrow> step P a Q"
  shows "run step P tr Q"
  using assms(1)
proof (induction tr arbitrary: P)
  case (Cons a tr)
  then obtain R where "act a P = Some R" "schedule act tr R = Some Q" by (auto simp: Option.bind_eq_Some_conv)
  with Cons.IH [OF this(2)] assms(2) [OF this(1)] show ?case unfolding run_Cons by blast
qed simp

locale monitor =
  fixes enter :: "'m \<Rightarrow> 'pc"
    and exec :: "'pc \<times> 's \<Rightarrow> 'pc \<times> 's \<Rightarrow> bool"
    and finished :: "'pc \<Rightarrow> 'e option"
    and atomic :: "'s \<Rightarrow> 'e \<Rightarrow> 's \<Rightarrow> bool"
    and answers :: "'m \<Rightarrow> 'e \<Rightarrow> bool"
    and at :: "'m \<Rightarrow> 's \<Rightarrow> 'pc \<Rightarrow> 's \<Rightarrow> bool"
  assumes at_enter: "at m s (enter m) s"
    and at_exec: "at m s pc t \<Longrightarrow> exec (pc, t) (pc', t') \<Longrightarrow> at m s pc' t'"
    and at_finished: "at m s pc t \<Longrightarrow> finished pc = Some e \<Longrightarrow> atomic s e t \<and> answers m e"
begin

text \<open>
  The invariant: the goroutines inside a critical section are the holder of the mutex, and the shared state is
  the one the returned calls left, as far as the holder has changed it.
\<close>

definition linear :: "'s \<Rightarrow> ('m, 'e) activity list \<Rightarrow> ('s, 'm, 'pc) process \<Rightarrow> bool" where
  "linear s0 tr P \<longleftrightarrow>
     open_calls tr = map_option called_method \<circ> goroutines P
     \<and> (\<forall>g m pc. goroutines P g = Some (Inside m pc) \<longrightarrow> holder P = Some g)
     \<and> (\<exists>u. run atomic s0 (returns tr) u
          \<and> (case holder P of
               None \<Rightarrow> shared P = u
             | Some g \<Rightarrow> \<exists>m pc. goroutines P g = Some (Inside m pc) \<and> at m u pc (shared P)))"

lemma linear_idle: "linear s0 [] (idle s0)"
  by (auto simp: linear_def idle_def fun_eq_iff)

lemma linear_inside:
  assumes "linear s0 tr P" and "goroutines P g = Some (Inside m pc)"
  shows "holder P = Some g" and "open_calls tr g = Some m"
    and "\<exists>u. run atomic s0 (returns tr) u \<and> at m u pc (shared P)"
proof -
  show h: "holder P = Some g" using assms by (simp add: linear_def)
  show "open_calls tr g = Some m" using assms by (simp add: linear_def)
  show "\<exists>u. run atomic s0 (returns tr) u \<and> at m u pc (shared P)"
    using assms h by (auto simp: linear_def)
qed

lemma linear_step:
  assumes "linear s0 tr P" and "monitor_step enter exec finished P a Q"
  shows "linear s0 (tr @ [a]) Q"
  using assms(2)
proof cases
  case (call g m)
  then show ?thesis using assms(1)
    by (auto simp: linear_def fun_eq_iff split: option.splits)
next
  case (lock g m)
  then show ?thesis using assms(1)
    by (auto simp: linear_def fun_eq_iff at_enter)
next
  case (execute g m pc pc' s')
  then show ?thesis using assms(1)
    by (fastforce simp: linear_def fun_eq_iff intro: at_exec)
next
  case (return g m pc e)
  from linear_inside [OF assms(1) return(3)] at_finished [OF _ return(4)] obtain u
    where u: "run atomic s0 (returns tr) u" "atomic u e (shared P)" and h: "holder P = Some g" by blast
  then have "run atomic s0 (returns (tr @ [a])) (shared P)"
    using return(1) by (auto simp: run_snoc_iff)
  with assms(1) h show ?thesis
    by (auto simp: linear_def return(1,2) fun_eq_iff)
qed

end

sublocale monitor \<subseteq> interleaved: safe_system "monitor_step enter exec finished" "idle s0" "linear s0" for s0
  by unfold_locales (auto intro: linear_idle linear_step)

context monitor begin

lemma linearizable:
  assumes "run (monitor_step enter exec finished) (idle s0) tr P"
  shows "\<exists>u. run atomic s0 (returns tr) u \<and> (holder P = None \<longrightarrow> shared P = u)"
  using interleaved.Inv_run [OF assms] by (auto simp: linear_def split: option.splits)

lemma mutual_exclusion:
  assumes "run (monitor_step enter exec finished) (idle s0) tr P"
    and "goroutines P g = Some (Inside m pc)" and "goroutines P g' = Some (Inside m' pc')"
  shows "g = g'"
  using linear_inside(1) [OF interleaved.Inv_run [OF assms(1)] assms(2)]
    linear_inside(1) [OF interleaved.Inv_run [OF assms(1)] assms(3)] by simp

lemma return_answers:
  assumes "run (monitor_step enter exec finished) (idle s0) (tr @ [Answered g e]) P"
  shows "\<exists>m. open_calls tr g = Some m \<and> answers m e"
proof -
  obtain Q where Q: "run (monitor_step enter exec finished) (idle s0) tr Q"
    and step: "monitor_step enter exec finished Q (Answered g e) P"
    using assms by (auto simp: run_snoc_iff)
  from step obtain m pc where g: "goroutines Q g = Some (Inside m pc)" "finished pc = Some e"
    by (rule AnsweredE)
  with linear_inside(2,3) [OF interleaved.Inv_run [OF Q] g(1)] show ?thesis
    by (blast dest: at_finished)
qed

text \<open>A call stays open until it is answered.\<close>

lemma still_open:
  assumes "run (monitor_step enter exec finished) P tr' P'" and "linear s0 tr P"
    and "open_calls tr g = Some m" and "\<forall>e. Answered g e \<notin> set tr'"
  shows "open_calls (tr @ tr') g = Some m"
  using assms
proof (induction rule: run.induct)
  case (run_snoc P tr' Q a R)
  then have o: "open_calls (tr @ tr') g = Some m" by simp
  have "linear s0 (tr @ tr') Q" using interleaved.Inv_run_from [OF run_snoc.hyps(1)] run_snoc.prems(1) by blast
  with o have "goroutines Q g \<noteq> None" by (auto simp: linear_def)
  with run_snoc.hyps(2) run_snoc.prems(3) o open_calls_simps(2) [of "tr @ tr'" a] show ?case
    by (cases a) (auto elim: CalledE)
qed simp

text \<open>Every answer is that of a call of the trace.\<close>

lemma answer_of_call:
  assumes "run (monitor_step enter exec finished) (idle s0) tr P" and "Answered g e \<in> set tr"
  shows "\<exists>m. Called g m \<in> set tr \<and> answers m e"
proof -
  obtain tr1 tr2 where tr: "tr = (tr1 @ [Answered g e]) @ tr2" using assms(2) by (auto dest: split_list)
  with assms(1) obtain Q where "run (monitor_step enter exec finished) (idle s0) (tr1 @ [Answered g e]) Q"
    by (auto simp only: run_append)
  from return_answers [OF this] obtain m where m: "open_calls tr1 g = Some m" "answers m e" by blast
  from open_calls_called [OF m(1)] have "Called g m \<in> set tr" by (simp add: tr)
  with m(2) show ?thesis by blast
qed

end

text \<open>
  Methods that end: every statement that is not the last can run, and brings the end closer. Then a
  goroutine that waits can always be let in, and its call returns.
\<close>

locale live_monitor = monitor +
  fixes left :: "'b \<Rightarrow> nat"
  assumes exec_enabled: "at m s pc t \<Longrightarrow> finished pc = None \<Longrightarrow> \<exists>pc' t'. exec (pc, t) (pc', t')"
    and exec_closer: "exec (pc, t) (pc', t') \<Longrightarrow> left pc' < left pc"
begin

lemma holder_returns:
  assumes "goroutines P g = Some (Inside m pc)" and "at m u pc (shared P)"
  shows "\<exists>n e Q. run (monitor_step enter exec finished) P (replicate n (Executed g) @ [Answered g e]) Q
    \<and> n \<le> left pc \<and> holder Q = None \<and> goroutines Q = (goroutines P)(g := None)"
  using assms
proof (induction "left pc" arbitrary: P pc rule: less_induct)
  case less
  show ?case
  proof (cases "finished pc")
    case (Some e)
    let ?Q = "P\<lparr>holder := None, goroutines := (goroutines P)(g := None)\<rparr>"
    have "monitor_step enter exec finished P (Answered g e) ?Q"
      using less.prems(1) Some by (rule monitor_step.return)
    then have "run (monitor_step enter exec finished) P (replicate 0 (Executed g) @ [Answered g e]) ?Q"
      by (simp add: run_Cons)
    then show ?thesis by fastforce
  next
    case None
    with less.prems obtain pc' t' where ex: "exec (pc, shared P) (pc', t')"
      using exec_enabled by blast
    let ?P = "P\<lparr>shared := t', goroutines := (goroutines P)(g \<mapsto> Inside m pc')\<rparr>"
    have "goroutines ?P g = Some (Inside m pc')" "at m u pc' (shared ?P)"
      using at_exec [OF less.prems(2) ex] by simp_all
    from less.hyps [OF exec_closer [OF ex] this] obtain n e Q
      where r: "run (monitor_step enter exec finished) ?P (replicate n (Executed g) @ [Answered g e]) Q" "n \<le> left pc'"
        "holder Q = None" "goroutines Q = (goroutines ?P)(g := None)" by blast
    have "monitor_step enter exec finished P (Executed g) ?P"
      using less.prems(1) ex by (rule monitor_step.execute)
    with r(1) have "run (monitor_step enter exec finished) P (replicate (Suc n) (Executed g) @ [Answered g e]) Q"
      by (auto simp: run_Cons)
    moreover have "Suc n \<le> left pc" using r(2) exec_closer [OF ex] by simp
    moreover have "goroutines Q = (goroutines P)(g := None)" using r(4) by simp
    ultimately show ?thesis using r(3) by blast
  qed
qed

lemma mutex_freed:
  assumes "linear s0 tr P" and "goroutines P g = Some (Calling m)"
  shows "\<exists>tr' Q. run (monitor_step enter exec finished) P tr' Q \<and> holder Q = None
    \<and> goroutines Q g = Some (Calling m) \<and> open_calls (tr @ tr') g = open_calls tr g"
proof (cases "holder P")
  case None
  with assms(2) have "run (monitor_step enter exec finished) P [] P \<and> holder P = None
    \<and> goroutines P g = Some (Calling m) \<and> open_calls (tr @ []) g = open_calls tr g" by simp
  then show ?thesis by blast
next
  case (Some h)
  with assms(1) obtain u m' pc where h: "goroutines P h = Some (Inside m' pc)" "at m' u pc (shared P)"
    by (auto simp: linear_def)
  from holder_returns [OF this] obtain n e Q
    where r: "run (monitor_step enter exec finished) P (replicate n (Executed h) @ [Answered h e]) Q" "holder Q = None"
      "goroutines Q = (goroutines P)(h := None)" by blast
  have "g \<noteq> h" using h(1) assms(2) by auto
  moreover have "open_calls (tr @ replicate n (Executed h) @ [Answered h e]) = (open_calls tr)(h := None)"
    using open_calls_simps(2) [of "tr @ replicate n (Executed h)"] by (simp add: open_calls_executed)
  ultimately show ?thesis using r assms(2) by (metis fun_upd_other)
qed

lemma call_can_return:
  assumes "run (monitor_step enter exec finished) (idle s0) tr P" and "open_calls tr g = Some m"
  shows "\<exists>tr' e Q. run (monitor_step enter exec finished) P (tr' @ [Answered g e]) Q \<and> open_calls (tr @ tr') g = Some m"
proof -
  have inv: "linear s0 tr P" by (rule interleaved.Inv_run [OF assms(1)])
  then obtain G where G: "goroutines P g = Some G" "called_method G = m"
    using assms(2) by (auto simp: linear_def)
  show ?thesis
  proof (cases G)
    case (Inside m' pc)
    with G have "goroutines P g = Some (Inside m pc)" by simp
    with linear_inside(3) [OF inv this] holder_returns open_calls_executed assms(2) show ?thesis by metis
  next
    case (Calling m')
    with G have "goroutines P g = Some (Calling m)" by simp
    from mutex_freed [OF inv this] assms(2) obtain tr1 Q
      where Q: "run (monitor_step enter exec finished) P tr1 Q" "holder Q = None"
        "goroutines Q g = Some (Calling m)" "open_calls (tr @ tr1) g = Some m" by auto
    let ?Q = "Q\<lparr>holder := Some g, goroutines := (goroutines Q)(g \<mapsto> Inside m (enter m))\<rparr>"
    have lk: "monitor_step enter exec finished Q (Locked g) ?Q"
      using Q(3,2) by (rule monitor_step.lock)
    obtain n e R where r: "run (monitor_step enter exec finished) ?Q (replicate n (Executed g) @ [Answered g e]) R"
      using holder_returns [of ?Q g m "enter m" "shared Q"] at_enter by auto
    let ?tr = "tr1 @ Locked g # replicate n (Executed g)"
    have "run (monitor_step enter exec finished) P (?tr @ [Answered g e]) R"
      using Q(1) lk r by (auto simp: run_append run_Cons)
    moreover have "open_calls (tr @ ?tr) g = Some m"
      using open_calls_executed [of "(tr @ tr1) @ [Locked g]" n g] Q(4) open_calls_simps(2) [of "tr @ tr1" "Locked g"] by simp
    ultimately show ?thesis by blast
  qed
qed

end

subsection \<open>Processes that are killed\<close>

text \<open>
  A kill may come between any two statements. It ends all goroutines, frees the mutex and leaves of the shared
  state what \<open>reset\<close> keeps. The label names the statement the holder of the mutex was about to run.
\<close>

datatype ('m, 'e, 'pc) life = Act "('m, 'e) activity" | Killed "'pc option"

definition running :: "('s, 'm, 'pc) process \<Rightarrow> 'pc option" where
  "running P =
     (case holder P of
        None \<Rightarrow> None
      | Some g \<Rightarrow> (case goroutines P g of Some (Inside m pc) \<Rightarrow> Some pc | _ \<Rightarrow> None))"

inductive life_step ::
  "('m \<Rightarrow> 'pc) \<Rightarrow> ('pc \<times> 's \<Rightarrow> 'pc \<times> 's \<Rightarrow> bool) \<Rightarrow> ('pc \<Rightarrow> 'e option) \<Rightarrow> ('s \<Rightarrow> 's)
   \<Rightarrow> ('s, 'm, 'pc) process \<Rightarrow> ('m, 'e, 'pc) life \<Rightarrow> ('s, 'm, 'pc) process \<Rightarrow> bool"
  for enter exec finished reset
where
  alive: "monitor_step enter exec finished P a Q \<Longrightarrow> life_step enter exec finished reset P (Act a) Q"
| killed: "life_step enter exec finished reset P (Killed (running P)) (idle (reset (shared P)))"

fun live ::
  "('m \<Rightarrow> 'pc) \<Rightarrow> ('pc \<Rightarrow> 's \<Rightarrow> 'pc \<times> 's) \<Rightarrow> ('pc \<Rightarrow> 'e option) \<Rightarrow> ('s \<Rightarrow> 's) \<Rightarrow> ('m, 'e, 'pc) life
   \<Rightarrow> ('s, 'm, 'pc) process \<Rightarrow> ('s, 'm, 'pc) process option"
where
  "live enter nxt finished reset (Act a) P = perform enter nxt finished a P"
| "live enter nxt finished reset (Killed pc) P = (if running P = pc then Some (idle (reset (shared P))) else None)"

lemma live_sound:
  assumes "live enter nxt finished reset l P = Some Q"
    and "\<And>pc s. finished pc = None \<Longrightarrow> exec (pc, s) (nxt pc s)"
  shows "life_step enter exec finished reset P l Q"
  using assms
  by (cases l) (auto intro: life_step.intros perform_sound split: if_splits)

text \<open>The events of a life: the returned calls, and what a kill makes of a call under way.\<close>

fun life_events :: "('pc option \<Rightarrow> 'e list) \<Rightarrow> ('m, 'e, 'pc) life \<Rightarrow> 'e list" where
  "life_events aborted (Act a) = returned a"
| "life_events aborted (Killed pc) = aborted pc"

definition history :: "('pc option \<Rightarrow> 'e list) \<Rightarrow> ('m, 'e, 'pc) life list \<Rightarrow> 'e list" where
  "history aborted tr = concat (map (life_events aborted) tr)"

lemma history_simps [simp]:
  "history aborted [] = []"
  "history aborted (tr @ tr') = history aborted tr @ history aborted tr'"
  "history aborted (l # tr) = life_events aborted l @ history aborted tr"
  by (simp_all add: history_def)

locale crash_monitor = monitor +
  fixes reset :: "'c \<Rightarrow> 'c"
    and aborted :: "'b option \<Rightarrow> 'd list"
  assumes at_killed: "at m s pc t \<Longrightarrow> run atomic s (aborted (Some pc)) (reset t)"
    and idle_killed: "run atomic s (aborted None) (reset s)"
begin

definition life_inv :: "'c \<Rightarrow> ('a, 'd, 'b) life list \<Rightarrow> ('c, 'a, 'b) process \<Rightarrow> bool" where
  "life_inv s0 tr P \<longleftrightarrow>
     (\<exists>es s1 tr1. run atomic s0 es s1 \<and> linear s1 tr1 P \<and> history aborted tr = es @ returns tr1)"

lemma life_inv_idle: "life_inv s0 [] (idle s0)"
proof -
  have "run atomic s0 [] s0 \<and> linear s0 [] (idle s0) \<and> history aborted [] = [] @ returns []"
    by (simp add: linear_idle)
  then show ?thesis unfolding life_inv_def by blast
qed

lemma linear_killed:
  assumes "linear s1 tr1 P"
  shows "run atomic s1 (returns tr1 @ aborted (running P)) (reset (shared P))"
  using assms at_killed idle_killed
  by (fastforce simp: linear_def running_def run_append split: option.splits)

lemma life_inv_step:
  assumes "life_inv s0 tr P" and "life_step enter exec finished reset P l Q"
  shows "life_inv s0 (tr @ [l]) Q"
proof -
  obtain es s1 tr1 where r: "run atomic s0 es s1" "linear s1 tr1 P" "history aborted tr = es @ returns tr1"
    using assms(1) unfolding life_inv_def by blast
  from assms(2) show ?thesis
  proof cases
    case (alive a)
    with r have "linear s1 (tr1 @ [a]) Q" "history aborted (tr @ [l]) = es @ returns (tr1 @ [a])"
      by (simp_all add: linear_step)
    with r(1) show ?thesis unfolding life_inv_def by blast
  next
    case killed
    let ?es = "es @ returns tr1 @ aborted (running P)"
    have "run atomic s0 ?es (reset (shared P))"
      using r(1) linear_killed [OF r(2)] by (auto simp: run_append)
    moreover have "linear (reset (shared P)) [] Q" by (simp add: killed linear_idle)
    moreover have "history aborted (tr @ [l]) = ?es @ returns []" by (simp add: killed r(3))
    ultimately show ?thesis unfolding life_inv_def by blast
  qed
qed

end

sublocale crash_monitor \<subseteq> lives: safe_system "life_step enter exec finished reset" "idle s0" "life_inv s0" for s0
  by unfold_locales (auto intro: life_inv_idle life_inv_step)

context crash_monitor begin

lemma life_linearizable:
  assumes "run (life_step enter exec finished reset) (idle s0) tr P"
  shows "\<exists>u. run atomic s0 (history aborted tr) u \<and> (holder P = None \<longrightarrow> shared P = u)"
proof -
  obtain es s1 tr1 where r: "run atomic s0 es s1" "linear s1 tr1 P" "history aborted tr = es @ returns tr1"
    using lives.Inv_run [OF assms] unfolding life_inv_def by blast
  from r(2) obtain u where "run atomic s1 (returns tr1) u" "holder P = None \<longrightarrow> shared P = u"
    by (auto simp: linear_def split: option.splits)
  with r show ?thesis by (auto simp: run_append)
qed

end

end
