(* ===== verification/Host_Goroutines.thy ===== *)
theory Host_Goroutines
  imports Host_Broker Monitor
begin

text \<open>
  The statements of \<open>setBroker\<close>, \<open>setBrokerID\<close> and \<open>host\<close> of \<open>pluginHostState\<close>
  (\<open>pkg/pluginsdk/runtime/runtime.go\<close>), one at a time, for goroutines that run them
  concurrently: a capability handler calls \<open>Host()\<close> while \<open>BindHostBroker\<close> assigns a stream. A statement label carries the
  local values its goroutine still needs; \<open>UnlockHost\<close> holds what the method returns. The
  interpretation shows that the mutex makes every method one step of \<open>host_step\<close>.
\<close>

datatype host_method = CallSetBroker "broker option" | CallSetBrokerID uint32 | CallHost

text \<open>\<open>dialLocked\<close> is called by \<open>setBrokerID\<close> and by \<open>host\<close>.\<close>

datatype dial_caller = ForBinding uint32 | ForHost

datatype host_stmt =
    StoreBroker "broker option"
  | ResetBrokerID "broker option"
  | DropClient "broker option"
  | StoreBrokerID uint32
  | DropStreamClient uint32
  | DialGuard dial_caller
  | DialStream dial_caller
  | StoreClient dial_caller attempt
  | ReadClient "attempt list"
  | UnlockHost host_event

fun host_enter :: "host_method \<Rightarrow> host_stmt" where
  "host_enter (CallSetBroker b) = StoreBroker b"
| "host_enter (CallSetBrokerID i) = StoreBrokerID i"
| "host_enter CallHost = DialGuard ForHost"

fun after_dial :: "dial_caller \<Rightarrow> attempt list \<Rightarrow> host_stmt" where
  "after_dial (ForBinding i) log = UnlockHost (SetBrokerID i log)"
| "after_dial ForHost log = ReadClient log"

fun host_next :: "dialer \<Rightarrow> host_stmt \<Rightarrow> host_state \<Rightarrow> host_stmt \<times> host_state" where
  "host_next dial (StoreBroker b) s = (ResetBrokerID b, s\<lparr>hs_broker := b\<rparr>)"
| "host_next dial (ResetBrokerID b) s = (DropClient b, s\<lparr>hs_brokerID := 0\<rparr>)"
| "host_next dial (DropClient b) s = (UnlockHost (SetBroker b), s\<lparr>hs_client := None\<rparr>)"
| "host_next dial (StoreBrokerID i) s = (DropStreamClient i, s\<lparr>hs_brokerID := i\<rparr>)"
| "host_next dial (DropStreamClient i) s = (DialGuard (ForBinding i), s\<lparr>hs_client := None\<rparr>)"
| "host_next dial (DialGuard k) s =
     (if hs_client s \<noteq> None \<or> hs_broker s = None \<or> hs_brokerID s = 0 then (after_dial k [], s)
      else (DialStream k, s))"
| "host_next dial (DialStream k) s =
     (let b = the (hs_broker s); r = dial b (hs_brokerID s) in
      case r of
        None \<Rightarrow> (after_dial k [(b, hs_brokerID s, None)], s)
      | Some c \<Rightarrow> (StoreClient k (b, hs_brokerID s, Some c), s))"
| "host_next dial (StoreClient k a) s = (after_dial k [a], s\<lparr>hs_client := snd (snd a)\<rparr>)"
| "host_next dial (ReadClient log) s = (UnlockHost (HostCall log (hs_client s)), s)"
| "host_next dial (UnlockHost e) s = (UnlockHost e, s)"

fun host_finished :: "host_stmt \<Rightarrow> host_event option" where
  "host_finished (UnlockHost e) = Some e"
| "host_finished _ = None"

inductive host_exec :: "host_stmt \<times> host_state \<Rightarrow> host_stmt \<times> host_state \<Rightarrow> bool" where
  "host_finished pc = None \<Longrightarrow> host_exec (pc, s) (host_next dial pc s)"

inductive_cases host_execE: "host_exec (pc, s) (pc', s')"

type_synonym host_process = "(host_state, host_method, host_stmt) process"
type_synonym host_activity = "(host_method, host_event) activity"

definition host_goroutine_step :: "host_process \<Rightarrow> host_activity \<Rightarrow> host_process \<Rightarrow> bool" where
  "host_goroutine_step = monitor_step host_enter host_exec host_finished"

subsection \<open>The assertions\<close>

fun host_answers :: "host_method \<Rightarrow> host_event \<Rightarrow> bool" where
  "host_answers (CallSetBroker b) e \<longleftrightarrow> e = SetBroker b"
| "host_answers (CallSetBrokerID i) e \<longleftrightarrow> (\<exists>log. e = SetBrokerID i log)"
| "host_answers CallHost e \<longleftrightarrow> (\<exists>log r. e = HostCall log r)"

fun dial_method :: "dial_caller \<Rightarrow> host_method" where
  "dial_method (ForBinding i) = CallSetBrokerID i"
| "dial_method ForHost = CallHost"

fun dial_start :: "dial_caller \<Rightarrow> host_state \<Rightarrow> host_state" where
  "dial_start (ForBinding i) s = s\<lparr>hs_brokerID := i, hs_client := None\<rparr>"
| "dial_start ForHost s = s"

definition dials :: "host_state \<Rightarrow> bool" where
  "dials s \<longleftrightarrow> \<not> (hs_client s \<noteq> None \<or> hs_broker s = None \<or> hs_brokerID s = 0)"

fun host_at :: "host_method \<Rightarrow> host_state \<Rightarrow> host_stmt \<Rightarrow> host_state \<Rightarrow> bool" where
  "host_at m s (StoreBroker b) t \<longleftrightarrow> m = CallSetBroker b \<and> t = s"
| "host_at m s (ResetBrokerID b) t \<longleftrightarrow> m = CallSetBroker b \<and> t = s\<lparr>hs_broker := b\<rparr>"
| "host_at m s (DropClient b) t \<longleftrightarrow> m = CallSetBroker b \<and> t = s\<lparr>hs_broker := b, hs_brokerID := 0\<rparr>"
| "host_at m s (StoreBrokerID i) t \<longleftrightarrow> m = CallSetBrokerID i \<and> t = s"
| "host_at m s (DropStreamClient i) t \<longleftrightarrow> m = CallSetBrokerID i \<and> t = s\<lparr>hs_brokerID := i\<rparr>"
| "host_at m s (DialGuard k) t \<longleftrightarrow> m = dial_method k \<and> t = dial_start k s"
| "host_at m s (DialStream k) t \<longleftrightarrow> m = dial_method k \<and> t = dial_start k s \<and> dials t"
| "host_at m s (StoreClient k a) t \<longleftrightarrow> m = dial_method k \<and> t = dial_start k s \<and> dials t
     \<and> (\<exists>c. a = (the (hs_broker t), hs_brokerID t, Some c))"
| "host_at m s (ReadClient log) t \<longleftrightarrow> m = CallHost \<and> (\<exists>dial. dialLocked dial s = (log, t))"
| "host_at m s (UnlockHost e) t \<longleftrightarrow> host_answers m e \<and> host_step s e t"

text \<open>The ways out of \<open>dialLocked\<close>.\<close>

lemma host_at_after_dial:
  assumes "dialLocked dial (dial_start k s) = (log, t)" and "m = dial_method k"
  shows "host_at m s (after_dial k log) t"
proof (cases k)
  case (ForBinding i)
  with assms have "setBrokerID dial i s = (log, t)" by (simp add: setBrokerID_def)
  with ForBinding assms(2) show ?thesis by (auto intro: host_step.intros)
qed (use assms in auto)

lemma dialLocked_skips: "\<not> dials s \<Longrightarrow> dialLocked dial s = ([], s)"
  by (simp add: dialLocked_def dials_def)

lemma dialLocked_dials:
  "dials s \<Longrightarrow> dialLocked (\<lambda>_ _. r) s =
     ([(the (hs_broker s), hs_brokerID s, r)], case r of None \<Rightarrow> s | Some c \<Rightarrow> s\<lparr>hs_client := Some c\<rparr>)"
  by (simp add: dialLocked_def dials_def Let_def)

lemma host_at_exec:
  assumes "host_at m s pc t" and "host_exec (pc, t) (pc', t')"
  shows "host_at m s pc' t'"
proof -
  from assms(2) obtain dial where n: "(pc', t') = host_next dial pc t" and "host_finished pc = None"
    by (rule host_execE) auto
  show ?thesis
  proof (cases pc)
    case (DropClient b)
    have "s\<lparr>hs_broker := b, hs_brokerID := 0, hs_client := None\<rparr> = setBroker b s" by (simp add: setBroker_def)
    with DropClient n assms(1) show ?thesis by (auto intro: host_step.intros)
  next
    case (DialGuard k)
    with n assms(1) show ?thesis
      by (auto simp: dials_def dialLocked_skips split: if_splits intro!: host_at_after_dial [where dial = dial])
  next
    case (DialStream k)
    with n assms(1) show ?thesis
      by (auto simp: Let_def dialLocked_dials split: option.splits
          intro!: host_at_after_dial [where dial = "\<lambda>_ _. None"])
  next
    case (StoreClient k a)
    with assms(1) obtain c where a: "a = (the (hs_broker t), hs_brokerID t, Some c)" by auto
    from StoreClient n assms(1) a show ?thesis
      by (auto simp: dialLocked_dials intro!: host_at_after_dial [where dial = "\<lambda>_ _. Some c"])
  next
    case (ReadClient log)
    with assms(1) obtain dial where "dialLocked dial s = (log, t)" by auto
    then have "host dial s = (hs_client t, log, t)" by (simp add: host_def)
    with ReadClient n assms(1) show ?thesis by (auto intro: host_step.intros)
  qed (use n assms(1) \<open>host_finished pc = None\<close> in auto)
qed

fun host_left :: "host_stmt \<Rightarrow> nat" where
  "host_left (StoreBroker b) = 3"
| "host_left (ResetBrokerID b) = 2"
| "host_left (DropClient b) = 1"
| "host_left (StoreBrokerID i) = 6"
| "host_left (DropStreamClient i) = 5"
| "host_left (DialGuard k) = 4"
| "host_left (DialStream k) = 3"
| "host_left (StoreClient k a) = 2"
| "host_left (ReadClient log) = 1"
| "host_left (UnlockHost e) = 0"

lemma host_left_after_dial: "host_left (after_dial k log) \<le> 1"
  by (cases k) simp_all

lemma host_exec_closer: "host_exec (pc, s) (pc', s') \<Longrightarrow> host_left pc' < host_left pc"
proof (erule host_execE)
  fix dial
  assume "(pc', s') = host_next dial pc s" and "host_finished pc = None"
  then show "host_left pc' < host_left pc"
    using host_left_after_dial
    by (cases pc) (auto simp: Let_def less_Suc_eq_le numeral_eq_Suc le_SucI split: if_splits option.splits)
qed

interpretation host_monitor: live_monitor host_enter host_exec host_finished host_step host_answers host_at host_left
proof
  show "host_at m s (host_enter m) s" for m s by (cases m) simp_all
next
  fix m s pc t pc' t'
  assume "host_at m s pc t" and "host_exec (pc, t) (pc', t')"
  then show "host_at m s pc' t'" by (rule host_at_exec)
next
  fix m s pc t e
  assume "host_at m s pc t" and "host_finished pc = Some e"
  then show "host_step s e t \<and> host_answers m e" by (cases pc) auto
next
  fix m s pc t
  assume "host_finished pc = None"
  then show "\<exists>pc' t'. host_exec (pc, t) (pc', t')"
    by (metis host_exec.intros surj_pair)
next
  fix pc s pc' s'
  assume "host_exec (pc, s) (pc', s')"
  then show "host_left pc' < host_left pc" by (rule host_exec_closer)
qed

text \<open>A run of the goroutines up to the return of a call, as a run of the specification.\<close>

lemma host_return_run:
  assumes "run host_goroutine_step (idle s0) (tr @ [Answered g e]) P"
  shows "run host_step s0 (returns tr @ [e]) (shared P)"
proof -
  note run = assms [unfolded host_goroutine_step_def]
  from run have "holder P = None" by (auto simp: run_snoc_iff elim: AnsweredE)
  with host_monitor.linearizable [OF run] show ?thesis by auto
qed

lemma host_return_method:
  assumes "run host_goroutine_step (idle s0) (tr @ [Answered g e]) P"
  shows "\<exists>m. open_calls tr g = Some m \<and> host_answers m e"
  using host_monitor.return_answers [OF assms [unfolded host_goroutine_step_def]] .

lemma host_call_completes:
  assumes "run host_goroutine_step (idle s0) tr P" and "open_calls tr g = Some m"
  shows "\<exists>tr' e Q. run host_goroutine_step P (tr' @ [Answered g e]) Q \<and> open_calls (tr @ tr') g = Some m"
  using host_monitor.call_can_return [OF assms(1) [unfolded host_goroutine_step_def] assms(2)]
  by (simp add: host_goroutine_step_def)

text \<open>A schedule in which every dial has the result \<open>c\<close>.\<close>

definition host_schedule :: "conn option \<Rightarrow> host_activity list \<Rightarrow> host_process \<Rightarrow> host_process option" where
  "host_schedule c = schedule (perform host_enter (host_next (\<lambda>_ _. c)) host_finished)"

lemma host_schedule_run: "host_schedule c tr P = Some Q \<Longrightarrow> run host_goroutine_step P tr Q"
  unfolding host_schedule_def host_goroutine_step_def
  by (rule schedule_run) (auto intro: perform_sound host_exec.intros)

end
