(* ===== verification/Manifest_Diagnoses.thy ===== *)
theory Manifest_Diagnoses
  imports Manifest
begin

text \<open>
  What the errors of the manifest validator say. For each error constructor (one per \<open>fmt.Errorf\<close> of
  \<open>manifest.go\<close>) a \<open>finding\<close> states the defect of the manifest the message names, in terms of
  the contracts and without the order of the checks. Every validator is interpreted as \<open>diagnosing\<close>: an error it
  returns is a finding.
\<close>

subsection \<open>Request router wording\<close>

fun line_finding :: "nat \<Rightarrow> string \<Rightarrow> wording_problem \<Rightarrow> bool" where
  "line_finding limit s WordingSpace \<longleftrightarrow> s \<noteq> [] \<and> (is_space (hd (runes s)) \<or> is_space (last (runes s)))"
| "line_finding limit s (WordingLength n) \<longleftrightarrow> n = limit \<and> length (runes s) > limit"
| "line_finding limit s WordingControl \<longleftrightarrow> (\<exists>r\<in>set (runes s). is_control r)"
| "line_finding limit s WordingLines \<longleftrightarrow> (\<exists>r\<in>set (runes s). is_line_separator r)"

text \<open>The wording values with their names in messages and their limits.\<close>

definition status_values :: "string \<Rightarrow> status_wording option \<Rightarrow> (string \<times> string \<times> nat) list" where
  "status_values prefix w =
     [(prefix @ ''label'', getter sw_label [] w, 24), (prefix @ ''detail'', getter sw_detail [] w, 140)]"

definition wording_values :: "router_wording \<Rightarrow> (string \<times> string \<times> nat) list" where
  "wording_values w = (''step'', rw_step w, 24)
     # status_values ''queued.'' (rw_queued w) @ status_values ''downloading.'' (rw_downloading w)"

lemma wording_value_finding:
  "validateWordingValue name v limit = Some e \<Longrightarrow> \<exists>p. e = RouterWording name p \<and> line_finding limit v p"
  using trimmed_iff [of v]
  by (auto simp: validateWordingValue_def rune_count_def disallowed_control_iff list_ex_iff split: if_splits)

lemma status_wording_finding:
  assumes "validateStatusWording prefix w = Some e"
  shows "\<exists>(name, v, limit)\<in>set (status_values prefix w). \<exists>p. e = RouterWording name p \<and> line_finding limit v p"
  using assms wording_value_finding
  by (fastforce simp: validateStatusWording_def status_values_def chain_Cons_Some)

lemma router_wording_finding:
  assumes "ValidateRequestRouterWording w = Some e"
  shows "\<exists>x. w = Some x \<and> (\<exists>(name, v, limit)\<in>set (wording_values x).
    \<exists>p. e = RouterWording name p \<and> line_finding limit v p)"
proof -
  obtain x where w: "w = Some x" using assms by (cases w) (auto simp: ValidateRequestRouterWording_def)
  with assms consider "validateWordingValue ''step'' (rw_step x) 24 = Some e"
    | "validateStatusWording ''queued.'' (rw_queued x) = Some e"
    | "validateStatusWording ''downloading.'' (rw_downloading x) = Some e"
    by (auto simp: ValidateRequestRouterWording_def chain_Cons_Some)
  then show ?thesis
    by cases (auto simp: w wording_values_def bex_Un dest!: wording_value_finding status_wording_finding)
qed

subsection \<open>Watch sync\<close>

fun watch_sync_finding :: "ext \<Rightarrow> watch_sync \<Rightarrow> cap_problem \<Rightarrow> bool" where
  "watch_sync_finding X w NoAuthMethod \<longleftrightarrow> ws_auth_methods w = []"
| "watch_sync_finding X w AuthMethodUnspecified \<longleftrightarrow> AUTH_METHOD_UNSPECIFIED \<in> set (ws_auth_methods w)"
| "watch_sync_finding X w NoOperation \<longleftrightarrow> True \<notin> set (ws_operations w)"
| "watch_sync_finding X w OrderWithoutImport \<longleftrightarrow> ws_provides_watchlist_order w \<and> \<not> ws_import_watchlist w"
| "watch_sync_finding X w BatchSizeRange \<longleftrightarrow> sint (ws_max_batch_size w) \<notin> {1..100}"
| "watch_sync_finding X w NoMediaType \<longleftrightarrow> ws_supported_media_types w = []"
| "watch_sync_finding X w MediaTypeUnspecified \<longleftrightarrow> MEDIA_TYPE_UNSPECIFIED \<in> set (ws_supported_media_types w)"
| "watch_sync_finding X w RatingsNeedRateable \<longleftrightarrow> (ws_import_ratings w \<or> ws_export_ratings w)
     \<and> set (ws_supported_media_types w) \<subseteq> {MEDIA_TYPE_EPISODE}"
| "watch_sync_finding X w DroppedNeedsSeries \<longleftrightarrow> ws_sync_dropped w
     \<and> MEDIA_TYPE_SERIES \<notin> set (ws_supported_media_types w)"
| "watch_sync_finding X w RequiresWatchedNeedsExport \<longleftrightarrow> ws_rating_export_requires_watched w \<noteq> [] \<and> \<not> ws_export_ratings w"
| "watch_sync_finding X w (RequiresWatchedUnsupported t) \<longleftrightarrow> t \<in> set (ws_rating_export_requires_watched w)
     \<and> t \<notin> set (ws_supported_media_types w)"
| "watch_sync_finding X w (BadNamespace n) \<longleftrightarrow> n \<in> set (ws_external_id_namespaces w) \<and> n \<notin> slug_language"
| "watch_sync_finding X w (SettingKey k) \<longleftrightarrow>
     (\<exists>s. Some s \<in> set (ws_connection_settings w) \<and> cset_key s = k \<and> k \<notin> slug_language)"
| "watch_sync_finding X w (SettingDuplicate k) \<longleftrightarrow>
     (\<exists>xs s ys. ws_connection_settings w = xs @ Some s # ys \<and> cset_key s = k
        \<and> (\<exists>s'. Some s' \<in> set xs \<and> cset_key s' = k))"
| "watch_sync_finding X w (SettingLabel k) \<longleftrightarrow>
     (\<exists>s. Some s \<in> set (ws_connection_settings w) \<and> cset_key s = k \<and> trim_space (cset_label s) = [])"
| "watch_sync_finding X w (SettingDefault k) \<longleftrightarrow>
     (\<exists>s v. Some s \<in> set (ws_connection_settings w) \<and> cset_key s = k \<and> cset_type s = SETTING_TYPE_BOOLEAN
        \<and> cset_default_value s = Some v \<and> \<not> is_any_bool (as_interface X v))"
| "watch_sync_finding X w _ \<longleftrightarrow> False"

lemma settings_finding:
  assumes "validateWatchSyncConnectionSettings X (ws_connection_settings w) = Some e"
  shows "watch_sync_finding X w e"
proof -
  let ?ss = "ws_connection_settings w"
  from assms have "settings_loop X {} ?ss = Inl e"
    by (simp add: validateWatchSyncConnectionSettings_def split: sum.splits)
  from settings.loop_Inl [OF this] obtain xs x ys where x: "?ss = xs @ x # ys" "x \<noteq> None"
    "reject_if (\<not> slug_match (setting_key x)) (SettingKey (setting_key x)) = Some e
      \<or> e = SettingDuplicate (setting_key x) \<and> setting_key x \<in> setting_key ` {y \<in> set xs. y \<noteq> None}
      \<or> (case x of None \<Rightarrow> None
         | Some c \<Rightarrow> chain [reject_if (trim_space (cset_label c) = []) (SettingLabel (cset_key c)),
             reject_if (setting_default_bad X c) (SettingDefault (cset_key c))]) = Some e"
    unfolding Un_empty_left by blast
  then obtain s where s: "x = Some s" by blast
  with x(1) have ss: "?ss = xs @ Some s # ys" by simp
  from x(3) s consider "e = SettingKey (cset_key s)" "cset_key s \<notin> slug_language"
    | "e = SettingDuplicate (cset_key s)" "\<exists>s'. Some s' \<in> set xs \<and> cset_key s' = cset_key s"
    | "e = SettingLabel (cset_key s)" "trim_space (cset_label s) = []"
    | "e = SettingDefault (cset_key s)" "setting_default_bad X s"
    by (fastforce simp: chain_Cons_Some slug_match_language)
  then show ?thesis
    by cases (auto simp: ss setting_default_bad_def split: option.splits)
qed

lemma watch_sync_descriptor_finding:
  assumes "check_watch_sync X w = Some e"
  shows "watch_sync_finding X w e"
proof -
  have rated: "set ts \<subseteq> {MEDIA_TYPE_EPISODE}"
    if "\<not> watchSyncSupportsRatedMediaType ts" "MEDIA_TYPE_UNSPECIFIED \<notin> set ts" for ts
    using that rated_given_specified by blast
  let ?unspecified = "first_err (\<lambda>t. reject_if (t = MEDIA_TYPE_UNSPECIFIED) MediaTypeUnspecified) (ws_supported_media_types w)"
  from chain_split [of "[_, _, _, _, _, _]" ?unspecified "[_, _, _, _, _, _]", unfolded append.simps,
      OF assms [unfolded check_watch_sync_def]]
  show ?thesis
    by (auto simp: list_all_Not slug_match_language supports_given_specified
        dest!: first_err_mem settings_finding dest: rated simp del: first_err.simps)
qed

subsection \<open>Capabilities\<close>

text \<open>The problems of one capability. \<open>NetworkUnpaired\<close> is one of the whole list.\<close>

fun capability_finding :: "ext \<Rightarrow> capability_descriptor \<Rightarrow> cap_problem \<Rightarrow> bool" where
  "capability_finding X c (UnknownType t) \<longleftrightarrow> cd_type c = t \<and> t \<notin> set KnownTypes"
| "capability_finding X c WatchSyncNeedsType \<longleftrightarrow> cd_type c \<noteq> WatchSyncProvider \<and> cd_watch_sync c \<noteq> None"
| "capability_finding X c IdNotSlug \<longleftrightarrow> cd_type c = WatchSyncProvider \<and> cd_id c \<notin> slug_language"
| "capability_finding X c WatchSyncMissing \<longleftrightarrow> cd_type c = WatchSyncProvider \<and> cd_watch_sync c = None"
| "capability_finding X c NetworkNeedsType \<longleftrightarrow> cd_type c \<noteq> NetworkAccessProvider \<and> cd_network_access c \<noteq> None"
| "capability_finding X c NetworkMissing \<longleftrightarrow> cd_type c = NetworkAccessProvider \<and> cd_network_access c = None"
| "capability_finding X c NetworkProviderSlug \<longleftrightarrow> cd_type c = NetworkAccessProvider
     \<and> (\<exists>n. cd_network_access c = Some n \<and> na_provider n \<notin> slug_language)"
| "capability_finding X c RouterNeedsType \<longleftrightarrow> cd_type c \<noteq> RequestRouter \<and> cd_request_router c \<noteq> None"
| "capability_finding X c (RouterWording name p) \<longleftrightarrow>
     (\<exists>r w v limit. cd_request_router c = Some r \<and> rr_wording r = Some w
        \<and> (name, v, limit) \<in> set (wording_values w) \<and> line_finding limit v p)"
| "capability_finding X c EmptyAuthMode \<longleftrightarrow> cd_type c = AuthProvider \<and> (\<exists>m\<in>set (cd_auth_modes c). trim_space m = [])"
| "capability_finding X c (AuthModeSpelling m known) \<longleftrightarrow> cd_type c = AuthProvider \<and> m \<in> set (cd_auth_modes c)
     \<and> known \<in> {AuthModePassword, AuthModeOAuth2, AuthModeNetwork} \<and> m \<noteq> known \<and> equal_fold ascii_fold m known"
| "capability_finding X c (AuthModeDuplicate m) \<longleftrightarrow> cd_type c = AuthProvider
     \<and> (\<exists>xs ys. cd_auth_modes c = xs @ m # ys \<and> m \<in> set xs)"
| "capability_finding X c (NetworkCombined m) \<longleftrightarrow> cd_type c = AuthProvider
     \<and> m \<in> {AuthModePassword, AuthModeOAuth2} \<and> {AuthModeNetwork, m} \<subseteq> set (cd_auth_modes c)"
| "capability_finding X c ConnectionTestNotBool \<longleftrightarrow> cd_type c = AuthProvider
     \<and> (\<exists>v. metadata_field (Some c) AuthProviderConnectionTestKey = Some v \<and> \<not> is_bool_value v)"
| "capability_finding X c NetworkUnpaired \<longleftrightarrow> False"
| "capability_finding X c p \<longleftrightarrow> cd_type c = WatchSyncProvider
     \<and> (\<exists>w. cd_watch_sync c = Some w \<and> watch_sync_finding X w p)"

lemma watch_sync_problem:
  "watch_sync_finding X w p \<Longrightarrow> cd_type c = WatchSyncProvider \<Longrightarrow> cd_watch_sync c = Some w \<Longrightarrow> capability_finding X c p"
  by (cases p) auto

lemma watch_sync_capability_finding:
  "validateWatchSyncCapability X (Some c) = Some e \<Longrightarrow> capability_finding X c e"
  by (auto simp: validateWatchSyncCapability_def slug_match_language split: if_splits option.splits
      intro: watch_sync_problem watch_sync_descriptor_finding)

lemma network_capability_finding:
  "validateNetworkAccessCapability (Some c) = Some e \<Longrightarrow> capability_finding X c e"
  by (auto simp: validateNetworkAccessCapability_def slug_match_language split: if_splits option.splits)

lemma router_capability_finding:
  assumes "validateRequestRouterCapability (Some c) = Some e"
  shows "capability_finding X c e"
proof -
  from assms consider "e = RouterNeedsType" "cd_type c \<noteq> RequestRouter" "cd_request_router c \<noteq> None"
    | "ValidateRequestRouterWording (getter rr_wording None (cd_request_router c)) = Some e"
    by (auto simp: validateRequestRouterCapability_def chain_Cons_Some)
  then show ?thesis
  proof cases
    case 2
    from router_wording_finding [OF this] show ?thesis
      by (cases "cd_request_router c") (auto, blast)
  qed simp
qed

lemma modes_finding:
  assumes "modes_loop {} (cd_auth_modes c) = Inl e" and "cd_type c = AuthProvider"
  shows "capability_finding X c e"
proof -
  from modes.loop_Inl [OF assms(1)] obtain xs m ys where m: "cd_auth_modes c = xs @ m # ys"
    and "chain [reject_if (trim_space m = []) EmptyAuthMode, mode_spelling m] = Some e
      \<or> e = AuthModeDuplicate m \<and> m \<in> set xs"
    by auto
  then consider "e = EmptyAuthMode" "trim_space m = []" | "mode_spelling m = Some e"
    | "e = AuthModeDuplicate m" "m \<in> set xs"
    by (auto simp: chain_Cons_Some)
  then show ?thesis
  proof cases
    case 2
    then obtain known where "known \<in> {AuthModePassword, AuthModeOAuth2, AuthModeNetwork}"
      "e = AuthModeSpelling m known" "m \<noteq> known" "equal_fold ascii_fold m known"
      unfolding mode_spelling_def by (auto dest!: first_err_mem simp del: first_err.simps)
    with m assms(2) show ?thesis by auto
  qed (use m assms(2) in auto)
qed

lemma auth_capability_finding:
  assumes "validateAuthProviderCapability (Some c) = Some e"
  shows "capability_finding X c e"
proof (cases "modes_loop {} (cd_auth_modes c)")
  case (Inl e')
  with assms modes_finding show ?thesis by (auto simp: validateAuthProviderCapability_def split: if_splits)
next
  case (Inr seen)
  then have "seen = set (cd_auth_modes c)" by (simp add: modes_accept)
  with assms Inr show ?thesis
    by (auto simp: validateAuthProviderCapability_def chain_Cons_Some simp del: first_err.simps
        dest!: first_err_mem split: if_splits option.splits)
qed

lemma check_capability_finding:
  assumes "check_capability X c = Some e"
  shows "(e = CapTypeRequired \<and> cd_type c = []) \<or> (e = CapIdRequired \<and> cd_id c = [])
    \<or> (\<exists>p. e = CapabilityError (cd_id c) p \<and> capability_finding X c p)"
proof -
  from chain_mem [OF assms [unfolded check_capability_def]]
  show ?thesis
    by (auto simp: about_def intro: watch_sync_capability_finding network_capability_finding
        router_capability_finding auth_capability_finding)
qed

subsection \<open>Presentation\<close>

fun title_finding :: "nat \<Rightarrow> string \<Rightarrow> pres_problem \<Rightarrow> bool" where
  "title_finding limit s PresSpace \<longleftrightarrow> s \<noteq> [] \<and> (is_space (hd (runes s)) \<or> is_space (last (runes s)))"
| "title_finding limit s (PresLength n) \<longleftrightarrow> n = limit \<and> length (runes s) > limit"
| "title_finding limit s PresControl \<longleftrightarrow> (\<exists>r\<in>set (runes s). is_control r)"
| "title_finding limit s _ \<longleftrightarrow> False"

fun markdown_finding :: "string \<Rightarrow> pres_problem \<Rightarrow> bool" where
  "markdown_finding s (PresBytes n) \<longleftrightarrow> n = 32768 \<and> length s > 32768"
| "markdown_finding s PresControl \<longleftrightarrow> (\<exists>r\<in>set (runes s). is_control r \<and> r \<notin> {9, 10, 13})"
| "markdown_finding s _ \<longleftrightarrow> False"

fun url_finding :: "ext \<Rightarrow> string \<Rightarrow> pres_problem \<Rightarrow> bool" where
  "url_finding X s (UrlBytes n) \<longleftrightarrow> n = 2048 \<and> length s > 2048"
| "url_finding X s UrlSpace \<longleftrightarrow> s \<noteq> [] \<and> (is_space (hd (runes s)) \<or> is_space (last (runes s)) \<or> CHR '' '' \<in> set s
     \<or> (\<exists>r\<in>set (runes s). is_control r))"
| "url_finding X s UrlInvalid \<longleftrightarrow> s \<noteq> [] \<and> url_parse X s = None"
| "url_finding X s UrlNotAbsolute \<longleftrightarrow> (\<exists>u. url_parse X s = Some u \<and> (pu_scheme u \<notin> {''http'', ''https''} \<or> pu_host u = []))"
| "url_finding X s UrlCredentials \<longleftrightarrow> (\<exists>u. url_parse X s = Some u \<and> pu_user u)"
| "url_finding X s _ \<longleftrightarrow> False"

definition presentation_finding :: "ext \<Rightarrow> plugin_presentation \<Rightarrow> string \<Rightarrow> pres_problem \<Rightarrow> bool" where
  "presentation_finding X p field e \<longleftrightarrow>
     (\<exists>v limit. (field, v, limit) \<in> set (single_line_fields p) \<and> title_finding limit v e)
     \<or> (\<exists>v. (field, v) \<in> set (markdown_fields p) \<and> markdown_finding v e)
     \<or> (\<exists>v. (field, v) \<in> set (url_fields p) \<and> url_finding X v e)"

lemma single_line_finding:
  "check_single_line (name, v, limit) = Some e \<Longrightarrow> fst e = name \<and> title_finding limit v (snd e)"
  using trimmed_iff [of v]
  by (auto simp: check_single_line_def chain_Cons_Some rune_count_def disallowed_control_iff)

lemma check_markdown_finding:
  "check_markdown (name, v) = Some e \<Longrightarrow> fst e = name \<and> markdown_finding v (snd e)"
  by (auto simp: check_markdown_def chain_Cons_Some disallowed_control_iff)

lemma check_url_finding:
  assumes "validatePresentationURL X s = Some e"
  shows "url_finding X s e"
proof (cases "\<forall>r\<in>set (runes s). \<not> is_control r")
  case True
  then show ?thesis
    using assms trimmed_iff [of s] url_space_iff [OF True]
    by (auto simp: validatePresentationURL_def disallowed_control_iff split: if_splits option.splits)
next
  case False
  with assms show ?thesis
    by (auto simp: validatePresentationURL_def disallowed_control_iff split: if_splits)
qed

lemma validatePresentation_finding:
  assumes "validatePresentation X (Some p) = Some (field, e)"
  shows "presentation_finding X p field e"
proof -
  from assms consider "first_err check_single_line (single_line_fields p) = Some (field, e)"
    | "first_err check_markdown (markdown_fields p) = Some (field, e)"
    | "first_err (\<lambda>(name, value). map_option (Pair name) (validatePresentationURL X value)) (url_fields p) = Some (field, e)"
    unfolding validatePresentation_def option.case by (auto dest!: chain_mem)
  then show ?thesis
  proof cases
    case 1
    from first_err_mem [OF this] obtain name v limit where "(name, v, limit) \<in> set (single_line_fields p)"
      "check_single_line (name, v, limit) = Some (field, e)" by auto
    with single_line_finding [OF this(2)] show ?thesis by (auto simp: presentation_finding_def)
  next
    case 2
    from first_err_mem [OF this] obtain name v where "(name, v) \<in> set (markdown_fields p)"
      "check_markdown (name, v) = Some (field, e)" by auto
    with check_markdown_finding [OF this(2)] show ?thesis by (auto simp: presentation_finding_def)
  next
    case 3
    from first_err_mem [OF this] show ?thesis
      by (auto simp: presentation_finding_def intro: check_url_finding)
  qed
qed

subsection \<open>Config schemas\<close>

definition condition_field :: "form_condition option \<Rightarrow> string" where
  "condition_field c = getter fc_field [] c"

fun form_finding :: "ext \<Rightarrow> (string \<rightharpoonup> string) \<Rightarrow> admin_form \<Rightarrow> schema_problem \<Rightarrow> bool" where
  "form_finding X props form FieldKeyRequired \<longleftrightarrow> (\<exists>f. Some f \<in> set (af_fields form) \<and> ff_key f = [])"
| "form_finding X props form (FieldDuplicate k) \<longleftrightarrow>
     (\<exists>xs f ys. af_fields form = xs @ Some f # ys \<and> ff_key f = k \<and> (\<exists>g. Some g \<in> set xs \<and> ff_key g = k))"
| "form_finding X props form (FieldUndeclared k) \<longleftrightarrow> (\<exists>f. Some f \<in> set (af_fields form) \<and> ff_key f = k \<and> props k = None)"
| "form_finding X props form (MultiSelectNotArray k) \<longleftrightarrow>
     (\<exists>f t. Some f \<in> set (af_fields form) \<and> ff_key f = k \<and> ff_control f = CONTROL_MULTI_SELECT \<and> props k = Some t \<and> t \<noteq> ''array'')"
| "form_finding X props form (SelectNeedsOptions k) \<longleftrightarrow>
     (\<exists>f. Some f \<in> set (af_fields form) \<and> ff_key f = k \<and> ff_control f \<in> {CONTROL_SELECT, CONTROL_MULTI_SELECT}
        \<and> \<not> ff_dynamic_options f \<and> ff_options f = [])"
| "form_finding X props form (DefaultNotBool k) \<longleftrightarrow>
     (\<exists>f v. Some f \<in> set (af_fields form) \<and> ff_key f = k \<and> props k = Some ''boolean'' \<and> ff_default_value f = Some v
        \<and> \<not> is_any_bool (as_interface X v))"
| "form_finding X props form (DefaultNotNumber k) \<longleftrightarrow>
     (\<exists>f v t. Some f \<in> set (af_fields form) \<and> ff_key f = k \<and> props k = Some t \<and> t \<in> {''integer'', ''number''}
        \<and> ff_default_value f = Some v \<and> \<not> is_any_float (as_interface X v))"
| "form_finding X props form (DefaultNotString k) \<longleftrightarrow>
     (\<exists>f v. Some f \<in> set (af_fields form) \<and> ff_key f = k \<and> props k = Some ''string'' \<and> ff_default_value f = Some v
        \<and> \<not> is_any_string (as_interface X v))"
| "form_finding X props form (FieldCondEmpty k) \<longleftrightarrow>
     (\<exists>f. Some f \<in> set (af_fields form) \<and> ff_key f = k \<and> [] \<in> condition_field ` set (ff_show_when f))"
| "form_finding X props form (FieldCondUnknown k r) \<longleftrightarrow>
     (\<exists>f. Some f \<in> set (af_fields form) \<and> ff_key f = k \<and> r \<in> condition_field ` set (ff_show_when f) \<and> props r = None)"
| "form_finding X props form (ExclusiveUnknown k r) \<longleftrightarrow>
     (\<exists>f. Some f \<in> set (af_fields form) \<and> ff_key f = k \<and> ff_exclusive_group_field f = r \<and> r \<noteq> [] \<and> props r = None)"
| "form_finding X props form (SectionFieldUnknown k r) \<longleftrightarrow>
     (\<exists>s. Some s \<in> set (af_sections form) \<and> fs_key s = k \<and> r \<in> set (fs_field_keys s)
        \<and> (\<forall>f. Some f \<in> set (af_fields form) \<longrightarrow> ff_key f \<noteq> r))"
| "form_finding X props form (SectionCondEmpty k) \<longleftrightarrow>
     (\<exists>s. Some s \<in> set (af_sections form) \<and> fs_key s = k \<and> [] \<in> condition_field ` set (fs_show_when s))"
| "form_finding X props form (SectionCondUnknown k r) \<longleftrightarrow>
     (\<exists>s. Some s \<in> set (af_sections form) \<and> fs_key s = k \<and> r \<in> condition_field ` set (fs_show_when s) \<and> props r = None)"
| "form_finding X props form _ \<longleftrightarrow> False"

fun schema_finding :: "ext \<Rightarrow> config_schema \<Rightarrow> schema_problem \<Rightarrow> bool" where
  "schema_finding X s InvalidJsonSchema \<longleftrightarrow> sch_admin_form s \<noteq> None \<and> parse_schema (sch_json_schema s) = None"
| "schema_finding X s NotObjectSchema \<longleftrightarrow> sch_admin_form s \<noteq> None
     \<and> (\<exists>doc. parse_schema (sch_json_schema s) = Some doc \<and> js_type doc \<noteq> ''object'')"
| "schema_finding X s p \<longleftrightarrow>
     (\<exists>form doc. sch_admin_form s = Some form \<and> parse_schema (sch_json_schema s) = Some doc
        \<and> form_finding X (js_props doc) form p)"

lemma check_conditions_finding:
  assumes "check_conditions known e u conds = Some x"
  shows "(x = e \<and> [] \<in> condition_field ` set conds)
     \<or> (\<exists>r. x = u r \<and> r \<in> condition_field ` set conds \<and> \<not> known r)"
proof -
  from first_err_mem [OF assms [unfolded check_conditions_def]] obtain c where c: "c \<in> set conds"
    and "x = e \<and> condition_field c = [] \<or> x = u (condition_field c) \<and> \<not> known (condition_field c)"
    unfolding condition_field_def by (auto simp: chain_Cons_Some)
  then show ?thesis by (metis imageI)
qed

lemma check_control_finding:
  assumes "Some f \<in> set (af_fields form)" and "props (ff_key f) = Some t" and "check_control t f = Some e"
  shows "form_finding X props form e"
proof -
  from assms(3) have "ff_control f = CONTROL_MULTI_SELECT \<and> t \<noteq> ''array'' \<and> e = MultiSelectNotArray (ff_key f)
      \<or> ff_control f \<in> {CONTROL_SELECT, CONTROL_MULTI_SELECT} \<and> \<not> ff_dynamic_options f \<and> ff_options f = []
        \<and> e = SelectNeedsOptions (ff_key f)"
    unfolding check_control_def by (simp add: chain_Cons_Some split: if_splits) blast
  with assms(1,2) show ?thesis by (elim disjE conjE) (simp, blast)+
qed

lemma check_default_finding:
  assumes "Some f \<in> set (af_fields form)" and "props (ff_key f) = Some t" and "check_default X t f = Some e"
  shows "form_finding X props form e"
proof -
  obtain v where v: "ff_default_value f = Some v"
    using assms(3) by (cases "ff_default_value f") (auto simp: check_default_def)
  with assms(3) have "t = ''boolean'' \<and> \<not> is_any_bool (as_interface X v) \<and> e = DefaultNotBool (ff_key f)
      \<or> t \<in> {''integer'', ''number''} \<and> \<not> is_any_float (as_interface X v) \<and> e = DefaultNotNumber (ff_key f)
      \<or> t = ''string'' \<and> \<not> is_any_string (as_interface X v) \<and> e = DefaultNotString (ff_key f)"
    unfolding check_default_def by (simp split: if_splits)
  with assms(1,2) v show ?thesis by (elim disjE conjE) (simp, blast)+
qed

lemma fields_loop_finding:
  assumes "fields_loop X props {} (af_fields form) = Inl e"
  shows "form_finding X props form e"
proof -
  from fields.loop_Inl [OF assms] obtain xs x ys where x: "af_fields form = xs @ x # ys" "x \<noteq> None"
    "reject_if (field_key x = []) FieldKeyRequired = Some e
      \<or> e = FieldDuplicate (field_key x) \<and> field_key x \<in> field_key ` {y \<in> set xs. y \<noteq> None}
      \<or> (case x of None \<Rightarrow> None
         | Some c \<Rightarrow> (case props (ff_key c) of None \<Rightarrow> Some (FieldUndeclared (ff_key c))
             | Some t \<Rightarrow> chain [check_control t c, check_default X t c])) = Some e"
    unfolding Un_empty_left by blast
  then obtain f where f: "x = Some f" by blast
  with x(1) have fs: "af_fields form = xs @ Some f # ys" and mem: "Some f \<in> set (af_fields form)" by simp_all
  from x(3) f consider "e = FieldKeyRequired" "ff_key f = []"
    | "e = FieldDuplicate (ff_key f)" "\<exists>g. Some g \<in> set xs \<and> ff_key g = ff_key f"
    | "e = FieldUndeclared (ff_key f)" "props (ff_key f) = None"
    | t where "props (ff_key f) = Some t" "check_control t f = Some e \<or> check_default X t f = Some e"
    by (fastforce simp: chain_Cons_Some split: option.splits)
  then show ?thesis
  proof cases
    case 4
    with check_control_finding check_default_finding mem show ?thesis by blast
  qed (use fs mem in auto)
qed

lemma check_form_finding:
  assumes "check_form X props form = Some e"
  shows "form_finding X props form e"
proof (cases "fields_loop X props {} (af_fields form)")
  case (Inl e')
  with assms fields_loop_finding show ?thesis by (simp add: check_form_def)
next
  case (Inr seen)
  let ?fields = "List.map_filter id (af_fields form)"
  from Inr [unfolded fields_loop_iff] have seen: "seen = ff_key ` set ?fields" and "seen \<subseteq> dom props" by auto
  note known = has_reference_declared [OF this(2)]
  have keys: "r \<in> seen \<longleftrightarrow> (\<exists>f. Some f \<in> set (af_fields form) \<and> ff_key f = r)" for r
    by (auto simp: seen Some_mem_map_filter [symmetric])
  from assms Inr consider x where "x \<in> set (af_fields form)" "check_field_refs (has_reference seen props) x = Some e"
    | x where "x \<in> set (af_sections form)" "check_section seen (has_reference seen props) x = Some e"
    by (auto simp: check_form_def chain_Cons_Some simp del: first_err_None dest!: first_err_mem)
  then show ?thesis
  proof cases
    case 1
    obtain f where f: "Some f \<in> set (af_fields form)"
      and "check_conditions (has_reference seen props) (FieldCondEmpty (ff_key f)) (FieldCondUnknown (ff_key f))
          (ff_show_when f) = Some e
        \<or> e = ExclusiveUnknown (ff_key f) (ff_exclusive_group_field f) \<and> ff_exclusive_group_field f \<noteq> []
          \<and> ff_exclusive_group_field f \<notin> dom props"
      by (cases x) (use 1 in \<open>auto simp: check_field_refs_def chain_Cons_Some known\<close>)
    with check_conditions_finding show ?thesis unfolding known by fastforce
  next
    case 2
    obtain s where s: "Some s \<in> set (af_sections form)"
      and "first_err (\<lambda>k. reject_if (k \<notin> seen) (SectionFieldUnknown (fs_key s) k)) (fs_field_keys s) = Some e
        \<or> check_conditions (has_reference seen props) (SectionCondEmpty (fs_key s)) (SectionCondUnknown (fs_key s))
          (fs_show_when s) = Some e"
      by (cases x) (use 2 in \<open>auto simp: check_section_def chain_Cons_Some simp del: first_err_None\<close>)
    then show ?thesis
    proof (elim disjE)
      assume "first_err (\<lambda>k. reject_if (k \<notin> seen) (SectionFieldUnknown (fs_key s) k)) (fs_field_keys s) = Some e"
      from first_err_mem [OF this] s show ?thesis by (auto simp: keys)
    next
      assume "check_conditions (has_reference seen props) (SectionCondEmpty (fs_key s)) (SectionCondUnknown (fs_key s))
        (fs_show_when s) = Some e"
      from check_conditions_finding [OF this] s show ?thesis unfolding known by fastforce
    qed
  qed
qed

lemma schema_finding_form:
  "form_finding X (js_props doc) form p \<Longrightarrow> sch_admin_form s = Some form \<Longrightarrow> parse_schema (sch_json_schema s) = Some doc \<Longrightarrow>
     schema_finding X s p"
  by (cases p) simp_all

lemma validateConfigSchema_finding:
  assumes "validateConfigSchema X (Some s) = Some (key, e)"
  shows "key = sch_key s \<and> schema_finding X s e"
proof -
  obtain form where form: "sch_admin_form s = Some form"
    using assms by (cases "sch_admin_form s") (simp_all add: validateConfigSchema_def)
  let ?check = "case parse_schema (sch_json_schema s) of None \<Rightarrow> Some InvalidJsonSchema
      | Some doc \<Rightarrow> if js_type doc \<noteq> ''object'' then Some NotObjectSchema else check_form X (js_props doc) form"
  have "map_option (Pair (sch_key s)) ?check = validateConfigSchema X (Some s)"
    unfolding validateConfigSchema_def option.case form ..
  also note assms
  finally have key: "key = sch_key s" and e: "?check = Some e"
    unfolding map_option_eq_Some by blast+
  show ?thesis
  proof (cases "parse_schema (sch_json_schema s)")
    case None
    with e form key show ?thesis by simp
  next
    case (Some doc)
    show ?thesis
    proof (cases "js_type doc = ''object''")
      case True
      with e Some have "check_form X (js_props doc) form = Some e" by simp
      with schema_finding_form [OF check_form_finding form Some] key show ?thesis by blast
    next
      case False
      with e Some form key show ?thesis by simp
    qed
  qed
qed

subsection \<open>The manifest\<close>

fun manifest_finding :: "ext \<Rightarrow> plugin_manifest \<Rightarrow> manifest_error \<Rightarrow> bool" where
  "manifest_finding X m PluginIdRequired \<longleftrightarrow> pm_plugin_id m = []"
| "manifest_finding X m VersionRequired \<longleftrightarrow> pm_version m = []"
| "manifest_finding X m (PresentationError field p) \<longleftrightarrow>
     (\<exists>pr. pm_presentation m = Some pr \<and> presentation_finding X pr field p)"
| "manifest_finding X m CapTypeRequired \<longleftrightarrow> (\<exists>c. Some c \<in> set (pm_capabilities m) \<and> cd_type c = [])"
| "manifest_finding X m CapIdRequired \<longleftrightarrow> (\<exists>c. Some c \<in> set (pm_capabilities m) \<and> cd_id c = [])"
| "manifest_finding X m (CapabilityError cid p) \<longleftrightarrow>
     (\<exists>c. Some c \<in> set (pm_capabilities m) \<and> cd_id c = cid
        \<and> (if p = NetworkUnpaired then AuthProviderUsesNetworkIdentity (Some c)
              \<and> NetworkAccessProvider \<notin> GetType ` set (pm_capabilities m)
           else capability_finding X c p))"
| "manifest_finding X m (ConfigError key p) \<longleftrightarrow>
     (\<exists>s. Some s \<in> set (pm_global_config_schema m) \<union> set (pm_user_config_schema m)
        \<and> sch_key s = key \<and> schema_finding X s p)"
| "manifest_finding X m (CapConfigError cid key p) \<longleftrightarrow>
     (\<exists>c s. Some c \<in> set (pm_capabilities m) \<and> cd_id c = cid \<and> Some s \<in> set (cd_config_schema c)
        \<and> sch_key s = key \<and> schema_finding X s p)"
| "manifest_finding X m _ \<longleftrightarrow> False"

lemma capability_finding_paired: "capability_finding X c p \<Longrightarrow> p \<noteq> NetworkUnpaired"
  by auto

interpretation config_diagnosis: diagnosing "\<lambda>s. config_error (validateConfigSchema X s)" "config_schema_ok X"
  "\<lambda>s e. \<exists>t p. s = Some t \<and> e = ConfigError (sch_key t) p \<and> schema_finding X t p" for X
proof
  fix s e
  show "config_error (validateConfigSchema X s) = None \<longleftrightarrow> config_schema_ok X s"
    by (simp add: config_schema.check_None)
  assume e: "config_error (validateConfigSchema X s) = Some e"
  then obtain t where s: "s = Some t" by (cases s) (simp_all add: validateConfigSchema_def config_error_def)
  with e obtain key p where "validateConfigSchema X (Some t) = Some (key, p)" "e = ConfigError key p"
    by (auto simp: config_error_def)
  with s validateConfigSchema_finding [OF this(1)]
  show "\<exists>t p. s = Some t \<and> e = ConfigError (sch_key t) p \<and> schema_finding X t p" by blast
qed

lemma capability_config_finding:
  assumes "check_capability_config X d = Some e"
  shows "\<exists>c s p. d = Some c \<and> Some s \<in> set (cd_config_schema c) \<and> e = CapConfigError (cd_id c) (sch_key s) p
    \<and> schema_finding X s p"
proof -
  obtain c where d: "d = Some c" using assms by (cases d) (simp_all add: check_capability_config_def)
  from assms d first_err_mem obtain s key p where s: "s \<in> set (cd_config_schema c)"
    "validateConfigSchema X s = Some (key, p)" "e = CapConfigError (cd_id c) key p"
    unfolding check_capability_config_def by fastforce
  obtain t where "s = Some t" by (cases s) (use s(2) in \<open>simp_all add: validateConfigSchema_def\<close>)
  with s d validateConfigSchema_finding show ?thesis by blast
qed

lemma check_capabilities_Reject:
  "check_capabilities X ds = Reject e \<Longrightarrow> \<exists>c. Some c \<in> set ds \<and> check_capability X c = Some e"
proof (induction X ds rule: check_capabilities.induct)
  case (3 X c ds)
  then show ?case by (cases "check_capability X c") auto
qed simp_all

lemma pairing_finding:
  assumes "validateNetworkAuthPairing (pm_capabilities m) = Some e"
  shows "manifest_finding X m e"
proof -
  let ?ds = "pm_capabilities m"
  obtain d where d: "find AuthProviderUsesNetworkIdentity ?ds = Some d"
    and none: "\<forall>d\<in>set ?ds. GetType d \<noteq> NetworkAccessProvider" and e: "e = CapabilityError (GetId d) NetworkUnpaired"
    using assms by (cases "find AuthProviderUsesNetworkIdentity ?ds")
      (auto simp: validateNetworkAuthPairing_def pairing_loop_result)
  from d have "d \<in> set ?ds" "AuthProviderUsesNetworkIdentity d" by (auto simp: find_Some_iff)
  moreover obtain c where "d = Some c" by (cases d) (use \<open>AuthProviderUsesNetworkIdentity d\<close> in auto)
  moreover from none have "NetworkAccessProvider \<notin> GetType ` set ?ds" by auto
  ultimately show ?thesis using e by (simp, blast)
qed

lemma and_then_Reject: "and_then v w = Reject e \<longleftrightarrow> v = Reject e \<or> (v = Accept \<and> w = Reject e)"
  by (cases v) simp_all

lemma Validate_finding:
  assumes "Validate X (Some m) = Reject e"
  shows "manifest_finding X m e"
proof -
  from assms consider "e = PluginIdRequired" "pm_plugin_id m = []" | "e = VersionRequired" "pm_version m = []"
    | f p where "validatePresentation X (pm_presentation m) = Some (f, p)" "e = PresentationError f p"
    | "check_capabilities X (pm_capabilities m) = Reject e"
    | "validateNetworkAuthPairing (pm_capabilities m) = Some e"
    | "first_err (\<lambda>s. config_error (validateConfigSchema X s)) (pm_global_config_schema m) = Some e"
    | "first_err (\<lambda>s. config_error (validateConfigSchema X s)) (pm_user_config_schema m) = Some e"
    | "first_err (check_capability_config X) (pm_capabilities m) = Some e"
    unfolding Validate_Some and_then_Reject verdict_of_iff chain_Cons_Some
    by (auto simp del: first_err.simps first_err_None)
  then show ?thesis
  proof cases
    case 3
    then show ?thesis
      by (cases "pm_presentation m") (auto simp: validatePresentation_def [of X None] dest: validatePresentation_finding)
  next
    case 4
    from check_capabilities_Reject [OF this] obtain c where "Some c \<in> set (pm_capabilities m)" "check_capability X c = Some e" by blast
    with check_capability_finding [OF this(2)] capability_finding_paired show ?thesis
      by (elim disjE conjE exE) (simp, blast)+
  next
    case 6
    from config_diagnosis.loop_finding [OF this] show ?thesis by auto
  next
    case 7
    from config_diagnosis.loop_finding [OF this] show ?thesis by auto
  next
    case 8
    from first_err_mem [OF this] show ?thesis by (auto dest!: capability_config_finding, blast)
  qed (auto intro: pairing_finding)
qed

end
