(* ===== verification/Config.thy ===== *)
theory Config
  imports Admin_Form
begin

text \<open>
  \<open>pkg/pluginsdk/config/config.go\<close>: a saved configuration value against the schema its key
  declares. \<open>json.Unmarshal\<close> into an \<open>any\<close> fails on bad syntax and on a number out of the range of
  \<open>float64\<close>. The JSON Schema compiler is a third-party package: \<open>compile\<close> compiles a decoded
  document under a resource name, \<open>conforms\<close> is the compiled schema's \<open>Validate\<close>.
\<close>

record 's schema_compiler =
  add_resource :: "string \<Rightarrow> json \<Rightarrow> bool"
  compile :: "string \<Rightarrow> json \<Rightarrow> 's option"
  conforms :: "'s \<Rightarrow> (string \<times> gany) list \<Rightarrow> bool"

datatype config_error =
    ConfigManifestRequired | NotDeclared string string | ParseSchema string string
  | LoadSchema string string | CompileSchema string string | InvalidValue string string

fun FindSchema :: "config_schema option list \<Rightarrow> string \<Rightarrow> config_schema option" where
  "FindSchema [] key = None"
| "FindSchema (s # ss) key =
     (if s \<noteq> None \<and> getter sch_key [] s = key then s else FindSchema ss key)"

definition ValidateValue ::
  "'s schema_compiler \<Rightarrow> config_schema option \<Rightarrow> string \<Rightarrow> string \<Rightarrow> (string \<times> gany) list option
   \<Rightarrow> config_error option" where
  "ValidateValue J schema kind key val =
     (case schema of
        None \<Rightarrow> Some (NotDeclared kind key)
      | Some s \<Rightarrow>
          (let trimmed = trim_space (sch_json_schema s);
               schemaJSON = (if trimmed = [] then ''{}'' else trimmed)
           in case json_parse schemaJSON of
                None \<Rightarrow> Some (ParseSchema kind key)
              | Some doc \<Rightarrow>
                  if \<not> decodes_any doc then Some (ParseSchema kind key)
                  else (let name = ''memory://config/'' @ key @ ''.schema.json'' in
                   if \<not> add_resource J name doc then Some (LoadSchema kind key)
                   else case compile J name doc of
                          None \<Rightarrow> Some (CompileSchema kind key)
                        | Some compiled \<Rightarrow>
                            if conforms J compiled (case val of None \<Rightarrow> [] | Some v \<Rightarrow> v) then None
                            else Some (InvalidValue kind key))))"

definition ValidateManifestGlobalValue ::
  "'s schema_compiler \<Rightarrow> plugin_manifest option \<Rightarrow> string \<Rightarrow> (string \<times> gany) list option \<Rightarrow> config_error option" where
  "ValidateManifestGlobalValue J manifest key val =
     (case manifest of
        None \<Rightarrow> Some ConfigManifestRequired
      | Some m \<Rightarrow> ValidateValue J (FindSchema (pm_global_config_schema m) key) ''plugin global config'' key val)"

definition ValidateManifestUserValue ::
  "'s schema_compiler \<Rightarrow> plugin_manifest option \<Rightarrow> string \<Rightarrow> (string \<times> gany) list option \<Rightarrow> config_error option" where
  "ValidateManifestUserValue J manifest key val =
     (case manifest of
        None \<Rightarrow> Some ConfigManifestRequired
      | Some m \<Rightarrow> ValidateValue J (FindSchema (pm_user_config_schema m) key) ''plugin user config'' key val)"

lemma FindSchema_find:
  "FindSchema ss key = (case find (\<lambda>s. s \<noteq> None \<and> getter sch_key [] s = key) ss of None \<Rightarrow> None | Some s \<Rightarrow> s)"
  by (induction ss key rule: FindSchema.induct) auto

lemma FindSchema_Some:
  assumes "FindSchema ss key = Some s"
  shows "\<exists>pre post. ss = pre @ Some s # post \<and> sch_key s = key \<and> (\<forall>t. Some t \<in> set pre \<longrightarrow> sch_key t \<noteq> key)"
proof -
  have "find (\<lambda>s. s \<noteq> None \<and> getter sch_key [] s = key) ss = Some (Some s)"
    using assms FindSchema_find [of ss key]
    by (cases "find (\<lambda>s. s \<noteq> None \<and> getter sch_key [] s = key) ss") simp_all
  then obtain pre post where "ss = pre @ Some s # post" "sch_key s = key"
    "\<forall>x\<in>set pre. \<not> (x \<noteq> None \<and> getter sch_key [] x = key)"
    unfolding find_split by auto
  moreover from this(3) have "sch_key t \<noteq> key" if "Some t \<in> set pre" for t
    using that by fastforce
  ultimately show ?thesis by blast
qed

lemma FindSchema_None: "FindSchema ss key = None \<longleftrightarrow> (\<forall>s. Some s \<in> set ss \<longrightarrow> sch_key s \<noteq> key)"
  by (induction ss key rule: FindSchema.induct) auto

lemma FindSchema_unique:
  assumes "distinct (map sch_key (List.map_filter id ss))" and "Some s \<in> set ss"
  shows "FindSchema ss (sch_key s) = Some s"
proof -
  obtain t where t: "FindSchema ss (sch_key s) = Some t"
    using assms(2) FindSchema_None [of ss "sch_key s"] by (cases "FindSchema ss (sch_key s)") auto
  then obtain pre post where "ss = pre @ Some t # post" "sch_key t = sch_key s"
    by (auto dest: FindSchema_Some)
  then have "t \<in> set (List.map_filter id ss)" "s \<in> set (List.map_filter id ss)"
    using assms(2) by (auto simp: Some_mem_map_filter [symmetric])
  with assms(1) \<open>sch_key t = sch_key s\<close> have "t = s"
    by (metis distinct_map inj_onD)
  with t show ?thesis by simp
qed

end
