(* ===== verification/Manifest_Properties.thy ===== *)
theory Manifest_Properties
  imports Manifest_Diagnoses Config
begin

text \<open>
  The properties of the manifest package and of the config values checked against it. Each
  acceptance property states a validator against its contract; the loaders, the registration
  helpers and the catalog check are stated on their results.
\<close>

subsection \<open>A manifest for the examples\<close>

definition sample_auth :: capability_descriptor where
  "sample_auth = zero_capability\<lparr>cd_type := AuthProvider, cd_id := ''overlay'', cd_auth_modes := [AuthModeNetwork],
     cd_metadata := Some [(AuthProviderConnectionTestKey, BoolValue True)]\<rparr>"

definition sample_access :: capability_descriptor where
  "sample_access = zero_capability\<lparr>cd_type := NetworkAccessProvider, cd_id := ''net'',
     cd_network_access := Some \<lparr>na_provider = ''stub.net'', na_display_name = ''Stub''\<rparr>\<rparr>"

definition sample_manifest :: plugin_manifest where
  "sample_manifest = zero_manifest\<lparr>pm_plugin_id := ''org.sample'', pm_version := ''1.2.3'',
     pm_capabilities := [Some sample_auth, Some sample_access]\<rparr>"

lemma sample_mode: "mode_ok AuthModeNetwork"
proof -
  have asc: "ascii ''network''" "ascii ''password''" "ascii ''oauth2''"
    by (simp_all add: ascii_def byte_def)
  have "trim_space ''network'' = ''network''"
    using trimmed_iff [of "''network''"] runes_ascii [OF asc(1)] by (simp add: byte_def is_space_def)
  moreover have "\<not> equal_fold ascii_fold ''network'' ''password''" "\<not> equal_fold ascii_fold ''network'' ''oauth2''"
    unfolding equal_fold_def runes_ascii [OF asc(1)] runes_ascii [OF asc(2)] runes_ascii [OF asc(3)]
    by simp_all
  ultimately show ?thesis by (simp add: mode_ok_def auth_names)
qed

lemma sample_slug: "''stub.net'' \<in> slug_language"
  unfolding slug_match_language [symmetric] slug_match_def
  by (simp add: slug_char_def slug_sep_def byte_def)

lemma sample_auth_ok: "capability_ok X sample_auth"
  using sample_mode
  by (simp add: capability_ok_def sample_auth_def zero_capability_def watch_sync_capability_ok_def
      network_capability_ok_def router_capability_ok_def auth_capability_ok_def metadata_field_def
      is_bool_value_def KnownTypes_def) (simp add: capability_names auth_names)

lemma sample_access_ok: "capability_ok X sample_access"
  using sample_slug
  by (simp add: capability_ok_def sample_access_def zero_capability_def watch_sync_capability_ok_def
      network_capability_ok_def router_capability_ok_def auth_capability_ok_def KnownTypes_def)
    (simp add: capability_names)

lemma sample_manifest_ok: "manifest_ok X sample_manifest"
  using sample_auth_ok sample_access_ok
  by (simp add: manifest_ok_def header_ok_def sample_manifest_def zero_manifest_def pairing_ok_def)
    (simp add: sample_auth_def sample_access_def zero_capability_def)

subsection \<open>Validate\<close>

text \<open>
  C1 (validate_accepts): \<open>Validate\<close> returns no error exactly for a non-nil manifest that
  satisfies the contract: identity, presentation, every capability well formed with its schemas,
  a network auth mode paired with a network access provider, and well-formed config forms.
\<close>

theorem validate_accepts:
  "Validate X manifest = Accept \<longleftrightarrow> (\<exists>m. manifest = Some m \<and> manifest_ok X m)"
  by (rule Validate_Accept_iff)

text \<open>
  C35 (validate_panics): \<open>Validate\<close> dereferences a nil pointer exactly when the header of the
  manifest is accepted and the first capability that is not well formed is a nil element of the list.
\<close>

theorem validate_panics:
  "Validate X (Some m) = Panics \<longleftrightarrow>
     header_ok X m \<and> (\<exists>cs rest. pm_capabilities m = map Some cs @ None # rest \<and> list_all (capability_ok X) cs)"
  by (rule Validate_Panics_iff)

text \<open>
  C15 (network_mode_contract): in an accepted manifest, a capability that signs people in by their
  overlay identity offers neither password nor OAuth2 sign-in, and the manifest also declares a network
  access provider whose descriptor names its provider by a slug.
\<close>

theorem network_mode_contract:
  assumes "Validate X (Some m) = Accept" and "Some c \<in> set (pm_capabilities m)"
    and "AuthProviderUsesNetworkIdentity (Some c)"
  shows "AuthModePassword \<notin> set (cd_auth_modes c) \<and> AuthModeOAuth2 \<notin> set (cd_auth_modes c)
    \<and> (\<exists>a n. Some a \<in> set (pm_capabilities m) \<and> cd_type a = NetworkAccessProvider
          \<and> cd_network_access a = Some n \<and> na_provider n \<in> slug_language)"
proof -
  have ok: "manifest_ok X m" using assms(1) by (simp add: Validate_Accept)
  then have "capability_ok X c" using assms(2) by (fastforce simp: manifest_ok_def)
  then have modes: "AuthModePassword \<notin> set (cd_auth_modes c) \<and> AuthModeOAuth2 \<notin> set (cd_auth_modes c)"
    using assms(3) by (auto simp: capability_ok_def auth_capability_ok_def AuthProviderUsesNetworkIdentity_def split: if_splits)
  from ok assms(2,3) obtain d where "d \<in> set (pm_capabilities m)" "GetType d = NetworkAccessProvider"
    by (auto simp: manifest_ok_def pairing_ok_def)
  moreover from this ok obtain a where "d = Some a" "capability_ok X a" by (auto simp: manifest_ok_def)
  ultimately show ?thesis using modes
    by (auto simp: capability_ok_def network_capability_ok_def)
qed

lemma network_mode_contract_witness:
  "AuthModePassword \<notin> set (cd_auth_modes sample_auth) \<and> AuthModeOAuth2 \<notin> set (cd_auth_modes sample_auth)
    \<and> (\<exists>a n. Some a \<in> set (pm_capabilities sample_manifest) \<and> cd_type a = NetworkAccessProvider
          \<and> cd_network_access a = Some n \<and> na_provider n \<in> slug_language)"
proof (rule network_mode_contract [where X = sample_ext])
  show "Validate sample_ext (Some sample_manifest) = Accept"
    using sample_manifest_ok by (simp add: Validate_Accept)
  show "Some sample_auth \<in> set (pm_capabilities sample_manifest)"
    by (simp add: sample_manifest_def)
  show "AuthProviderUsesNetworkIdentity (Some sample_auth)"
    by (simp add: AuthProviderUsesNetworkIdentity_def sample_auth_def zero_capability_def)
qed

text \<open>
  C25 (validate_first_capability): when the header is accepted, the error \<open>Validate\<close> reports is that of
  the first capability that is not well formed, with that capability's id (or that its type or id is missing),
  whatever comes after it: later capabilities, nil elements, pairing and schemas are not looked at.
\<close>

theorem validate_first_capability:
  assumes "header_ok X m" and "pm_capabilities m = map Some cs @ Some c # rest"
    and "list_all (capability_ok X) cs" and "\<not> capability_ok X c"
  shows "\<exists>e. Validate X (Some m) = Reject e
    \<and> (e = CapTypeRequired \<and> cd_type c = [] \<or> e = CapIdRequired \<and> cd_type c \<noteq> [] \<and> cd_id c = []
       \<or> (\<exists>p. e = CapabilityError (cd_id c) p) \<and> cd_type c \<noteq> [] \<and> cd_id c \<noteq> [])"
proof -
  obtain e where e: "check_capability X c = Some e"
    using assms(4) by (cases "check_capability X c") (auto simp: check_capability_iff)
  have "Validate X (Some m) = Reject e"
    using assms(1) unfolding Validate_Some header_iff [symmetric] assms(2) check_capabilities_prefix [OF assms(3)]
    by (simp add: e)
  with check_capability_names [OF e] show ?thesis by blast
qed

lemma validate_first_capability_witness:
  "\<exists>e. Validate sample_ext (Some (sample_manifest\<lparr>pm_capabilities :=
        [Some sample_access, Some (sample_auth\<lparr>cd_type := ''unheard_of''\<rparr>), None]\<rparr>)) = Reject e
    \<and> (\<exists>p. e = CapabilityError ''overlay'' p)"
proof -
  have "\<not> capability_ok sample_ext (sample_auth\<lparr>cd_type := ''unheard_of''\<rparr>)"
    by (simp add: capability_ok_def KnownTypes_def capability_names)
  moreover have "header_ok sample_ext (sample_manifest\<lparr>pm_capabilities :=
      [Some sample_access, Some (sample_auth\<lparr>cd_type := ''unheard_of''\<rparr>), None]\<rparr>)"
    by (simp add: header_ok_def sample_manifest_def zero_manifest_def)
  ultimately show ?thesis
    using validate_first_capability [of sample_ext "sample_manifest\<lparr>pm_capabilities :=
        [Some sample_access, Some (sample_auth\<lparr>cd_type := ''unheard_of''\<rparr>), None]\<rparr>" "[sample_access]"
        "sample_auth\<lparr>cd_type := ''unheard_of''\<rparr>" "[None]"] sample_access_ok
    by (simp add: sample_auth_def)
qed

text \<open>
  C11 (validate_diagnoses): the error \<open>Validate\<close> reports is true. Whatever manifest it refuses, the manifest
  has the defect the error names, with the key, id, mode, field or limit the error prints: a batch size reported out of range
  is, a setting reported as duplicated occurs earlier in its list, a reference reported as unknown is not declared, and so on
  for every error of the package.
\<close>

theorem validate_diagnoses:
  assumes "Validate X (Some m) = Reject e"
  shows "manifest_finding X m e"
  by (rule Validate_finding [OF assms])

lemma validate_diagnoses_witness:
  "Validate sample_ext (Some (sample_manifest\<lparr>pm_capabilities := [Some sample_auth]\<rparr>))
      = Reject (CapabilityError ''overlay'' NetworkUnpaired)
   \<and> manifest_finding sample_ext (sample_manifest\<lparr>pm_capabilities := [Some sample_auth]\<rparr>)
      (CapabilityError ''overlay'' NetworkUnpaired)"
proof -
  let ?m = "sample_manifest\<lparr>pm_capabilities := [Some sample_auth]\<rparr>"
  have "header_ok sample_ext ?m" by (simp add: header_ok_def sample_manifest_def zero_manifest_def)
  moreover have "check_capabilities sample_ext (pm_capabilities ?m) = Accept"
    using sample_auth_ok by (simp add: check_capability_iff)
  moreover have "validateNetworkAuthPairing (pm_capabilities ?m) = Some (CapabilityError ''overlay'' NetworkUnpaired)"
    by (simp add: validateNetworkAuthPairing_def AuthProviderUsesNetworkIdentity_def sample_auth_def zero_capability_def)
  ultimately have "Validate sample_ext (Some ?m) = Reject (CapabilityError ''overlay'' NetworkUnpaired)"
    unfolding Validate_Some header_iff [symmetric] by simp
  with validate_diagnoses [OF this] show ?thesis by blast
qed

subsection \<open>The component checks\<close>

text \<open>
  C12 (watch_sync_accepts): the check of a capability's watch sync descriptor accepts exactly a
  watch_sync_provider.v1 capability with a slug id and a descriptor that satisfies its contract, or
  another type without a descriptor.
\<close>

theorem watch_sync_accepts:
  "validateWatchSyncCapability X d = None \<longleftrightarrow> watch_sync_capability_ok X d"
  by (rule watch_sync.check_None)

text \<open>
  C13 (auth_provider_accepts): the check of an auth provider accepts exactly distinct, non-blank auth
  modes that spell the known modes exactly, the network mode only on its own beside password and OAuth2,
  and a \<open>connection_test\<close> metadata value that is a boolean.
\<close>

theorem auth_provider_accepts:
  "validateAuthProviderCapability d = None \<longleftrightarrow> auth_capability_ok d"
  by (rule auth.check_None)

text \<open>
  C20 (request_router_accepts): router wording is accepted exactly when every text is one line of
  bounded length without control characters, line separators or surrounding spaces, and only
  request_router.v1 capabilities carry a router descriptor.
\<close>

theorem request_router_accepts:
  "validateRequestRouterCapability d = None \<longleftrightarrow> router_capability_ok d"
  by (rule router.check_None)

text \<open>
  C24 (presentation_accepts): the presentation block is accepted exactly when titles are trimmed,
  bounded and free of control characters, markdown is bounded, and every URL is empty or an absolute
  http or https URL without credentials, spaces or control characters.
\<close>

theorem presentation_accepts:
  "validatePresentation X p = None \<longleftrightarrow> pred_option (presentation_ok X) p"
  by (rule validatePresentation_iff)

text \<open>
  C14 (config_form_accepts): a config schema with an admin form is accepted exactly when its JSON
  Schema is an object schema and, in the form, keys are distinct and declared, controls and default values
  fit the declared types, and every reference names a declared property; the two passes of the code
  decide just that.
\<close>

theorem config_form_accepts:
  "validateConfigSchema X schema = None \<longleftrightarrow> config_schema_ok X schema"
  by (rule config_schema.check_None)

text \<open>
  The slug matcher accepts exactly the language of the pattern
  \<open>^[a-z0-9]+(?:[._-][a-z0-9]+)*$\<close>.
\<close>

theorem slug_pattern: "slug_match s \<longleftrightarrow> s \<in> slug_language"
  by (rule slug_match_language)

text \<open>
  A slug has only lowercase letters, digits and the separators, and no two
  separators in a row, so in particular no path traversal.
\<close>

theorem slug_path_safe:
  assumes "slug_match s"
  shows "(\<forall>c\<in>set s. slug_char c \<or> slug_sep c) \<and> (\<nexists>xs ys c d. s = xs @ c # d # ys \<and> slug_sep c \<and> slug_sep d)"
  using assms slug_run_chars [of False s] slug_run_no_double [of False]
  unfolding slug_match_def by blast

lemma slug_path_safe_witness:
  "(\<forall>c\<in>set ''stub.net''. slug_char c \<or> slug_sep c)
   \<and> (\<nexists>xs ys c d. ''stub.net'' = xs @ c # d # ys \<and> slug_sep c \<and> slug_sep d)"
  using sample_slug unfolding slug_match_language [symmetric] by (rule slug_path_safe)

subsection \<open>Loading\<close>

text \<open>
  C6 (load_with_checksum): \<open>LoadWithChecksum\<close> returns exactly the decoded manifest with the
  overriding version and the hex SHA-256 of the running executable, and only if that manifest, with
  the overriding version, satisfies the contract.
\<close>

theorem load_with_checksum:
  "LoadWithChecksum X P embedded version = Returned m \<longleftrightarrow>
     (\<exists>m0 exe data.
        protojson P embedded = Some m0 \<and> executable P = Some exe \<and> read_file P exe = Some data
        \<and> m = m0\<lparr>pm_version := (if version \<noteq> [] then version else pm_version m0),
                 pm_checksum := hex_encode (sha256 P data)\<rparr>
        \<and> manifest_ok X m)"
  by (rule LoadWithChecksum_Returned)

definition sample_platform :: platform where
  "sample_platform = \<lparr>protojson = (\<lambda>data. if data = ''manifest'' then Some sample_manifest else None),
     read_file = (\<lambda>path. Some ''binary''), executable = Some ''/plugin'',
     sha256 = (\<lambda>data. replicate 32 (CHR ''a''))\<rparr>"

text \<open>
  If the digest has 32 bytes, the checksum of a manifest that
  \<open>LoadWithChecksum\<close> returns is 64 lowercase hexadecimal digits.
\<close>

theorem checksum_shape:
  assumes "\<And>data. length (sha256 P data) = 32" and "LoadWithChecksum X P embedded version = Returned m"
  shows "length (pm_checksum m) = 64 \<and> set (pm_checksum m) \<subseteq> set ''0123456789abcdef''"
proof -
  from assms(2) obtain data where "pm_checksum m = hex_encode (sha256 P data)"
    by (auto simp: LoadWithChecksum_Returned)
  with assms(1) show ?thesis using hex_encode_shape [of "sha256 P data"] by simp
qed

lemma checksum_shape_witness:
  "\<exists>m. LoadWithChecksum sample_ext sample_platform ''manifest'' [] = Returned m
     \<and> length (pm_checksum m) = 64 \<and> set (pm_checksum m) \<subseteq> set ''0123456789abcdef''"
proof -
  let ?m = "sample_manifest\<lparr>pm_checksum := hex_encode (sha256 sample_platform ''binary'')\<rparr>"
  have "manifest_ok sample_ext ?m"
    using sample_manifest_ok by (simp add: Validate_Accept [symmetric] Validate_other_fields)
  then have "LoadWithChecksum sample_ext sample_platform ''manifest'' [] = Returned ?m"
    by (simp add: LoadWithChecksum_Returned sample_platform_def)
  moreover from checksum_shape [OF _ this] have
    "length (pm_checksum ?m) = 64 \<and> set (pm_checksum ?m) \<subseteq> set ''0123456789abcdef''"
    by (simp add: sample_platform_def)
  ultimately show ?thesis by blast
qed

text \<open>
  As long as the decoder yields no nil capability, no loader panics on a nil
  pointer, whatever the bytes: \<open>Load\<close> and \<open>LoadWithChecksum\<close> return a manifest or an error.
\<close>

theorem load_no_panic:
  assumes "decodes_no_nil P"
  shows "Load X P data \<noteq> Panicked \<and> LoadWithChecksum X P data version \<noteq> Panicked"
  using decode_no_panic [OF assms] by blast

lemma load_no_panic_witness:
  "Load sample_ext sample_platform ''manifest'' \<noteq> Panicked
   \<and> LoadWithChecksum sample_ext sample_platform ''manifest'' ''2.0.0'' \<noteq> Panicked"
proof (rule load_no_panic)
  show "decodes_no_nil sample_platform"
    by (simp add: decodes_no_nil_def sample_platform_def sample_manifest_def)
qed

subsection \<open>Registration and the catalog\<close>

text \<open>
  \<open>RegisterHTTPRoutes\<close> appends the routes to a manifest it accepts, leaves
  any other manifest as it was and returns the validator's verdict; the extended manifest is accepted again,
  also by \<open>RegisterAssets\<close>.
\<close>

theorem register_routes:
  "RegisterHTTPRoutes X (Some m) routes =
     (if Validate X (Some m) = Accept then (Some (m\<lparr>pm_http_routes := pm_http_routes m @ routes\<rparr>), Accept)
      else (Some m, Validate X (Some m)))
   \<and> snd (RegisterAssets X (fst (RegisterHTTPRoutes X (Some m) routes)) assets) = Validate X (Some m)"
  by (cases "Validate X (Some m)") (simp_all add: RegisterHTTPRoutes_def RegisterAssets_def Validate_other_fields)

text \<open>
  The catalog contract is the general contract plus a presentation block whose
  required fields are not blank and whose source URL equals the expected one up to case and one
  trailing slash.
\<close>

theorem catalog_accepts:
  "ValidateCatalogPresentation X canon (Some m) expected = Accept \<longleftrightarrow>
     manifest_ok X m
     \<and> (\<exists>p. pm_presentation m = Some p
          \<and> list_all (\<lambda>(name, v). trim_space v \<noteq> []) (required_fields p)
          \<and> (expected = [] \<or> equalCanonicalURL canon (pr_source_url p) expected))"
  unfolding catalog_accept list_all_iff by blast

subsection \<open>Config values\<close>

definition sample_schema :: config_schema where
  "sample_schema = zero_schema\<lparr>sch_key := ''server''\<rparr>"

definition accept_all :: "unit schema_compiler" where
  "accept_all = \<lparr>add_resource = (\<lambda>_ _. True), compile = (\<lambda>_ _. Some ()), conforms = (\<lambda>_ _. True)\<rparr>"

text \<open>
  When the global schemas of a manifest have distinct keys, the value of a
  declared key is checked against the schema that declares it, nil elements aside, and a value of no
  declared key is refused.
\<close>

theorem config_value_schema:
  assumes "distinct (map sch_key (List.map_filter id (pm_global_config_schema m)))"
    and "Some s \<in> set (pm_global_config_schema m)"
    and "key \<notin> sch_key ` set (List.map_filter id (pm_global_config_schema m))"
  shows "ValidateManifestGlobalValue J (Some m) (sch_key s) val
      = ValidateValue J (Some s) ''plugin global config'' (sch_key s) val
    \<and> ValidateManifestGlobalValue J (Some m) key val = Some (NotDeclared ''plugin global config'' key)"
proof -
  have "FindSchema (pm_global_config_schema m) key = None"
    using assms(3) by (auto simp: FindSchema_None Some_mem_map_filter)
  with FindSchema_unique [OF assms(1,2)] show ?thesis
    by (simp add: ValidateManifestGlobalValue_def ValidateValue_def)
qed

lemma config_value_schema_witness:
  "ValidateManifestGlobalValue accept_all (Some (zero_manifest\<lparr>pm_global_config_schema := [None, Some sample_schema]\<rparr>))
      (sch_key sample_schema) None
    = ValidateValue accept_all (Some sample_schema) ''plugin global config'' (sch_key sample_schema) None
   \<and> ValidateManifestGlobalValue accept_all (Some (zero_manifest\<lparr>pm_global_config_schema := [None, Some sample_schema]\<rparr>))
      ''other'' None = Some (NotDeclared ''plugin global config'' ''other'')"
  by (rule config_value_schema) (simp_all add: sample_schema_def List.map_filter_simps)

end
