(* ===== verification/Runtime_Properties.thy ===== *)
theory Runtime_Properties
  imports Serve Host_Goroutines Manifest_Properties
begin

text \<open>
  The properties of the plugin runtime: the host client of the process, the startup checks, what a
  served configuration registers, and the way from the manifest to the served process.
\<close>

subsection \<open>The host client\<close>

text \<open>
  C3 (host_client_of_binding): however the statements of concurrent calls of \<open>Host()\<close>,
  \<open>SetHostBrokerID\<close> and \<open>setBroker\<close> interleave, a call of \<open>Host()\<close> returns the one connection
  dialed for the current binding, and nothing if no dial of that binding has succeeded: never a connection of an
  earlier broker or stream, and never a second one. The current binding is that of the calls that
  returned before.
\<close>

theorem host_client_of_binding:
  assumes "run host_goroutine_step (idle pluginHost) (tr @ [Answered g (HostCall log r)]) P"
  shows "snd (snd (binding_of (returns tr @ [HostCall log r]))) = (case r of None \<Rightarrow> [] | Some c \<Rightarrow> [c])
    \<and> fst (binding_of (returns tr @ [HostCall log r])) = hs_broker (shared P)
    \<and> (\<forall>(b, i, c)\<in>set log. hs_broker (shared P) = Some b \<and> hs_brokerID (shared P) = i)
    \<and> open_calls tr g = Some CallHost"
proof -
  have "open_calls tr g = Some CallHost"
    using host_return_method [OF assms] by (auto elim: host_answers.elims)
  with host_call_of_binding [OF host_return_run [OF assms]] show ?thesis by blast
qed

text \<open>
  A handler of goroutine 3 asks for the host while goroutine 2 binds a stream of the broker that goroutine 1 has set; it
  waits for the mutex and gets the connection that the binding dialed.
\<close>

definition sample_schedule :: "host_activity list" where
  "sample_schedule =
     [Called 1 (CallSetBroker (Some 1)), Locked 1, Executed 1, Called 2 (CallSetBrokerID 9), Executed 1, Executed 1,
      Answered 1 (SetBroker (Some 1)), Locked 2, Executed 2, Called 3 CallHost, Executed 2, Executed 2, Executed 2, Executed 2,
      Answered 2 (SetBrokerID 9 [(1, 9, Some 5)]), Locked 3, Executed 3, Executed 3]"

definition bound_state :: host_state where
  "bound_state = \<lparr>hs_broker = Some 1, hs_brokerID = 9, hs_client = Some 5\<rparr>"

lemma sample_schedule_run:
  "\<exists>P. host_schedule (Some 5) (sample_schedule @ [Answered 3 (HostCall [] (Some 5))]) (idle pluginHost) = Some P
     \<and> shared P = bound_state"
  by (simp add: host_schedule_def sample_schedule_def idle_def pluginHost_def bound_state_def Let_def)

lemma host_client_of_binding_witness:
  "snd (snd (binding_of (returns sample_schedule @ [HostCall [] (Some 5)]))) = [5]
   \<and> fst (binding_of (returns sample_schedule @ [HostCall [] (Some 5)])) = Some 1
   \<and> returns sample_schedule = [SetBroker (Some 1), SetBrokerID 9 [(1, 9, Some 5)]]"
proof -
  obtain P where P: "host_schedule (Some 5) (sample_schedule @ [Answered 3 (HostCall [] (Some 5))]) (idle pluginHost) = Some P"
    and sh: "shared P = bound_state" using sample_schedule_run by blast
  from host_client_of_binding [OF host_schedule_run [OF P]] sh show ?thesis
    by (simp add: bound_state_def sample_schedule_def)
qed

text \<open>
  The mutex of the singleton alone blocks no call for good. In every reachable interleaving a call that has
  not returned, waiting or inside, can be run to its return.
\<close>

theorem host_calls_return:
  assumes "run host_goroutine_step (idle pluginHost) tr P" and "open_calls tr g = Some m"
  shows "\<exists>tr' e Q. run host_goroutine_step P (tr' @ [Answered g e]) Q \<and> host_answers m e
    \<and> run host_step pluginHost (returns tr @ returns tr' @ [e]) (shared Q)"
proof -
  obtain tr' e Q where r: "run host_goroutine_step P (tr' @ [Answered g e]) Q" and o: "open_calls (tr @ tr') g = Some m"
    using host_call_completes [OF assms] by blast
  have all: "run host_goroutine_step (idle pluginHost) ((tr @ tr') @ [Answered g e]) Q"
    using assms(1) r by (auto simp: run_append)
  from host_return_run [OF all] host_return_method [OF all] o r show ?thesis by auto
qed

text \<open>Goroutine 3 waits while goroutine 2 is inside \<open>SetHostBrokerID\<close>.\<close>

lemma host_calls_return_witness:
  "\<exists>P tr e Q. host_schedule (Some 5) (take 11 sample_schedule) (idle pluginHost) = Some P
     \<and> goroutines P 3 = Some (Calling CallHost) \<and> holder P = Some 2
     \<and> run host_goroutine_step P (tr @ [Answered 3 e]) Q \<and> host_answers CallHost e"
proof -
  obtain P where P: "host_schedule (Some 5) (take 11 sample_schedule) (idle pluginHost) = Some P"
    and w: "goroutines P 3 = Some (Calling CallHost)" "holder P = Some 2"
    by (simp add: host_schedule_def sample_schedule_def idle_def pluginHost_def)
  have "open_calls (take 11 sample_schedule) 3 = Some CallHost"
    by (simp add: sample_schedule_def open_calls_def)
  from host_calls_return [OF host_schedule_run [OF P] this] P w show ?thesis by blast
qed

text \<open>
  Once \<open>Host()\<close> has a client, every further call returns the same client
  and none of them dials, until the host binds again.
\<close>

theorem host_client_stable:
  assumes "hs_client s = Some c" and "run host_step s tr t" and "list_all is_call tr"
  shows "t = s \<and> tr = replicate (length tr) (HostCall [] (Some c))"
  using calls_keep_client [OF assms(2,1,3)] by (simp add: map_replicate_const)

lemma host_client_stable_witness:
  "bound_state = bound_state \<and> [HostCall [] (Some 5)] = replicate (length [HostCall [] (Some 5)]) (HostCall [] (Some 5))"
proof (rule host_client_stable)
  have "host_step bound_state (HostCall [] (Some 5)) bound_state"
    by (rule host_step.intros(3) [where dial = "\<lambda>_ _. None"]) (simp add: host_def dialLocked_def bound_state_def)
  then show "run host_step bound_state [HostCall [] (Some 5)] bound_state" by (simp only: run_Cons run_Nil_iff) blast
qed (simp_all add: is_call_def bound_state_def)

text \<open>
  After the gRPC server of the plugin is set up with a broker and the host has
  bound a stream, \<open>Host()\<close> has a client as soon as one dial succeeds: at bind time, or, if that dial
  failed, at the first call whose dial succeeds.
\<close>

theorem bind_then_host:
  assumes "GRPCServer p (Some b) (h0, regs) = (True, h1, regs')" and "i \<noteq> 0"
    and "BindHostBroker dial i h1 = (log, h2)" and "dial b i = Some c \<or> dial' b i = Some c"
    and "dial b i = Some c \<or> dial b i = None"
  shows "fst (host dial' h2) = Some c"
proof -
  have h1: "h1 = setBroker (Some b) h0"
    using assms(1)
  proof (induction p arbitrary: regs' h1)
    case (GRPCPlugin servers)
    then show ?case by (auto simp: registerServers_def split: option.splits)
  next
    case (WithOptionalServices servers optional)
    then show ?case by (auto simp: registerServers_def split: option.splits)
  next
    case (WithStorage p storage)
    then show ?case by (auto split: prod.splits bool.splits)
  qed
  show ?thesis
  proof (cases "dial b i")
    case None
    with assms h1 have "h2 = h1\<lparr>hs_brokerID := i, hs_client := None\<rparr>"
      by (auto simp: BindHostBroker_def SetHostBrokerID_def setBrokerID_def dialLocked_def setBroker_def Let_def)
    with host_redials [of h2 b dial' c] None assms(2,4) h1 show ?thesis by (simp add: setBroker_def)
  next
    case (Some c')
    with assms(5) have "c' = c" by simp
    with Some assms(2,3) h1 have "hs_client h2 = Some c"
      by (auto simp: BindHostBroker_def SetHostBrokerID_def setBrokerID_def dialLocked_def setBroker_def Let_def)
    then show ?thesis by (simp add: host_def dialLocked_def)
  qed
qed

definition sample_server :: gserver where
  "sample_server = \<lparr>srv_id = 1, srv_implements = [AuthProviderService, NetworkIdentityAuthService], srv_nil_pointer = False\<rparr>"

definition checks_server :: gserver where
  "checks_server = \<lparr>srv_id = 2, srv_implements = [AuthProviderChecksService], srv_nil_pointer = False\<rparr>"

lemma bind_then_host_witness:
  "fst (host (\<lambda>_ _. Some 8) (bound_state\<lparr>hs_client := None\<rparr>)) = Some 8"
  by (rule bind_then_host [where p = "GRPCPlugin (no_servers\<lparr>cs_Runtime := Some (PluginRuntime sample_server)\<rparr>)"
        and b = 1 and i = 9 and dial = "\<lambda>_ _. None" and ?h0.0 = pluginHost and ?h1.0 = "setBroker (Some 1) pluginHost"
        and regs = "[]"])
    (simp_all add: registerServers_def no_servers_def BindHostBroker_def SetHostBrokerID_def setBrokerID_def dialLocked_def setBroker_def
      pluginHost_def bound_state_def Let_def)

subsection \<open>Startup checks and registration\<close>

text \<open>
  C16 (startup_accepts): \<open>manifestServeConfig\<close> refuses a plugin exactly when its manifest promises an
  auth service that no server of the process provides.
\<close>

theorem startup_accepts:
  "(\<exists>cfg. manifestServeConfig m servers options = Inr cfg) \<longleftrightarrow>
     (let o1 = resolve_options zero_serve_options options
      in startup_ok (auth_service AuthProviderChecksService servers o1 \<noteq> None)
           (auth_service NetworkIdentityAuthService servers o1 \<noteq> None) (GetCapabilities m))"
  by (simp add: manifestServeConfig_Inr Let_def)

text \<open>
  C5 (services_registered): the gRPC server of a served configuration registers each service that has a
  server, once, in a fixed order, with the server resolved for it, and nothing else; the Runtime service
  answers with the manifest the process was started with.
\<close>

theorem services_registered:
  assumes "manifestServeConfig m servers options = Inr cfg"
  shows "\<exists>p. sc_Plugins cfg = [(PluginSetName, p)]
    \<and> (\<forall>b h. GRPCServer p b (h, []) =
          (True, setBroker b h, present (service_table (sc_Servers cfg) (resolve_options zero_serve_options options))))
    \<and> distinct (map fst (present (service_table (sc_Servers cfg) (resolve_options zero_serve_options options))))
    \<and> cs_Runtime (sc_Servers cfg) = Some (ManifestRuntime
        \<lparr>mr_manifest = m, mr_configure = so_configure (resolve_options zero_serve_options options)\<rparr>)"
proof -
  let ?o = "resolve_options zero_serve_options options"
  have cfg: "sc_Plugins cfg = manifestPluginSet (sc_Servers cfg) ?o"
    and rt: "cs_Runtime (sc_Servers cfg) = Some (ManifestRuntime \<lparr>mr_manifest = m, mr_configure = so_configure ?o\<rparr>)"
    using assms by (auto simp: manifestServeConfig_Inr Let_def)
  obtain p where "manifestPluginSet (sc_Servers cfg) ?o = [(PluginSetName, p)]"
    "\<And>b h. GRPCServer p b (h, []) = (True, setBroker b h, present (service_table (sc_Servers cfg) ?o))"
    using manifestPluginSet_registers [OF rt, of ?o] by blast
  with cfg rt show ?thesis by (simp add: present_distinct)
qed

definition sample_servers :: capability_servers where
  "sample_servers = no_servers\<lparr>cs_AuthProvider := Some sample_server\<rparr>"

definition sample_options :: "serve_option option list" where
  "sample_options = [None, Some (WithAuthProviderChecks (Some checks_server))]"

definition sample_config :: serve_config where
  "sample_config = (let s = sample_servers\<lparr>cs_Runtime := Some (ManifestRuntime
       \<lparr>mr_manifest = Some sample_manifest, mr_configure = None\<rparr>)\<rparr>
     in \<lparr>sc_Plugins = manifestPluginSet s (resolve_options zero_serve_options sample_options), sc_Servers = s\<rparr>)"

lemma sample_config_served: "manifestServeConfig (Some sample_manifest) sample_servers sample_options = Inr sample_config"
  by (simp add: manifestServeConfig_Inr Let_def sample_config_def sample_options_def zero_serve_options_def
      auth_service_def resolveAuthService_def isNilServer_def checks_server_def sample_server_def sample_servers_def
      no_servers_def startup_ok_def)

lemma services_registered_witness:
  "\<exists>p. sc_Plugins sample_config = [(PluginSetName, p)]
    \<and> (\<forall>b h. GRPCServer p b (h, []) =
          (True, setBroker b h, present (service_table (sc_Servers sample_config) (resolve_options zero_serve_options sample_options))))
    \<and> distinct (map fst (present (service_table (sc_Servers sample_config) (resolve_options zero_serve_options sample_options))))
    \<and> cs_Runtime (sc_Servers sample_config) = Some (ManifestRuntime
        \<lparr>mr_manifest = Some sample_manifest, mr_configure = so_configure (resolve_options zero_serve_options sample_options)\<rparr>)"
  by (rule services_registered [OF sample_config_served])

text \<open>
  C2 (network_mode_served): a process that \<open>ServeManifest\<close> starts for a manifest with a network auth
  mode has the NetworkIdentityAuth and the AuthProviderChecks service registered, so neither the sign-in nor the
  re-check of a person is left unimplemented, and its manifest declares the network access provider the mode needs.
\<close>

theorem network_mode_served:
  assumes "LoadWithChecksum X P embedded version = Returned m"
    and "manifestServeConfig (Some m) servers options = Inr cfg"
    and "d \<in> set (pm_capabilities m)" and "AuthProviderUsesNetworkIdentity d"
  shows "\<exists>p regs. sc_Plugins cfg = [(PluginSetName, p)] \<and> (\<forall>b h. GRPCServer p b (h, []) = (True, setBroker b h, regs))
    \<and> NetworkIdentityAuthService \<in> fst ` set regs \<and> AuthProviderChecksService \<in> fst ` set regs
    \<and> (\<exists>a\<in>set (pm_capabilities m). GetType a = NetworkAccessProvider)"
proof -
  let ?o = "resolve_options zero_serve_options options"
  let ?t = "service_table (sc_Servers cfg) ?o"
  have rt: "cs_Runtime (sc_Servers cfg) = Some (ManifestRuntime \<lparr>mr_manifest = Some m, mr_configure = so_configure ?o\<rparr>)"
    and plugins: "sc_Plugins cfg = manifestPluginSet (sc_Servers cfg) ?o"
    and auth: "cs_AuthProvider (sc_Servers cfg) = cs_AuthProvider servers"
    and ok: "startup_ok (auth_service AuthProviderChecksService servers ?o \<noteq> None)
      (auth_service NetworkIdentityAuthService servers ?o \<noteq> None) (pm_capabilities m)"
    using assms(2) by (auto simp: manifestServeConfig_Inr Let_def)
  from ok assms(3,4) obtain x y where x: "auth_service AuthProviderChecksService servers ?o = Some x"
    and y: "auth_service NetworkIdentityAuthService servers ?o = Some y"
    by (auto simp: startup_ok_def)
  have "(AuthProviderChecksService, Some (Impl x)) \<in> set ?t" "(NetworkIdentityAuthService, Some (Impl y)) \<in> set ?t"
    using x y auth by (simp_all add: service_table_def auth_service_def)
  then have reg: "map_of (present ?t) AuthProviderChecksService = Some (Impl x)"
    "map_of (present ?t) NetworkIdentityAuthService = Some (Impl y)"
    by (simp_all add: present_lookup)
  have "AuthProviderChecksService \<in> fst ` set (present ?t)" "NetworkIdentityAuthService \<in> fst ` set (present ?t)"
    using map_of_SomeD [OF reg(1)] map_of_SomeD [OF reg(2)] by force+
  moreover have "pairing_ok (pm_capabilities m)"
    using assms(1) by (auto simp: LoadWithChecksum_Returned manifest_ok_def)
  moreover obtain p where "sc_Plugins cfg = [(PluginSetName, p)]"
    "\<And>b h. GRPCServer p b (h, []) = (True, setBroker b h, present ?t)"
    using manifestPluginSet_registers [OF rt, of ?o] plugins by metis
  ultimately show ?thesis using assms(3,4) by (auto simp: pairing_ok_def)
qed

definition stamped_manifest :: plugin_manifest where
  "stamped_manifest = sample_manifest\<lparr>pm_checksum := hex_encode (replicate 32 (CHR ''a''))\<rparr>"

lemma stamped_manifest_loaded:
  "LoadWithChecksum sample_ext sample_platform ''manifest'' [] = Returned stamped_manifest"
proof -
  have "manifest_ok sample_ext stamped_manifest"
    using sample_manifest_ok by (simp add: stamped_manifest_def Validate_Accept [symmetric] Validate_other_fields)
  then show ?thesis by (simp add: LoadWithChecksum_Returned sample_platform_def stamped_manifest_def)
qed

lemma network_mode_served_witness:
  "\<exists>cfg p regs. manifestServeConfig (Some stamped_manifest) sample_servers sample_options = Inr cfg
    \<and> sc_Plugins cfg = [(PluginSetName, p)] \<and> (\<forall>b h. GRPCServer p b (h, []) = (True, setBroker b h, regs))
    \<and> NetworkIdentityAuthService \<in> fst ` set regs \<and> AuthProviderChecksService \<in> fst ` set regs"
proof -
  have "\<exists>cfg. manifestServeConfig (Some stamped_manifest) sample_servers sample_options = Inr cfg"
    by (simp add: manifestServeConfig_Inr Let_def sample_options_def zero_serve_options_def
      auth_service_def resolveAuthService_def isNilServer_def checks_server_def sample_server_def sample_servers_def
      no_servers_def startup_ok_def)
  then obtain cfg where cfg: "manifestServeConfig (Some stamped_manifest) sample_servers sample_options = Inr cfg" ..
  have "Some sample_auth \<in> set (pm_capabilities stamped_manifest)" "AuthProviderUsesNetworkIdentity (Some sample_auth)"
    by (simp_all add: stamped_manifest_def sample_manifest_def AuthProviderUsesNetworkIdentity_def sample_auth_def zero_capability_def)
  from network_mode_served [OF stamped_manifest_loaded cfg this] cfg show ?thesis by blast
qed

text \<open>
  The server registered for AuthProviderChecks is the one the last
  \<open>WithAuthProviderChecks\<close> option gave, unless it is nil or a nil pointer; then it is the AuthProvider
  server if that one implements the service, and none otherwise.
\<close>

theorem explicit_checks_win:
  assumes "manifestServeConfig m servers (before @ Some (WithAuthProviderChecks explicit) # after) = Inr cfg"
    and "\<And>s. Some (WithAuthProviderChecks s) \<notin> set after"
  shows "map_of (present (service_table (sc_Servers cfg)
        (resolve_options zero_serve_options (before @ Some (WithAuthProviderChecks explicit) # after))))
      AuthProviderChecksService =
    map_option Impl (if \<not> isNilServer explicit then explicit
      else case cs_AuthProvider servers of
             None \<Rightarrow> None
           | Some a \<Rightarrow> if AuthProviderChecksService \<in> set (srv_implements a) then Some a else None)"
proof -
  let ?o = "resolve_options zero_serve_options (before @ Some (WithAuthProviderChecks explicit) # after)"
  have keep: "so_authProviderChecks (resolve_options o1 os) = so_authProviderChecks o1"
    if "\<And>s. Some (WithAuthProviderChecks s) \<notin> set os" for o1 os
    using that
  proof (induction o1 os rule: resolve_options.induct)
    case (3 o1 f os)
    then show ?case by (cases f) auto
  qed auto
  have o: "so_authProviderChecks ?o = explicit"
    using keep [OF assms(2)] by (simp add: resolve_options_append)
  have auth: "cs_AuthProvider (sc_Servers cfg) = cs_AuthProvider servers"
    using assms(1) by (auto simp: manifestServeConfig_Inr Let_def)
  have "(AuthProviderChecksService, map_option Impl (resolveAuthService AuthProviderChecksService (cs_AuthProvider servers) explicit))
      \<in> set (service_table (sc_Servers cfg) ?o)"
    by (simp add: service_table_def o auth)
  then show ?thesis
    by (simp add: present_lookup resolveAuthService_def)
qed

lemma explicit_checks_win_witness:
  "map_of (present (service_table (sc_Servers sample_config)
        (resolve_options zero_serve_options ([None] @ Some (WithAuthProviderChecks (Some checks_server)) # []))))
      AuthProviderChecksService =
    map_option Impl (if \<not> isNilServer (Some checks_server) then Some checks_server
      else case cs_AuthProvider sample_servers of
             None \<Rightarrow> None
           | Some a \<Rightarrow> if AuthProviderChecksService \<in> set (srv_implements a) then Some a else None)"
  by (rule explicit_checks_win [where m = "Some sample_manifest"])
    (use sample_config_served in \<open>simp_all add: sample_options_def\<close>)

text \<open>
  C33 (manifest_subcommand): a process started by \<open>ServeManifest\<close> whose first argument is
  \<open>manifest\<close>, whatever follows it, prints exactly the validated, stamped manifest, and exits with a failure only when that
  manifest cannot be encoded; with any other arguments, and with none, it serves its plugins.
\<close>

theorem manifest_subcommand:
  assumes "LoadWithChecksum X P embedded version = Returned m"
    and "manifestServeConfig (Some m) servers options = Inr cfg"
  shows "ServeManifestWithOptions X P E args embedded version servers options =
    Some (if \<exists>prog rest. args = prog # ''manifest'' # rest
          then (case marshal_manifest E (Some m) of None \<Rightarrow> ExitFailure | Some data \<Rightarrow> PrintManifest data)
          else ServePlugins HandshakeConfig (sc_Plugins cfg))"
proof -
  let ?o = "resolve_options zero_serve_options options"
  have rt: "cs_Runtime (sc_Servers cfg) = Some (ManifestRuntime \<lparr>mr_manifest = Some m, mr_configure = so_configure ?o\<rparr>)"
    and plugins: "sc_Plugins cfg = manifestPluginSet (sc_Servers cfg) ?o"
    using assms(2) by (auto simp: manifestServeConfig_Inr Let_def)
  obtain p where "sc_Plugins cfg = [(PluginSetName, p)]"
    using manifestPluginSet_registers [OF rt, of ?o] plugins by metis
  with rt assms show ?thesis
    unfolding subcommand_args [symmetric]
    by (simp add: ServeManifestWithOptions_def Serve_def GetManifest_def)
qed

lemma manifest_subcommand_witness:
  "\<exists>cfg :: serve_config. ServeManifestWithOptions sample_ext sample_platform
        \<lparr>plugin_get_manifest = (\<lambda>_. None), marshal_manifest = (\<lambda>_. Some ''json'')\<rparr> [''plugin'', ''manifest'', ''now''] ''manifest'' []
        sample_servers sample_options = Some (PrintManifest ''json'')
    \<and> ServeManifestWithOptions sample_ext sample_platform
        \<lparr>plugin_get_manifest = (\<lambda>_. None), marshal_manifest = (\<lambda>_. Some ''json'')\<rparr> [''plugin'', ''serve'', ''manifest''] ''manifest'' []
        sample_servers sample_options = Some (ServePlugins HandshakeConfig (sc_Plugins cfg))"
proof -
  have "\<exists>cfg. manifestServeConfig (Some stamped_manifest) sample_servers sample_options = Inr cfg"
    by (simp add: manifestServeConfig_Inr Let_def sample_options_def zero_serve_options_def
      auth_service_def resolveAuthService_def isNilServer_def checks_server_def sample_server_def sample_servers_def
      no_servers_def startup_ok_def)
  then obtain cfg where cfg: "manifestServeConfig (Some stamped_manifest) sample_servers sample_options = Inr cfg" ..
  show ?thesis
    using manifest_subcommand [OF stamped_manifest_loaded cfg,
        of "\<lparr>plugin_get_manifest = (\<lambda>_. None), marshal_manifest = (\<lambda>_. Some ''json'')\<rparr>" "[''plugin'', ''manifest'', ''now'']"]
      manifest_subcommand [OF stamped_manifest_loaded cfg,
        of "\<lparr>plugin_get_manifest = (\<lambda>_. None), marshal_manifest = (\<lambda>_. Some ''json'')\<rparr>" "[''plugin'', ''serve'', ''manifest'']"]
    by (intro exI [of _ cfg]) simp
qed

end
