(* ===== verification/Process_Properties.thy ===== *)
theory Process_Properties
  imports Plugin_Mains Runtime_Properties
begin

text \<open>
  The properties of a whole plugin process: what the host's typed client
  reaches over a connection to it, the entry points of the example plugins, and the task of
  \<open>hello-runtime-host\<close> in the process's life.
\<close>

subsection \<open>The typed client\<close>

definition sample_regs :: registrations where
  "sample_regs = present (service_table (sc_Servers sample_config) (resolved sample_options))"

lemma sample_config_plugin:
  "\<exists>p. (PluginSetName, p) \<in> set (sc_Plugins sample_config)
    \<and> GRPCServer p (Some 1) (pluginHost, []) = (True, setBroker (Some 1) pluginHost, sample_regs)"
proof -
  have "\<exists>p. (PluginSetName, p) \<in> set (sc_Plugins sample_config)"
    by (simp add: sample_config_def manifestPluginSet_def pluginSetWithOptionalServices_def sample_options_def
        zero_serve_options_def Let_def)
  then show ?thesis
    using served_plugin(2) [OF sample_config_served] unfolding sample_regs_def by blast
qed

lemma sample_regs_services:
  "map fst sample_regs = [RuntimeService, AuthProviderService, AuthProviderChecksService, NetworkIdentityAuthService]"
  by (simp add: sample_regs_def present_simps service_table_def sample_config_def sample_options_def zero_serve_options_def
      sample_servers_def no_servers_def resolveAuthService_def isNilServer_def sample_server_def checks_server_def Let_def)

text \<open>
  C17 (client_reaches): over a connection to a process that serves the configuration, every typed accessor of the host's
  client reaches what the plugin supplied for it, from the struct field or the option of the plugin to the handler of
  the call: \<open>Runtime\<close> the server of the manifest, each capability accessor the server in the field of
  its own capability, \<open>WatchSyncDeviceAuthorization\<close> the option, and the two auth accessors the option or else
  an AuthProvider that implements them. Where the plugin supplied nothing, the call is answered \<open>Unimplemented\<close>.
\<close>

theorem client_reaches:
  assumes "documented_dispatch dispatch served" and "manifestServeConfig m servers options = Inr cfg"
    and "(n, p) \<in> set (sc_Plugins cfg)" and "GRPCServer p b (h, []) = (True, h', served conn)"
  shows "list_all (\<lambda>(accessor, server). reached dispatch (accessor (GRPCClient broker conn)) = server)
    (accessor_table m servers (resolved options))"
proof -
  let ?c = "GRPCClient broker conn"
  have "served (cl_conn ?c) = present (service_table (sc_Servers cfg) (resolved options))"
    using assms(4) by (simp add: served_plugin(2) [OF assms(2,3)] GRPCClient_def)
  note table = this [unfolded served_servers [OF assms(2)]]
  show ?thesis
    by (rule list.pred_mono_strong [OF accessor_rows [where c = ?c]])
      (use reached_row [OF assms(1)] table in fastforce)
qed

lemma client_reaches_witness:
  "reached (\<lambda>conn. map_of sample_regs) (Client_NetworkIdentityAuth (GRPCClient None 3)) = Some (Impl sample_server)
   \<and> reached (\<lambda>conn. map_of sample_regs) (Client_AuthProviderChecks (GRPCClient None 3)) = Some (Impl checks_server)
   \<and> reached (\<lambda>conn. map_of sample_regs) (Client_MetadataProvider (GRPCClient None 3)) = None"
proof -
  obtain p where p: "(PluginSetName, p) \<in> set (sc_Plugins sample_config)"
    "GRPCServer p (Some 1) (pluginHost, []) = (True, setBroker (Some 1) pluginHost, sample_regs)"
    using sample_config_plugin by blast
  have "documented_dispatch (\<lambda>conn. map_of sample_regs) (\<lambda>conn. sample_regs)"
    by (simp add: documented_dispatch_def)
  from client_reaches [OF this sample_config_served p, of None] show ?thesis
    by (simp add: accessor_table_def auth_service_def sample_options_def zero_serve_options_def sample_servers_def no_servers_def
        resolveAuthService_def isNilServer_def sample_server_def checks_server_def)
qed

subsection \<open>The bootstrap of the examples\<close>

text \<open>
  C31 (bootstrap_equivalent): the bootstrap the example plugins copy is \<open>LoadWithChecksum\<close> without a
  version override, in every outcome, except that it fills in the platform of the build when the manifest
  names none.
\<close>

theorem bootstrap_equivalent:
  "loadManifest X P target data =
     (case LoadWithChecksum X P data [] of
        Returned m \<Rightarrow> Returned (default_platforms target m)
      | Failed e \<Rightarrow> Failed e
      | Panicked \<Rightarrow> Panicked)"
proof (cases "decode P data")
  case (Inr m0)
  show ?thesis
  proof (cases "validated X m0")
    case (Returned m1)
    then have "m1 = m0" by (simp add: validated_Returned)
    with Returned Inr show ?thesis
      by (simp add: loadManifest_def Load_def LoadWithChecksum_def Let_def split: option.split)
  qed (simp_all add: Inr loadManifest_def Load_def LoadWithChecksum_def Let_def)
qed (simp add: loadManifest_def Load_def LoadWithChecksum_def)

text \<open>
  C34 (example_processes): an example plugin whose bootstrap succeeds holds an accepted manifest that
  names a platform. If its first argument is \<open>manifest\<close> it prints that manifest; with any other arguments, and with
  none, it serves exactly its Runtime server and its capability server: a scheduled task for
  \<open>hello-runtime-host\<close> and \<open>hello-scheduled-task\<close>, a scan source for \<open>hello-scan-source\<close>.
\<close>

theorem example_processes:
  assumes "loadManifest X P target data = Returned m"
  shows "Validate X (Some m) = Accept \<and> pm_supported_platforms m \<noteq> []
    \<and> (\<forall>(main, svc)\<in>{(runtime_host_main, ScheduledTaskService), (scheduled_task_main, ScheduledTaskService),
            (scan_source_main, ScanSourceService)}.
         if \<exists>prog rest. args = prog # ''manifest'' # rest
         then main X P E target data args =
           Ran (case marshal_manifest E (Some m) of None \<Rightarrow> ExitFailure | Some json \<Rightarrow> PrintManifest json)
         else serves_exactly (main X P E target data args)
           [(RuntimeService, RuntimeImpl example_runtime), (svc, Impl (example_server 1 svc))])"
proof -
  have ok: "manifest_ok X m \<and> pm_supported_platforms m \<noteq> []"
    using assms unfolding loadManifest_Returned
    by (auto simp: manifest_ok_default_platforms manifest_ok_checksum default_platforms_named)
  note mains = runtime_host_main_def scheduled_task_main_def scan_source_main_def task_loadManifest_def scan_loadManifest_def
  show ?thesis
  proof (cases "\<exists>prog rest. args = prog # ''manifest'' # rest")
    case True
    then have "length args > 1 \<and> args ! 1 = ''manifest''" by (simp only: subcommand_args)
    with True ok assms show ?thesis
      by (simp add: Validate_Accept mains Serve_def example_runtime_def with_runtime_def rs_GetManifest_def split: option.split)
  next
    case False
    then have "\<not> (length args > 1 \<and> args ! 1 = ''manifest'')" by (simp only: subcommand_args not_False_eq_True)
    then have serve: "Serve E' args cfg = ServePlugins HandshakeConfig
        (if sc_Plugins cfg = [] then DefaultPluginSet (sc_Servers cfg) else sc_Plugins cfg)" for E' cfg
      by (simp only: Serve_def if_False)
    from False ok assms show ?thesis
      by (simp add: Validate_Accept mains serve serves_exactly_def DefaultPluginSet_def registerServers_def
          register_def no_servers_def no_optional_services_def resolveAuthService_def isNilServer_def)
  qed
qed

definition sample_target :: supported_platform where
  "sample_target = \<lparr>sp_os = ''linux'', sp_arch = ''amd64''\<rparr>"

lemma sample_bootstrap:
  "loadManifest sample_ext sample_platform sample_target ''manifest'' =
     Returned (default_platforms sample_target stamped_manifest)"
  using sample_manifest_ok
  by (simp add: loadManifest_Returned sample_platform_def stamped_manifest_def)

lemma example_processes_witness:
  "runtime_host_main sample_ext sample_platform
      \<lparr>plugin_get_manifest = (\<lambda>_. None), marshal_manifest = (\<lambda>_. Some ''json'')\<rparr> sample_target ''manifest''
      [''plugin'', ''manifest'', ''-v''] = Ran (PrintManifest ''json'')
   \<and> serves_exactly (scan_source_main sample_ext sample_platform
      \<lparr>plugin_get_manifest = (\<lambda>_. None), marshal_manifest = (\<lambda>_. Some ''json'')\<rparr> sample_target ''manifest'' [''plugin''])
      [(RuntimeService, RuntimeImpl example_runtime), (ScanSourceService, Impl (example_server 1 ScanSourceService))]"
  using example_processes [OF sample_bootstrap,
      of "[''plugin'', ''manifest'', ''-v'']" "\<lparr>plugin_get_manifest = (\<lambda>_. None), marshal_manifest = (\<lambda>_. Some ''json'')\<rparr>"]
    example_processes [OF sample_bootstrap,
      of "[''plugin'']" "\<lparr>plugin_get_manifest = (\<lambda>_. None), marshal_manifest = (\<lambda>_. Some ''json'')\<rparr>"]
  by simp

text \<open>
  C32 (manifest_mains): the plugins that leave their startup to \<open>ServeManifest\<close> and supply no
  AuthProvider panic exactly when the stamped manifest promises an auth service; otherwise the compatibility probe
  serves the Runtime and the metadata provider, the network stub the Runtime and the network access provider, and
  the storage fixture the Runtime and the storage provider, each with the stamped manifest and nothing else.
\<close>

theorem manifest_mains:
  assumes "LoadWithChecksum X P data ''0.13.2'' = Returned m" and "LoadWithChecksum X P data ''0.1.0'' = Returned m'"
    and "newProvider Z = Some book"
  shows "(if declares_auth m then compat_probe_main X P E data [prog] = MainPanics
      else serves_exactly (compat_probe_main X P E data [prog])
        [(RuntimeService, RuntimeImpl (manifest_server m zero_serve_options)),
         (MetadataProviderService, Impl (example_server 1 MetadataProviderService))])
    \<and> (if declares_auth m' then network_access_main X P E data [prog] = MainPanics
      else serves_exactly (network_access_main X P E data [prog])
        [(RuntimeService, RuntimeImpl (manifest_server m' zero_serve_options)),
         (NetworkAccessProviderService, Impl (example_server 1 NetworkAccessProviderService))])
    \<and> (if declares_auth m' then storage_main Z X P E data [prog] = MainPanics
      else serves_exactly (storage_main Z X P E data [prog])
        [(RuntimeService, RuntimeImpl (manifest_server m' zero_serve_options)),
         (StorageProviderService, Impl (example_server 1 StorageProviderService))])"
proof -
  note plain = serve_without_auth [OF _ _ _ _ refl, of X P data]
  note table = service_table_def present_simps no_servers_def zero_serve_options_def resolveAuthService_def
    isNilServer_def manifest_server_def
  show ?thesis
    using plain [of "''0.13.2''" m "no_servers\<lparr>cs_MetadataProvider := Some (example_server 1 MetadataProviderService)\<rparr>" "[]" E prog]
      plain [of "''0.1.0''" m' "no_servers\<lparr>cs_NetworkAccessProvider := Some (example_server 1 NetworkAccessProviderService)\<rparr>" "[]" E prog]
      plain [of "''0.1.0''" m' no_servers
        "[Some (WithStorageProvider (Some (example_server 1 StorageProviderService)))]" E prog] assms
    by (cases "declares_auth m"; cases "declares_auth m'")
      (simp_all add: table compat_probe_main_def network_access_main_def storage_main_def ServeManifest_def
        del: One_nat_def)
qed

definition probe_manifest :: plugin_manifest where
  "probe_manifest = zero_manifest\<lparr>pm_plugin_id := ''org.probe'', pm_version := ''0'', pm_capabilities :=
     [Some (zero_capability\<lparr>cd_type := MetadataProvider, cd_id := ''meta''\<rparr>)]\<rparr>"

definition probe_platform :: platform where
  "probe_platform = sample_platform\<lparr>protojson := (\<lambda>_. Some probe_manifest)\<rparr>"

definition list_zip :: "(string list) zip_writer" where
  "list_zip = \<lparr>zw_new = [], zw_create = (\<lambda>w n. Some (w @ [n])), zw_write = (\<lambda>w d. Some (w @ [d])),
     zw_close = (\<lambda>w. Some (concat w))\<rparr>"

lemma list_zip_writes: "\<exists>w'. write_entries list_zip w es = Some w'"
  by (induction es arbitrary: w) (auto simp: list_zip_def)

lemma list_zip_provides: "\<exists>book. newProvider list_zip = Some book"
  using list_zip_writes [of "zw_new list_zip" book_entries] by (auto simp: newProvider_def list_zip_def)

lemma probe_manifest_ok: "manifest_ok X (probe_manifest\<lparr>pm_version := CHR ''0'' # v\<rparr>)"
  by (simp add: manifest_ok_def header_ok_def probe_manifest_def zero_manifest_def pairing_ok_def capability_ok_def
      zero_capability_def watch_sync_capability_ok_def network_capability_ok_def router_capability_ok_def
      auth_capability_ok_def KnownTypes_def AuthProviderUsesNetworkIdentity_def) (simp add: capability_names)

lemma probe_loaded:
  "\<exists>m. LoadWithChecksum sample_ext probe_platform [] (CHR ''0'' # v) = Returned m \<and> \<not> declares_auth m"
proof -
  let ?m = "probe_manifest\<lparr>pm_version := CHR ''0'' # v, pm_checksum := hex_encode (sha256 probe_platform ''binary'')\<rparr>"
  have "LoadWithChecksum sample_ext probe_platform [] (CHR ''0'' # v) = Returned ?m"
    using probe_manifest_ok [of sample_ext v]
    by (simp add: LoadWithChecksum_Returned probe_platform_def sample_platform_def manifest_ok_checksum)
  moreover have "\<not> declares_auth ?m"
    by (simp add: declares_auth_def probe_manifest_def AuthProviderUsesNetworkIdentity_def
        AuthProviderSupportsConnectionTest_def zero_capability_def zero_manifest_def capability_names)
  ultimately show ?thesis by blast
qed

lemma manifest_mains_witness:
  "\<exists>m. serves_exactly (storage_main list_zip sample_ext probe_platform
        \<lparr>plugin_get_manifest = (\<lambda>_. None), marshal_manifest = (\<lambda>_. None)\<rparr> [] [''plugin''])
      [(RuntimeService, RuntimeImpl (manifest_server m zero_serve_options)),
       (StorageProviderService, Impl (example_server 1 StorageProviderService))]"
proof -
  obtain m where m: "LoadWithChecksum sample_ext probe_platform [] ''0.13.2'' = Returned m" "\<not> declares_auth m"
    using probe_loaded by blast
  obtain m' where m': "LoadWithChecksum sample_ext probe_platform [] ''0.1.0'' = Returned m'" "\<not> declares_auth m'"
    using probe_loaded by blast
  obtain book where "newProvider list_zip = Some book" using list_zip_provides by blast
  from manifest_mains [OF m(1) m'(1) this] m'(2) show ?thesis by fastforce
qed

subsection \<open>The task of hello-runtime-host\<close>

text \<open>
  C29 (task_publishes): the task runs as one more call of \<open>Host()\<close> in the life of the process. It
  publishes its event over the one connection dialed for the current binding, returns the error of that call, and
  succeeds without publishing when no dial of the binding has succeeded.
\<close>

theorem task_publishes:
  assumes "run host_step pluginHost tr h" and "host_task_Run C dial rpc h = (res, client, log, h')"
  shows "run host_step pluginHost (tr @ [HostCall log client]) h'
    \<and> res = (case snd (snd (binding_of (tr @ [HostCall log client]))) of
               [] \<Rightarrow> Inr ()
             | c # cs \<Rightarrow> PublishEvent C (rpc c) ''ping'' ping_payload)
    \<and> length (snd (snd (binding_of (tr @ [HostCall log client])))) \<le> 1"
proof -
  have host: "host dial h = (client, log, h')"
    and res: "res = (case client of None \<Rightarrow> Inr () | Some c \<Rightarrow> PublishEvent C (rpc c) ''ping'' ping_payload)"
    using assms(2) by (auto simp: host_task_Run_def Host_def split: prod.splits option.splits)
  have step: "host_step h (HostCall log client) h'" by (rule host_step.intros(3) [OF host])
  with assms(1) have run: "run host_step pluginHost (tr @ [HostCall log client]) h'"
    unfolding run_snoc_iff by blast
  have "binding_of (tr @ [HostCall log client]) = view h'"
    using host.Inv_run [OF run] by (simp add: host_inv_def)
  with run res host_step_result [OF step] show ?thesis
    by (simp add: view_def del: binding_of_simps split: option.split)
qed

definition sample_calls :: "host_event list" where
  "sample_calls = [SetBroker (Some 1), SetBrokerID 9 [(1, 9, None)]]"

lemma sample_calls_run: "run host_step pluginHost sample_calls (bound_state\<lparr>hs_client := None\<rparr>)"
proof -
  have "host_step pluginHost (SetBroker (Some 1)) (setBroker (Some 1) pluginHost)"
    by (rule host_step.intros)
  moreover have "host_step (setBroker (Some 1) pluginHost) (SetBrokerID 9 [(1, 9, None)]) (bound_state\<lparr>hs_client := None\<rparr>)"
    by (rule host_step.intros(2) [where dial = "\<lambda>_ _. None"])
      (simp add: setBrokerID_def dialLocked_def setBroker_def pluginHost_def bound_state_def Let_def)
  ultimately show ?thesis
    unfolding sample_calls_def run_Cons run_Nil_iff by blast
qed

definition task_codec :: codec where
  "task_codec = \<lparr>new_struct = (\<lambda>_. Some []), marshal_any = (\<lambda>_. None), as_map = (\<lambda>_. [])\<rparr>"

lemma task_publishes_witness:
  "\<exists>res client log h'. host_task_Run task_codec (\<lambda>_ _. Some 5) (\<lambda>c q. if c = 5 then Inl ''refused'' else Inr ())
        (bound_state\<lparr>hs_client := None\<rparr>) = (res, client, log, h')
    \<and> run host_step pluginHost (sample_calls @ [HostCall log client]) h' \<and> res = Inl (RpcError ''refused'')"
proof -
  let ?rpc = "\<lambda>c q. if c = (5 :: conn) then Inl ''refused'' else Inr ()"
  have eq: "host_task_Run task_codec (\<lambda>_ _. Some 5) ?rpc (bound_state\<lparr>hs_client := None\<rparr>)
      = (Inl (RpcError ''refused''), Some 5, [(1, 9, Some 5)], bound_state)"
    by (simp add: host_task_Run_def Host_def host_def dialLocked_def bound_state_def Let_def PublishEvent_def call_def
        event_build_def structFromMap_def task_codec_def ping_payload_def)
  from task_publishes [OF sample_calls_run eq] eq show ?thesis by blast
qed

end
