(* ===== verification/Host_Calls.thy ===== *)
theory Host_Calls
  imports Runtime_Host
begin

text \<open>
  The rest of the RuntimeHost client: private instance state (\<open>instance_state.go\<close>), JSON calls
  to other plugins (\<open>call_json.go\<close>) and status reports (\<open>network_access.go\<close>). The contract
  of a state store (\<open>state_store\<close>) is what a plugin relies on: a value read back is the value
  written. \<open>InstanceStateStore\<close> provides it over a host that stores what it is given, with the
  limits the client enforces before the round trip.
\<close>

subsection \<open>instance_state.go\<close>

abbreviation MaxInstanceStateKeyBytes :: nat where "MaxInstanceStateKeyBytes \<equiv> 256"
abbreviation MaxInstanceStateValueBytes :: nat where "MaxInstanceStateValueBytes \<equiv> 256 * 1024"
abbreviation MaxInstanceStateKeys :: nat where "MaxInstanceStateKeys \<equiv> 256"

definition validateInstanceStateKey :: "string \<Rightarrow> host_error option" where
  "validateInstanceStateKey key =
     (if key = [] then Some StateKeyRequired
      else if length key > MaxInstanceStateKeyBytes then Some (StateKeyTooLong (length key))
      else None)"

text \<open>
  The host's part of the two RPCs: a read returns whether the key was found and the value. The
  host has a state, so an RPC maps a state to a result and a new state.
\<close>

record 'h state_host =
  read_rpc :: "string \<Rightarrow> 'h \<Rightarrow> (string + bool \<times> string) \<times> 'h"
  write_rpc :: "string \<Rightarrow> string \<Rightarrow> 'h \<Rightarrow> (string + unit) \<times> 'h"

definition ReadInstanceState :: "'h state_host \<Rightarrow> string \<Rightarrow> 'h \<Rightarrow> (host_error + string option) \<times> 'h" where
  "ReadInstanceState H key h =
     (case validateInstanceStateKey key of
        Some e \<Rightarrow> (Inl e, h)
      | None \<Rightarrow>
          (case read_rpc H key h of
             (Inl e, h') \<Rightarrow> (Inl (RpcError e), h')
           | (Inr (found, val), h') \<Rightarrow> (Inr (if \<not> found then None else Some val), h')))"

definition WriteInstanceState :: "'h state_host \<Rightarrow> string \<Rightarrow> string \<Rightarrow> 'h \<Rightarrow> (host_error + unit) \<times> 'h" where
  "WriteInstanceState H key val h =
     (case validateInstanceStateKey key of
        Some e \<Rightarrow> (Inl e, h)
      | None \<Rightarrow>
          if length val > MaxInstanceStateValueBytes then (Inl (StateValueTooLong key (length val)), h)
          else case write_rpc H key val h of
                 (Inl e, h') \<Rightarrow> (Inl (RpcError e), h')
               | (Inr _, h') \<Rightarrow> (Inr (), h'))"

definition ReadState :: "'h state_host \<Rightarrow> string \<Rightarrow> 'h \<Rightarrow> (host_error + string) \<times> 'h" where
  "ReadState H key h =
     (case ReadInstanceState H key h of
        (Inl e, h') \<Rightarrow> (Inl e, h')
      | (Inr None, h') \<Rightarrow> (Inl StateNotExist, h')
      | (Inr (Some val), h') \<Rightarrow> (Inr val, h'))"

definition WriteState :: "'h state_host \<Rightarrow> string \<Rightarrow> string \<Rightarrow> 'h \<Rightarrow> (host_error + unit) \<times> 'h" where
  "WriteState H key val h = WriteInstanceState H key val h"

text \<open>The effective deadline of a store call; \<open>None\<close> is no deadline.\<close>

definition DefaultInstanceStateTimeout :: int where "DefaultInstanceStateTimeout = 30000000000"

definition call_deadline :: "int \<Rightarrow> int option" where
  "call_deadline timeout = (if timeout \<le> 0 then None else Some timeout)"

text \<open>The store handle: the client and the timeout of each round trip.\<close>

record 'h instance_state_store =
  iss_client :: "'h state_host"
  iss_timeout :: int

definition InstanceStateStore :: "'h state_host \<Rightarrow> 'h instance_state_store" where
  "InstanceStateStore H = \<lparr>iss_client = H, iss_timeout = DefaultInstanceStateTimeout\<rparr>"

definition WithTimeout :: "'h instance_state_store \<Rightarrow> int \<Rightarrow> 'h instance_state_store" where
  "WithTimeout s timeout = \<lparr>iss_client = iss_client s, iss_timeout = timeout\<rparr>"

text \<open>
  What the RPC documentation promises of a host with state \<open>'h\<close>, by the values \<open>stored h\<close> it
  holds: a successful write stores the value and nothing else changes, a failed one may or may not
  have stored it, a read changes nothing and a successful one returns what is stored.
\<close>

definition documented_state_host :: "'h state_host \<Rightarrow> ('h \<Rightarrow> string \<rightharpoonup> string) \<Rightarrow> bool" where
  "documented_state_host H stored \<longleftrightarrow>
     (\<forall>key h r h'. read_rpc H key h = (r, h') \<longrightarrow>
        stored h' = stored h
        \<and> (\<forall>found val. r = Inr (found, val) \<longrightarrow> stored h key = (if found then Some val else None)))
     \<and> (\<forall>key val h r h'. write_rpc H key val h = (r, h') \<longrightarrow>
        stored h' = (stored h)(key \<mapsto> val) \<or> (stored h' = stored h \<and> (\<exists>e. r = Inl e)))"

text \<open>A host that keeps the state in a list and always answers.\<close>

definition list_host :: "(string \<times> string) list state_host" where
  "list_host =
     \<lparr>read_rpc = (\<lambda>key h. (Inr (case map_of h key of None \<Rightarrow> (False, []) | Some v \<Rightarrow> (True, v)), h)),
      write_rpc = (\<lambda>key val h. (Inr (), (key, val) # h))\<rparr>"

lemma list_host_documented: "documented_state_host list_host map_of"
  by (auto simp: documented_state_host_def list_host_def split: option.splits)

locale state_store =
  fixes get :: "string \<Rightarrow> 'h \<Rightarrow> (host_error + string) \<times> 'h"
    and put :: "string \<Rightarrow> string \<Rightarrow> 'h \<Rightarrow> (host_error + unit) \<times> 'h"
    and stored :: "'h \<Rightarrow> string \<rightharpoonup> string"
    and documented :: bool
  assumes read_result: "documented \<Longrightarrow> get key h = (Inr val, h') \<Longrightarrow> stored h key = Some val"
    and read_missing: "documented \<Longrightarrow> get key h = (Inl StateNotExist, h') \<Longrightarrow> stored h key = None"
    and read_keeps: "documented \<Longrightarrow> get key h = (r, h') \<Longrightarrow> stored h' = stored h"
    and write_ok: "documented \<Longrightarrow> put key val h = (Inr (), h') \<Longrightarrow> stored h' = (stored h)(key \<mapsto> val)"
    and write_other: "documented \<Longrightarrow> put key val h = (w, h') \<Longrightarrow> key' \<noteq> key \<Longrightarrow> stored h' key' = stored h key'"
begin

lemma read_after_write:
  assumes documented "put key val h = (Inr (), h1)" "get key h1 = (r, h2)"
  shows "r = Inr val \<or> (\<exists>e. r = Inl e \<and> e \<noteq> StateNotExist)"
proof (cases r)
  case (Inl e)
  have "stored h1 key = Some val" using write_ok [OF assms(1,2)] by simp
  then show ?thesis using Inl read_missing [OF assms(1), of key h1 h2] assms(3) by auto
next
  case (Inr v)
  then show ?thesis
    using write_ok [OF assms(1,2)] read_result [OF assms(1), of key h1 v h2] assms(3) by simp
qed

lemma read_after_read:
  assumes documented "get key h = (Inr val, h1)" "get key h1 = (Inr val', h2)"
  shows "val' = val"
  using read_result [OF assms(1,2)] read_result [OF assms(1,3)] read_keeps [OF assms(1,2)] by simp

end

lemma validate_key_iff: "validateInstanceStateKey key = None \<longleftrightarrow> key \<noteq> [] \<and> length key \<le> 256"
  by (simp add: validateInstanceStateKey_def)

lemma validate_key_error: "validateInstanceStateKey key \<noteq> Some StateNotExist"
  by (simp add: validateInstanceStateKey_def)

lemma WriteInstanceState_Inr:
  "WriteInstanceState H key val h = (Inr (), h') \<longleftrightarrow>
     key \<noteq> [] \<and> length key \<le> 256 \<and> length val \<le> 262144 \<and> write_rpc H key val h = (Inr (), h')"
  by (auto simp: WriteInstanceState_def validateInstanceStateKey_def split: sum.splits prod.splits)

interpretation instance_state: state_store "ReadState H" "WriteState H" stored "documented_state_host H stored"
  for H :: "'h state_host" and stored
proof
  fix key h val h'
  assume doc: "documented_state_host H stored" and r: "ReadState H key h = (Inr val, h')"
  from r obtain h1 where "read_rpc H key h = (Inr (True, val), h1)"
    by (auto simp: ReadState_def ReadInstanceState_def split: option.splits sum.splits prod.splits if_splits)
  with doc show "stored h key = Some val" by (fastforce simp: documented_state_host_def)
next
  fix key h h'
  assume doc: "documented_state_host H stored" and r: "ReadState H key h = (Inl StateNotExist, h')"
  from r obtain val h1 where "read_rpc H key h = (Inr (False, val), h1)"
    using validate_key_error [of key]
    by (auto simp: ReadState_def ReadInstanceState_def split: option.splits sum.splits prod.splits if_splits)
  with doc show "stored h key = None" by (fastforce simp: documented_state_host_def)
next
  fix key h r h'
  assume doc: "documented_state_host H stored" and r: "ReadState H key h = (r, h')"
  from r have "h' = h \<or> (\<exists>x. read_rpc H key h = (x, h'))"
    by (auto simp: ReadState_def ReadInstanceState_def split: option.splits sum.splits prod.splits if_splits)
  with doc show "stored h' = stored h" by (auto simp: documented_state_host_def)
next
  fix key val h h'
  assume doc: "documented_state_host H stored" and w: "WriteState H key val h = (Inr (), h')"
  from w have "write_rpc H key val h = (Inr (), h')" by (simp add: WriteState_def WriteInstanceState_Inr)
  with doc show "stored h' = (stored h)(key \<mapsto> val)" by (fastforce simp: documented_state_host_def)
next
  fix key val h r h' key'
  assume doc: "documented_state_host H stored" and w: "WriteState H key val h = (r, h')"
    and ne: "(key' :: string) \<noteq> key"
  from w have "h' = h \<or> (\<exists>x. write_rpc H key val h = (x, h'))"
    by (auto simp: WriteState_def WriteInstanceState_def split: option.splits sum.splits prod.splits if_splits)
  then show "stored h' key' = stored h key'"
  proof
    assume "\<exists>x. write_rpc H key val h = (x, h')"
    with doc have "stored h' = (stored h)(key \<mapsto> val) \<or> stored h' = stored h"
      unfolding documented_state_host_def by blast
    with ne show ?thesis by auto
  qed simp
qed

subsection \<open>call_json.go\<close>

abbreviation DefaultMaxPluginJSONResponseBytes :: nat where
  "DefaultMaxPluginJSONResponseBytes \<equiv> 10 * 1024 * 1024"

record json_request =
  jq_installation_id :: goint
  jq_method :: string
  jq_path :: string
  jq_headers :: headers
  jq_query :: any_map
  jq_request :: "gany option"
  jq_wants_response :: bool
  jq_max_response_bytes :: goint

text \<open>A header map as an association list with distinct keys.\<close>

definition set_header :: "string \<Rightarrow> string \<Rightarrow> headers \<Rightarrow> headers" where
  "set_header k v hs = (k, v) # filter (\<lambda>(k', _). k' \<noteq> k) hs"

definition json_http_request :: "codec \<Rightarrow> json_request \<Rightarrow> host_error + http_request" where
  "json_http_request C req =
     (let method = (if jq_method req = [] then (if jq_request req \<noteq> None then ''POST'' else ''GET'')
                    else jq_method req);
          headers = set_header ''Accept'' ''application/json'' (jq_headers req)
      in case (case jq_request req of
                 None \<Rightarrow> Some (headers, [])
               | Some v \<Rightarrow> map_option (\<lambda>body. (set_header ''Content-Type'' ''application/json'' headers, body))
                             (marshal_any C v)) of
           None \<Rightarrow> Inl EncodeFailed
         | Some (hs, body) \<Rightarrow> Inr
             \<lparr>hq_installation_id = jq_installation_id req, hq_method = method, hq_path = jq_path req,
              hq_headers = hs, hq_body = body, hq_query = jq_query req\<rparr>)"

text \<open>\<open>Error\<close> of \<open>HTTPStatusError\<close>.\<close>

definition http_status_text :: "goint \<Rightarrow> string" where
  "http_status_text code = ''runtimehost: plugin HTTP returned status '' @ show_int (sint code)"

text \<open>
  The outcome of the response: the bytes handed to \<open>json.Unmarshal\<close>, or nothing to decode.
  \<open>decodes\<close> says whether \<open>json.Unmarshal\<close> into the caller's value succeeds.
\<close>

definition json_response :: "json_request \<Rightarrow> (string \<Rightarrow> bool) \<Rightarrow> http_response \<Rightarrow> host_error + string option" where
  "json_response req decodes resp =
     (if 400 \<le> sint (hp_status_code resp) then Inl (HTTPStatus (hp_status_code resp) (hp_body resp))
      else let maxBytes = (if sint (jq_max_response_bytes req) \<le> 0 then of_nat DefaultMaxPluginJSONResponseBytes
                           else jq_max_response_bytes req)
           in if int (length (hp_body resp)) > sint maxBytes then Inl (ResponseTooLong maxBytes)
              else if \<not> jq_wants_response req \<or> hp_body resp = [] then Inr None
              else if decodes (hp_body resp) then Inr (Some (hp_body resp))
              else Inl DecodeFailed)"

definition CallPluginJSON ::
  "codec \<Rightarrow> (pb_http_request, pb_http_response) rpc \<Rightarrow> (string \<Rightarrow> bool) \<Rightarrow> json_request
   \<Rightarrow> host_error + string option" where
  "CallPluginJSON C rpc decodes req =
     (case json_http_request C req of
        Inl e \<Rightarrow> Inl e
      | Inr q \<Rightarrow>
          (case CallPluginHTTP C rpc q of
             Inl e \<Rightarrow> Inl e
           | Inr resp \<Rightarrow> json_response req decodes resp))"

definition response_limit :: "json_request \<Rightarrow> int" where
  "response_limit req =
     (if sint (jq_max_response_bytes req) \<le> 0 then 10485760 else sint (jq_max_response_bytes req))"

lemma sint_default_limit: "sint (of_nat DefaultMaxPluginJSONResponseBytes :: goint) = 10485760"
  by simp

lemma json_response_Inr:
  "json_response req decodes resp = Inr out \<longleftrightarrow>
     sint (hp_status_code resp) < 400 \<and> int (length (hp_body resp)) \<le> response_limit req
     \<and> (if jq_wants_response req \<and> hp_body resp \<noteq> [] then out = Some (hp_body resp) \<and> decodes (hp_body resp)
        else out = None)"
  by (auto simp: json_response_def response_limit_def Let_def sint_default_limit)

lemma set_header_lookup [simp]: "map_of (set_header k v hs) k' = (if k' = k then Some v else map_of hs k')"
proof -
  have "map_of (filter (\<lambda>(k', _). k' \<noteq> k) hs) k' = map_of hs k'" if "k' \<noteq> k"
    using that by (induction hs) auto
  then show ?thesis by (simp add: set_header_def)
qed

lemma sint_scast32: "sint (int_of32 w) = sint w"
  by (simp add: int_of32_def sint_up_scast is_up)

subsection \<open>network_access.go\<close>

record net_listener =
  nl_name :: string
  nl_origin :: string

record net_status =
  ns_state :: string
  ns_hostname :: string
  ns_origin :: string
  ns_addresses :: "string list"
  ns_listeners :: "net_listener list"
  ns_provider_version :: string
  ns_desired_connected :: bool

definition NetworkAccessStateDisconnected :: string where "NetworkAccessStateDisconnected = ''disconnected''"
definition NetworkAccessStateAwaitingAuthorization :: string where
  "NetworkAccessStateAwaitingAuthorization = ''awaiting_authorization''"
definition NetworkAccessStateConnecting :: string where "NetworkAccessStateConnecting = ''connecting''"
definition NetworkAccessStateError :: string where "NetworkAccessStateError = ''error''"
definition NetworkAccessStateConnected :: string where "NetworkAccessStateConnected = ''connected''"

definition ReportNetworkAccessStatus :: "(net_status, unit) rpc \<Rightarrow> net_status option \<Rightarrow> host_error + unit" where
  "ReportNetworkAccessStatus rpc st =
     call rpc
       (case st of
          None \<Rightarrow> Inl StatusRequired
        | Some s \<Rightarrow> if ns_state s = [] then Inl StatusStateRequired else Inr s) (\<lambda>_. ())"

end
