(* ===== verification/Network_Stub.thy ===== *)
theory Network_Stub
  imports Host_Calls
begin

text \<open>
  \<open>examples/hello-network-access/main.go\<close>, the stub network_access_provider.v1 plugin, and the
  state machine it forms with the host's private instance state: the process keeps
  \<open>connected\<close>, \<open>desired\<close> and \<open>restored\<close>, the host keeps the value under
  \<open>desired_connected\<close>, and a restart resets the process only. What the host answers during one
  handler is \<open>net_env\<close>; each handler runs under the mutex. The log of a handler is what it
  wrote and reported.
\<close>

record stub =
  st_connected :: bool
  st_desired :: bool
  st_restored :: bool
  st_host_info :: "host_info option"

definition fresh_stub :: stub where
  "fresh_stub = \<lparr>st_connected = False, st_desired = False, st_restored = False, st_host_info = None\<rparr>"

text \<open>
  \<open>Host()\<close> and \<open>GetHostInfo\<close> are called once while restoring and once by the handler.
  \<open>ne_read\<close> is the result of \<open>ReadInstanceState\<close>: \<open>None\<close> an error, \<open>Some None\<close> absent.
\<close>

record net_env =
  ne_restore_host :: bool
  ne_read :: "string option option"
  ne_restore_info :: "host_info option"
  ne_host :: bool
  ne_info :: "host_info option"
  ne_write_ok :: bool
  ne_report_ok :: bool

text \<open>A call of the host that fails has its own entry: a failing write is returned to the caller, a failing report is only logged.\<close>

datatype net_effect =
    Wrote string
  | WriteFailed string
  | Reported net_status
  | ReportFailed net_status

datatype net_error = HostInfoFailed | PersistFailed

definition restoreLocked :: "net_env \<Rightarrow> stub \<Rightarrow> stub" where
  "restoreLocked E p =
     (if st_restored p then p
      else if \<not> ne_restore_host E then p
      else case ne_read E of
             None \<Rightarrow> p
           | Some val \<Rightarrow>
               if val = Some ''1'' then
                 p\<lparr>st_restored := True, st_desired := True, st_connected := True,
                   st_host_info := (case ne_restore_info E of None \<Rightarrow> st_host_info p | Some i \<Rightarrow> Some i)\<rparr>
               else p\<lparr>st_restored := True\<rparr>)"

definition persistLocked :: "net_env \<Rightarrow> stub \<Rightarrow> net_effect list \<times> bool" where
  "persistLocked E p =
     (if \<not> ne_host E then ([], True)
      else let val = (if st_desired p then ''1'' else ''0'') in
           if ne_write_ok E then ([Wrote val], True) else ([WriteFailed val], False))"

definition listener_origin :: "goint listener \<Rightarrow> string" where
  "listener_origin l =
     (if ln_default_port l \<noteq> 0 \<and> ln_default_port l \<noteq> 443
      then ''https://stub.invalid:'' @ show_int (sint (ln_default_port l))
      else ''https://stub.invalid'')"

fun add_listeners :: "net_status \<Rightarrow> goint listener list \<Rightarrow> net_status" where
  "add_listeners s [] = s"
| "add_listeners s (l # ls) =
     (let s1 = s\<lparr>ns_listeners := ns_listeners s @ [\<lparr>nl_name = ln_name l, nl_origin = listener_origin l\<rparr>]\<rparr> in
      add_listeners (if ln_name l = ListenerAPI then s1\<lparr>ns_origin := listener_origin l\<rparr> else s1) ls)"

definition statusLocked :: "stub \<Rightarrow> net_status" where
  "statusLocked p =
     (let s0 = \<lparr>ns_state = NetworkAccessStateDisconnected, ns_hostname = [], ns_origin = [], ns_addresses = [],
                ns_listeners = [], ns_provider_version = ''stub 0.1.0'', ns_desired_connected = st_desired p\<rparr>
      in if \<not> st_connected p then s0
         else let s1 = s0\<lparr>ns_state := NetworkAccessStateConnected, ns_hostname := ''stub.invalid'',
                          ns_addresses := [''100.64.0.1'']\<rparr>;
                  s2 = (case st_host_info p of None \<Rightarrow> s1 | Some i \<Rightarrow> add_listeners s1 (hi_listeners i))
              in if ns_origin s2 = [] then s2\<lparr>ns_origin := ''https://stub.invalid''\<rparr> else s2)"

definition reportLocked :: "net_env \<Rightarrow> net_status \<Rightarrow> net_effect list" where
  "reportLocked E s =
     (if \<not> ne_host E then []
      else if ne_report_ok E then [Reported s] else [ReportFailed s])"

definition set_intent ::
  "net_env \<Rightarrow> bool \<Rightarrow> stub \<Rightarrow> (net_error + net_status) \<times> net_effect list \<times> stub" where
  "set_intent E b p =
     (let p1 = p\<lparr>st_connected := b, st_desired := b\<rparr>;
          (log, ok) = persistLocked E p1
      in if \<not> ok then (Inl PersistFailed, log, p1)
         else (Inr (statusLocked p1), log @ reportLocked E (statusLocked p1), p1))"

definition Connect :: "net_env \<Rightarrow> stub \<Rightarrow> (net_error + net_status) \<times> net_effect list \<times> stub" where
  "Connect E p0 =
     (let p = restoreLocked E p0 in
      if ne_host E then
        (case ne_info E of
           None \<Rightarrow> (Inl HostInfoFailed, [], p)
         | Some i \<Rightarrow> set_intent E True (p\<lparr>st_host_info := Some i\<rparr>))
      else set_intent E True p)"

definition Disconnect :: "net_env \<Rightarrow> stub \<Rightarrow> (net_error + net_status) \<times> net_effect list \<times> stub" where
  "Disconnect E p0 = set_intent E False (restoreLocked E p0)"

definition GetStatus :: "net_env \<Rightarrow> stub \<Rightarrow> (net_error + net_status) \<times> net_effect list \<times> stub" where
  "GetStatus E p0 = (let p = restoreLocked E p0 in (Inr (statusLocked p), [], p))"

subsection \<open>The system with the host's state\<close>

datatype net_request = ReqConnect | ReqDisconnect | ReqGetStatus

definition handle :: "net_request \<Rightarrow> net_env \<Rightarrow> stub \<Rightarrow> (net_error + net_status) \<times> net_effect list \<times> stub" where
  "handle r = (case r of ReqConnect \<Rightarrow> Connect | ReqDisconnect \<Rightarrow> Disconnect | ReqGetStatus \<Rightarrow> GetStatus)"

datatype net_event = Handled net_request net_env "net_error + net_status" "net_effect list" | Restarted

text \<open>The values the host may hold after a handler's writes: a failed write may have been stored.\<close>

fun stored_after :: "net_effect list \<Rightarrow> string option \<Rightarrow> string option set" where
  "stored_after [] kv = {kv}"
| "stored_after (Wrote v # es) kv = stored_after es (Some v)"
| "stored_after (WriteFailed v # es) kv = stored_after es kv \<union> stored_after es (Some v)"
| "stored_after (Reported s # es) kv = stored_after es kv"
| "stored_after (ReportFailed s # es) kv = stored_after es kv"

inductive net_step :: "stub \<times> string option \<Rightarrow> net_event \<Rightarrow> stub \<times> string option \<Rightarrow> bool" where
  net_handled:
    "ne_read E = None \<or> ne_read E = Some kv \<Longrightarrow> handle r E p = (res, log, p') \<Longrightarrow> kv' \<in> stored_after log kv \<Longrightarrow>
     net_step (p, kv) (Handled r E res log) (p', kv')"
| net_restarted: "net_step (p, kv) Restarted (fresh_stub, kv)"

inductive_cases HandledE: "net_step (p, kv) (Handled r E res log) (p', kv')"
inductive_cases RestartedE: "net_step (p, kv) Restarted (p', kv')"

text \<open>
  What is known of the persisted intent from the writes: \<open>Some b\<close> after a write the host acknowledged,
  \<open>None\<close> after a failed one.
\<close>

fun known_after :: "bool option \<Rightarrow> net_effect list \<Rightarrow> bool option" where
  "known_after k [] = k"
| "known_after k (Wrote v # es) = known_after (Some (v = ''1'')) es"
| "known_after k (WriteFailed v # es) = known_after None es"
| "known_after k (Reported s # es) = known_after k es"
| "known_after k (ReportFailed s # es) = known_after k es"

fun intent :: "bool option \<Rightarrow> net_event \<Rightarrow> bool option" where
  "intent k (Handled r E res log) = known_after k log"
| "intent k Restarted = k"

text \<open>
  What the caller knows of it from the answers: \<open>Some b\<close> after an acknowledged change for which the handler had a
  host, \<open>None\<close> after one that was acknowledged without a host, and so without being persisted, and after
  one whose write failed.
\<close>

definition changes_intent :: "net_request \<Rightarrow> bool" where
  "changes_intent r \<longleftrightarrow> r = ReqConnect \<or> r = ReqDisconnect"

fun acknowledged :: "bool option \<Rightarrow> net_event \<Rightarrow> bool option" where
  "acknowledged k (Handled r E (Inr s) log) =
     (if \<not> changes_intent r then k
      else if ne_host E then Some (r = ReqConnect) else None)"
| "acknowledged k (Handled r E (Inl e) log) = (if \<exists>v. WriteFailed v \<in> set log then None else k)"
| "acknowledged k Restarted = k"

definition net_inv :: "net_event list \<Rightarrow> stub \<times> string option \<Rightarrow> bool" where
  "net_inv tr = (\<lambda>(p, kv).
     st_connected p = st_desired p
     \<and> (\<forall>b. foldl intent (Some False) tr = Some b \<longrightarrow> (kv = Some ''1'' \<longleftrightarrow> b)))"

lemma stored_known:
  "kv' \<in> stored_after es kv \<Longrightarrow> (\<forall>b. k = Some b \<longrightarrow> (kv = Some ''1'' \<longleftrightarrow> b)) \<Longrightarrow>
     (\<forall>b. known_after k es = Some b \<longrightarrow> (kv' = Some ''1'' \<longleftrightarrow> b))"
proof (induction k es arbitrary: kv rule: known_after.induct)
  case (2 k v es)
  from "2.prems"(1) have "kv' \<in> stored_after es (Some v)" by simp
  from "2.IH" [OF this] show ?case by simp
next
  case (3 k v es)
  from "3.prems"(1) obtain x where "kv' \<in> stored_after es x" by auto
  from "3.IH" [OF this] show ?case by simp
qed simp_all

lemma restoreLocked_agree: "st_connected p = st_desired p \<Longrightarrow> st_connected (restoreLocked E p) = st_desired (restoreLocked E p)"
  by (simp add: restoreLocked_def split: option.split)

lemma set_intent_agree: "set_intent E b p = (res, log, p') \<Longrightarrow> st_connected p' = st_desired p'"
  by (auto simp: set_intent_def Let_def split: prod.splits if_splits)

lemma handle_agree:
  "handle r E p = (res, log, p') \<Longrightarrow> st_connected p = st_desired p \<Longrightarrow> st_connected p' = st_desired p'"
  using restoreLocked_agree [of p E]
  by (cases r) (auto simp: handle_def Connect_def Disconnect_def GetStatus_def Let_def
      split: if_splits option.splits dest: set_intent_agree)

interpretation network_stub: safe_system net_step "(fresh_stub, None)" net_inv
proof
  show "net_inv [] (fresh_stub, None)" by (simp add: net_inv_def fresh_stub_def)
next
  fix tr s e t
  assume inv: "net_inv tr s" and "net_step s e t"
  from this(2) show "net_inv (tr @ [e]) t"
  proof cases
    case (net_handled E kv r p res log p' kv')
    with inv handle_agree [OF net_handled(5)] stored_known [OF net_handled(6), of "foldl intent (Some False) tr"]
    show ?thesis by (simp add: net_inv_def)
  next
    case (net_restarted p kv)
    with inv show ?thesis by (simp add: net_inv_def fresh_stub_def)
  qed
qed

text \<open>The reported status.\<close>

lemma add_listeners_fields:
  "ns_state (add_listeners s ls) = ns_state s"
  "ns_desired_connected (add_listeners s ls) = ns_desired_connected s"
  "ns_listeners (add_listeners s ls) =
     ns_listeners s @ map (\<lambda>l. \<lparr>nl_name = ln_name l, nl_origin = listener_origin l\<rparr>) ls"
  by (induction ls arbitrary: s) (simp_all add: Let_def)

lemma statusLocked_fields:
  "ns_state (statusLocked p) = (if st_connected p then NetworkAccessStateConnected else NetworkAccessStateDisconnected)"
  "ns_desired_connected (statusLocked p) = st_desired p"
  "st_connected p \<Longrightarrow> ns_origin (statusLocked p) \<noteq> []"
  by (auto simp: statusLocked_def Let_def add_listeners_fields split: option.split)

lemma set_intent_Inr:
  "set_intent E b p = (Inr s, log, p') \<Longrightarrow>
     s = statusLocked p' \<and> st_desired p' = b \<and> st_connected p' = b \<and> st_restored p' = st_restored p
     \<and> (ne_host E \<longrightarrow> log = [Wrote (if b then ''1'' else ''0''), if ne_report_ok E then Reported s else ReportFailed s]) \<and> (\<not> ne_host E \<longrightarrow> log = [])"
  by (auto simp: set_intent_def persistLocked_def reportLocked_def Let_def split: if_splits)

lemma restart_reports:
  assumes "run net_step (fresh_stub, None) (tr @ [Restarted, Handled ReqGetStatus E (Inr s) log]) (p', kv')"
    and "foldl intent (Some False) tr = Some b" and "ne_restore_host E" and "ne_read E \<noteq> None"
  shows "ns_desired_connected s = b" and "ns_state s = (if b then NetworkAccessStateConnected else NetworkAccessStateDisconnected)"
    and "kv' = Some ''1'' \<longleftrightarrow> b"
proof -
  obtain p kv where run: "run net_step (fresh_stub, None) tr (p, kv)"
    and last: "run net_step (p, kv) [Restarted, Handled ReqGetStatus E (Inr s) log] (p', kv')"
    using assms(1) by (auto simp: run_append)
  have kv: "kv = Some ''1'' \<longleftrightarrow> b"
    using network_stub.Inv_run [OF run] assms(2) by (simp add: net_inv_def)
  have "net_step (fresh_stub, kv) (Handled ReqGetStatus E (Inr s) log) (p', kv')"
    using last by (auto simp: run_Cons elim: RestartedE)
  then have get: "ne_read E = Some kv" "s = statusLocked (restoreLocked E fresh_stub)" "kv' = kv"
    using assms(4) by (auto simp: handle_def GetStatus_def Let_def elim!: HandledE)
  have "st_desired (restoreLocked E fresh_stub) = b \<and> st_connected (restoreLocked E fresh_stub) = b"
    using get(1) kv assms(3) by (simp add: restoreLocked_def fresh_stub_def)
  then show "ns_desired_connected s = b" and "kv' = Some ''1'' \<longleftrightarrow> b"
    and "ns_state s = (if b then NetworkAccessStateConnected else NetworkAccessStateDisconnected)"
    using get(2,3) kv by (simp_all add: statusLocked_fields)
qed

text \<open>The answers of the callers tell no more than the writes.\<close>

lemma acknowledged_step:
  assumes "net_step u e v" and "\<forall>b. k = Some b \<longrightarrow> k' = Some b" and "acknowledged k e = Some b"
  shows "intent k' e = Some b"
  using assms(1)
proof cases
  case (net_handled E kv r p res log p' kv')
  show ?thesis
  proof (cases res)
    case (Inl err)
    with net_handled assms(2,3) show ?thesis
      by (cases r) (auto simp: handle_def Connect_def Disconnect_def GetStatus_def set_intent_def persistLocked_def Let_def
          split: if_splits option.splits)
  next
    case (Inr s)
    with net_handled assms(2,3) show ?thesis
      by (cases r) (auto simp: handle_def changes_intent_def Connect_def Disconnect_def GetStatus_def Let_def
          split: if_splits option.splits dest!: set_intent_Inr)
  qed
qed (use assms in simp)

lemma acknowledged_run:
  "run net_step u tr v \<Longrightarrow> foldl acknowledged k tr = Some b \<Longrightarrow> foldl intent k tr = Some b"
proof (induction arbitrary: b rule: run.induct)
  case (run_snoc s es t e u)
  then have "\<forall>b. foldl acknowledged k es = Some b \<longrightarrow> foldl intent k es = Some b" by blast
  with acknowledged_step [OF run_snoc.hyps(2) this] run_snoc.prems show ?case by simp
qed simp

lemma acknowledged_reports:
  assumes "run net_step (fresh_stub, None) (tr @ [Restarted, Handled ReqGetStatus E (Inr s) log]) (p', kv')"
    and "foldl acknowledged (Some False) tr = Some b" and "ne_restore_host E" and "ne_read E \<noteq> None"
  shows "ns_desired_connected s = b" and "ns_state s = (if b then NetworkAccessStateConnected else NetworkAccessStateDisconnected)"
    and "kv' = Some ''1'' \<longleftrightarrow> b"
proof -
  from assms(1) obtain v where "run net_step (fresh_stub, None) tr v" by (auto simp: run_append)
  from acknowledged_run [OF this assms(2)] have "foldl intent (Some False) tr = Some b" .
  note restart_reports [OF assms(1) this assms(3,4)]
  then show "ns_desired_connected s = b" and "ns_state s = (if b then NetworkAccessStateConnected else NetworkAccessStateDisconnected)"
    and "kv' = Some ''1'' \<longleftrightarrow> b" .
qed

end
