(* ===== verification/Stub_Goroutines.thy ===== *)
theory Stub_Goroutines
  imports Network_Stub Monitor
begin

text \<open>
  The handlers of \<open>examples/hello-network-access/main.go\<close> statement by statement: \<open>Connect\<close>,
  \<open>Disconnect\<close> and \<open>GetStatus\<close> run in goroutines of the gRPC server under \<open>p.mu\<close>, and the process may be
  killed between any two statements, also between persisting an intent and answering the caller. The shared
  state is the provider with the value the host stores; a read of the host is one
  statement, a write is two, as the process may be killed while it waits for the answer. A label carries the request and the host's answers so far (\<open>no_answers\<close> when none came in yet).
\<close>

definition no_answers :: net_env where
  "no_answers = \<lparr>ne_restore_host = False, ne_read = None, ne_restore_info = None, ne_host = False,
     ne_info = None, ne_write_ok = False, ne_report_ok = False\<rparr>"

definition read_answer :: "string option \<Rightarrow> net_env" where
  "read_answer val = no_answers\<lparr>ne_restore_host := True, ne_read := Some val\<rparr>"

datatype stub_stmt =
    CheckRestored net_request
  | RestoreHost net_request
  | ReadIntent net_request
  | MarkRestored net_request "string option"
  | RestoreDesired net_request
  | RestoreConnected net_request
  | RestoreInfo net_request
  | StoreRestoredInfo net_request host_info
  | HandlerBody net_request net_env
  | FetchInfo net_env
  | StoreInfo net_env host_info
  | SetConnected net_request net_env
  | SetDesired net_request net_env
  | PersistIntent net_request net_env
  | AwaitWrite net_request net_env string bool
  | StatusReply net_request net_env "net_effect list"
  | ReportStatus net_request net_env "net_effect list" net_status
  | UnlockStub net_event

type_synonym stub_shared = "stub \<times> string option"

text \<open>\<open>A\<close> holds the answers the host may give to this statement; \<open>stores\<close> says that
  the host stores a write, which it may do without the answer coming back.\<close>

fun stub_next :: "net_env \<Rightarrow> bool \<Rightarrow> stub_stmt \<Rightarrow> stub_shared \<Rightarrow> stub_stmt \<times> stub_shared" where
  "stub_next A stores (CheckRestored r) (p, kv) =
     (if st_restored p then HandlerBody r no_answers else RestoreHost r, p, kv)"
| "stub_next A stores (RestoreHost r) (p, kv) =
     (if ne_restore_host A then ReadIntent r else HandlerBody r no_answers, p, kv)"
| "stub_next A stores (ReadIntent r) (p, kv) =
     (case ne_read A of
        None \<Rightarrow> HandlerBody r (no_answers\<lparr>ne_restore_host := True\<rparr>)
      | Some val \<Rightarrow> MarkRestored r val, p, kv)"
| "stub_next A stores (MarkRestored r val) (p, kv) =
     (if val = Some ''1'' then RestoreDesired r else HandlerBody r (read_answer val), p\<lparr>st_restored := True\<rparr>, kv)"
| "stub_next A stores (RestoreDesired r) (p, kv) = (RestoreConnected r, p\<lparr>st_desired := True\<rparr>, kv)"
| "stub_next A stores (RestoreConnected r) (p, kv) = (RestoreInfo r, p\<lparr>st_connected := True\<rparr>, kv)"
| "stub_next A stores (RestoreInfo r) (p, kv) =
     (case ne_restore_info A of
        None \<Rightarrow> HandlerBody r (read_answer (Some ''1''))
      | Some i \<Rightarrow> StoreRestoredInfo r i, p, kv)"
| "stub_next A stores (StoreRestoredInfo r i) (p, kv) =
     (HandlerBody r (read_answer (Some ''1'')\<lparr>ne_restore_info := Some i\<rparr>), p\<lparr>st_host_info := Some i\<rparr>, kv)"
| "stub_next A stores (HandlerBody r E) (p, kv) =
     (case r of
        ReqGetStatus \<Rightarrow> UnlockStub (Handled ReqGetStatus E (Inr (statusLocked p)) [])
      | ReqConnect \<Rightarrow> if ne_host A then FetchInfo (E\<lparr>ne_host := True\<rparr>) else SetConnected ReqConnect E
      | ReqDisconnect \<Rightarrow> SetConnected ReqDisconnect (E\<lparr>ne_host := ne_host A\<rparr>), p, kv)"
| "stub_next A stores (FetchInfo E) (p, kv) =
     (case ne_info A of
        None \<Rightarrow> UnlockStub (Handled ReqConnect E (Inl HostInfoFailed) [])
      | Some i \<Rightarrow> StoreInfo E i, p, kv)"
| "stub_next A stores (StoreInfo E i) (p, kv) =
     (SetConnected ReqConnect (E\<lparr>ne_info := Some i\<rparr>), p\<lparr>st_host_info := Some i\<rparr>, kv)"
| "stub_next A stores (SetConnected r E) (p, kv) = (SetDesired r E, p\<lparr>st_connected := r = ReqConnect\<rparr>, kv)"
| "stub_next A stores (SetDesired r E) (p, kv) = (PersistIntent r E, p\<lparr>st_desired := r = ReqConnect\<rparr>, kv)"
| "stub_next A stores (PersistIntent r E) (p, kv) =
     (if \<not> ne_host E then (StatusReply r E [], p, kv)
      else let val = (if st_desired p then ''1'' else ''0'') in
           (AwaitWrite r E val stores, p, if stores then Some val else kv))"
| "stub_next A stores (AwaitWrite r E val stored) (p, kv) =
     (if stored \<and> ne_write_ok A then StatusReply r (E\<lparr>ne_write_ok := True\<rparr>) [Wrote val]
      else UnlockStub (Handled r E (Inl PersistFailed) [WriteFailed val]), p, kv)"
| "stub_next A stores (StatusReply r E log) (p, kv) = (ReportStatus r E log (statusLocked p), p, kv)"
| "stub_next A stores (ReportStatus r E log s) (p, kv) =
     (let E' = (if ne_host E then E\<lparr>ne_report_ok := ne_report_ok A\<rparr> else E) in
      UnlockStub (Handled r E' (Inr s) (log @ reportLocked E' s)), p, kv)"
| "stub_next A stores (UnlockStub e) (p, kv) = (UnlockStub e, p, kv)"

fun stub_finished :: "stub_stmt \<Rightarrow> net_event option" where
  "stub_finished (UnlockStub e) = Some e"
| "stub_finished _ = None"

text \<open>A read returns what the host stores, or fails.\<close>

inductive stub_exec :: "stub_stmt \<times> stub_shared \<Rightarrow> stub_stmt \<times> stub_shared \<Rightarrow> bool" where
  "stub_finished pc = None \<Longrightarrow> ne_read A = None \<or> ne_read A = Some kv \<Longrightarrow>
     stub_exec (pc, (p, kv)) (stub_next A stores pc (p, kv))"

inductive_cases stub_execE: "stub_exec (pc, (p, kv)) (pc', t')"

text \<open>A kill loses the provider; the host keeps what it stores.\<close>

definition stub_reset :: "stub_shared \<Rightarrow> stub_shared" where
  "stub_reset = (\<lambda>(p, kv). (fresh_stub, kv))"

type_synonym stub_process = "(stub_shared, net_request, stub_stmt) process"
type_synonym stub_life = "(net_request, net_event, stub_stmt) life"

definition stub_life_step :: "stub_process \<Rightarrow> stub_life \<Rightarrow> stub_process \<Rightarrow> bool" where
  "stub_life_step = life_step CheckRestored stub_exec stub_finished stub_reset"

subsection \<open>The assertions\<close>

fun stub_answers :: "net_request \<Rightarrow> net_event \<Rightarrow> bool" where
  "stub_answers r (Handled r' E res log) \<longleftrightarrow> r' = r"
| "stub_answers r Restarted \<longleftrightarrow> False"

definition read_ok :: "net_env \<Rightarrow> string option \<Rightarrow> bool" where
  "read_ok E kv \<longleftrightarrow> ne_read E = None \<or> ne_read E = Some kv"

text \<open>The provider when the handler starts to change the intent.\<close>

definition prepared :: "net_request \<Rightarrow> net_env \<Rightarrow> stub \<Rightarrow> stub" where
  "prepared r E p =
     (if r = ReqConnect \<and> ne_host E then (restoreLocked E p)\<lparr>st_host_info := ne_info E\<rparr> else restoreLocked E p)"

definition prepares :: "net_request \<Rightarrow> net_env \<Rightarrow> bool" where
  "prepares r E \<longleftrightarrow> changes_intent r \<and> (r = ReqConnect \<and> ne_host E \<longrightarrow> ne_info E \<noteq> None)"

abbreviation changed :: "net_request \<Rightarrow> net_env \<Rightarrow> stub \<Rightarrow> stub" where
  "changed r E p \<equiv> (prepared r E p)\<lparr>st_connected := r = ReqConnect, st_desired := r = ReqConnect\<rparr>"

lemma restoreLocked_env [simp]:
  "restoreLocked (E\<lparr>ne_host := h\<rparr>) p = restoreLocked E p"
  "restoreLocked (E\<lparr>ne_info := i\<rparr>) p = restoreLocked E p"
  "restoreLocked (E\<lparr>ne_write_ok := w\<rparr>) p = restoreLocked E p"
  "restoreLocked (E\<lparr>ne_report_ok := w\<rparr>) p = restoreLocked E p"
  by (simp_all add: restoreLocked_def split: option.split)

definition unwritten :: "net_env \<Rightarrow> string option \<Rightarrow> bool" where
  "unwritten E kv \<longleftrightarrow> read_ok E kv \<and> \<not> ne_write_ok E"

lemma read_ok_env [simp]:
  "read_ok (E\<lparr>ne_host := h\<rparr>) kv = read_ok E kv"
  "read_ok (E\<lparr>ne_info := i\<rparr>) kv = read_ok E kv"
  "read_ok (E\<lparr>ne_write_ok := w\<rparr>) kv = read_ok E kv"
  "read_ok (E\<lparr>ne_report_ok := w\<rparr>) kv = read_ok E kv"
  "read_ok no_answers kv"
  "read_ok (E\<lparr>ne_restore_info := ri\<rparr>) kv = read_ok E kv"
  "read_ok (no_answers\<lparr>ne_restore_host := rh\<rparr>) kv"
  "read_ok (read_answer val) kv \<longleftrightarrow> val = kv"
  by (simp_all add: read_ok_def read_answer_def no_answers_def)

lemma unwritten_env [simp]:
  "unwritten (E\<lparr>ne_host := h\<rparr>) kv = unwritten E kv"
  "unwritten (E\<lparr>ne_info := i\<rparr>) kv = unwritten E kv"
  "unwritten (E\<lparr>ne_restore_info := ri\<rparr>) kv = unwritten E kv"
  "unwritten no_answers kv"
  "unwritten (no_answers\<lparr>ne_restore_host := rh\<rparr>) kv"
  "unwritten (read_answer val) kv \<longleftrightarrow> val = kv"
  by (simp_all add: unwritten_def, simp_all add: read_answer_def no_answers_def)

lemma handle_changes:
  assumes "prepares r E" and "persistLocked E (changed r E p) = (log, ok)"
  shows "handle r E p =
    (if ok then (Inr (statusLocked (changed r E p)), log @ reportLocked E (statusLocked (changed r E p)), changed r E p)
     else (Inl PersistFailed, log, changed r E p))"
  using assms
  by (cases r) (auto simp: prepares_def changes_intent_def prepared_def handle_def Connect_def Disconnect_def set_intent_def Let_def)

fun stub_at :: "net_request \<Rightarrow> stub_shared \<Rightarrow> stub_stmt \<Rightarrow> stub_shared \<Rightarrow> bool" where
  "stub_at m (p, kv) (CheckRestored r) t \<longleftrightarrow> m = r \<and> t = (p, kv)"
| "stub_at m (p, kv) (RestoreHost r) t \<longleftrightarrow> m = r \<and> \<not> st_restored p \<and> t = (p, kv)"
| "stub_at m (p, kv) (ReadIntent r) t \<longleftrightarrow> m = r \<and> \<not> st_restored p \<and> t = (p, kv)"
| "stub_at m (p, kv) (MarkRestored r val) t \<longleftrightarrow> m = r \<and> \<not> st_restored p \<and> val = kv \<and> t = (p, kv)"
| "stub_at m (p, kv) (RestoreDesired r) t \<longleftrightarrow> m = r \<and> \<not> st_restored p \<and> kv = Some ''1'' \<and> t = (p\<lparr>st_restored := True\<rparr>, kv)"
| "stub_at m (p, kv) (RestoreConnected r) t \<longleftrightarrow> m = r \<and> \<not> st_restored p \<and> kv = Some ''1''
     \<and> t = (p\<lparr>st_restored := True, st_desired := True\<rparr>, kv)"
| "stub_at m (p, kv) (RestoreInfo r) t \<longleftrightarrow> m = r \<and> \<not> st_restored p \<and> kv = Some ''1''
     \<and> t = (p\<lparr>st_restored := True, st_desired := True, st_connected := True\<rparr>, kv)"
| "stub_at m (p, kv) (StoreRestoredInfo r i) t \<longleftrightarrow> m = r \<and> \<not> st_restored p \<and> kv = Some ''1''
     \<and> t = (p\<lparr>st_restored := True, st_desired := True, st_connected := True\<rparr>, kv)"
| "stub_at m (p, kv) (HandlerBody r E) t \<longleftrightarrow> m = r \<and> unwritten E kv \<and> \<not> ne_host E \<and> ne_info E = None
     \<and> t = (restoreLocked E p, kv)"
| "stub_at m (p, kv) (FetchInfo E) t \<longleftrightarrow> m = ReqConnect \<and> unwritten E kv \<and> ne_host E \<and> ne_info E = None \<and> t = (restoreLocked E p, kv)"
| "stub_at m (p, kv) (StoreInfo E i) t \<longleftrightarrow> m = ReqConnect \<and> unwritten E kv \<and> ne_host E \<and> t = (restoreLocked E p, kv)"
| "stub_at m (p, kv) (SetConnected r E) t \<longleftrightarrow> m = r \<and> unwritten E kv \<and> prepares r E \<and> t = (prepared r E p, kv)"
| "stub_at m (p, kv) (SetDesired r E) t \<longleftrightarrow> m = r \<and> unwritten E kv \<and> prepares r E
     \<and> t = ((prepared r E p)\<lparr>st_connected := r = ReqConnect\<rparr>, kv)"
| "stub_at m (p, kv) (PersistIntent r E) t \<longleftrightarrow> m = r \<and> unwritten E kv \<and> prepares r E \<and> t = (changed r E p, kv)"
| "stub_at m (p, kv) (AwaitWrite r E val stored) t \<longleftrightarrow> m = r \<and> unwritten E kv \<and> prepares r E \<and> ne_host E
     \<and> val = (if r = ReqConnect then ''1'' else ''0'') \<and> t = (changed r E p, if stored then Some val else kv)"
| "stub_at m (p, kv) (StatusReply r E log) t \<longleftrightarrow> m = r \<and> read_ok E kv \<and> prepares r E \<and> fst t = changed r E p
     \<and> persistLocked E (fst t) = (log, True) \<and> snd t \<in> stored_after log kv"
| "stub_at m (p, kv) (ReportStatus r E log s) t \<longleftrightarrow> m = r \<and> read_ok E kv \<and> prepares r E \<and> fst t = changed r E p
     \<and> persistLocked E (fst t) = (log, True) \<and> snd t \<in> stored_after log kv \<and> s = statusLocked (fst t)"
| "stub_at m (p, kv) (UnlockStub e) t \<longleftrightarrow> stub_answers m e \<and> net_step (p, kv) e t"

text \<open>The ways into the body of a handler.\<close>

lemma restoreLocked_simps:
  "st_restored p \<Longrightarrow> restoreLocked E p = p"
  "restoreLocked no_answers p = p"
  "restoreLocked (no_answers\<lparr>ne_restore_host := h\<rparr>) p = p"
  "\<not> st_restored p \<Longrightarrow> val \<noteq> Some ''1'' \<Longrightarrow> restoreLocked (read_answer val) p = p\<lparr>st_restored := True\<rparr>"
  "\<not> st_restored p \<Longrightarrow> restoreLocked (read_answer (Some ''1'')) p =
     p\<lparr>st_restored := True, st_desired := True, st_connected := True\<rparr>"
  "\<not> st_restored p \<Longrightarrow> restoreLocked (read_answer (Some ''1'')\<lparr>ne_restore_info := Some i\<rparr>) p =
     p\<lparr>st_restored := True, st_desired := True, st_connected := True, st_host_info := Some i\<rparr>"
  by (simp_all add: restoreLocked_def read_answer_def no_answers_def)

lemma no_host_yet [simp]:
  "\<not> ne_host no_answers" "\<not> ne_host (no_answers\<lparr>ne_restore_host := h\<rparr>)" "\<not> ne_host (read_answer val)"
  "\<not> ne_host (read_answer val\<lparr>ne_restore_info := i\<rparr>)"
  "ne_info no_answers = None" "ne_info (no_answers\<lparr>ne_restore_host := h\<rparr>) = None" "ne_info (read_answer val) = None"
  "ne_info (read_answer val\<lparr>ne_restore_info := i\<rparr>) = None"
  by (simp_all add: no_answers_def read_answer_def)

lemma stub_at_unlock:
  "stub_answers m (Handled r E res log) \<Longrightarrow> read_ok E kv \<Longrightarrow> handle r E p = (res, log, p') \<Longrightarrow> kv' \<in> stored_after log kv \<Longrightarrow>
     stub_at m (p, kv) (UnlockStub (Handled r E res log)) (p', kv')"
  by (simp add: net_handled read_ok_def)

lemma handle_status: "handle ReqGetStatus E p = (Inr (statusLocked (restoreLocked E p)), [], restoreLocked E p)"
  by (simp add: handle_def GetStatus_def Let_def)

lemma handle_no_info:
  "ne_host E \<Longrightarrow> ne_info E = None \<Longrightarrow> handle ReqConnect E p = (Inl HostInfoFailed, [], restoreLocked E p)"
  by (simp add: handle_def Connect_def Let_def)

lemma unwritten_read_ok: "unwritten E kv \<Longrightarrow> read_ok E kv"
  by (simp add: unwritten_def)

lemma stub_at_body:
  assumes "stub_at m (p, kv) (HandlerBody r E) (q, kv)" and "stub_next A stores (HandlerBody r E) (q, kv) = (pc', t')"
  shows "stub_at m (p, kv) pc' t'"
proof (cases r)
  case ReqConnect
  with assms show ?thesis by (auto simp: prepares_def changes_intent_def prepared_def)
next
  case ReqDisconnect
  with assms show ?thesis by (auto simp: prepares_def changes_intent_def prepared_def)
next
  case ReqGetStatus
  with assms have "stub_at m (p, kv) (UnlockStub (Handled ReqGetStatus E (Inr (statusLocked q)) [])) (q, kv)"
    by (intro stub_at_unlock) (simp_all add: handle_status unwritten_read_ok)
  with ReqGetStatus assms(2) show ?thesis by auto
qed

lemma stub_at_persist:
  assumes "stub_at m (p, kv) (PersistIntent r E) (q, kv)" and "stub_next A stores (PersistIntent r E) (q, kv) = (pc', t')"
  shows "stub_at m (p, kv) pc' t'"
  using assms by (cases "ne_host E") (auto simp: persistLocked_def unwritten_def Let_def)

lemma stub_at_written:
  assumes "stub_at m (p, kv) (AwaitWrite r E val stored) (q, kv')"
    and "stub_next A stores (AwaitWrite r E val stored) (q, kv') = (pc', t')"
  shows "stub_at m (p, kv) pc' t'"
proof -
  from assms(1) have m: "m = r" "read_ok E kv" "\<not> ne_write_ok E" "prepares r E" "ne_host E" and q: "q = changed r E p"
    and val: "val = (if r = ReqConnect then ''1'' else ''0'')" and kv': "kv' = (if stored then Some val else kv)"
    by (auto simp: unwritten_def)
  show ?thesis
  proof (cases "stored \<and> ne_write_ok A")
    case True
    have "prepares r (E\<lparr>ne_write_ok := True\<rparr>)" "changed r (E\<lparr>ne_write_ok := True\<rparr>) p = changed r E p"
      using m(4) by (simp_all add: prepares_def prepared_def)
    with True assms(2) m q val kv' show ?thesis by (auto simp: persistLocked_def Let_def)
  next
    case False
    have "persistLocked E (changed r E p) = ([WriteFailed val], False)"
      using m(3,5) val by (simp add: persistLocked_def Let_def)
    from handle_changes [OF m(4) this] have h: "handle r E p = (Inl PersistFailed, [WriteFailed val], q)" by (simp add: q)
    have "pc' = UnlockStub (Handled r E (Inl PersistFailed) [WriteFailed val])" "t' = (q, kv')"
      using False assms(2) by auto
    moreover have "kv' \<in> stored_after [WriteFailed val] kv" using kv' by simp
    ultimately show ?thesis using stub_at_unlock [OF _ m(2) h] m(1) by simp
  qed
qed

lemma report_env [simp]:
  "persistLocked (E\<lparr>ne_report_ok := w\<rparr>) p = persistLocked E p"
  "prepares r (E\<lparr>ne_report_ok := w\<rparr>) = prepares r E"
  "prepared r (E\<lparr>ne_report_ok := w\<rparr>) p = prepared r E p"
  by (simp_all add: persistLocked_def prepares_def prepared_def)

lemma stub_at_report:
  assumes "stub_at m (p, kv) (ReportStatus r E log s) (q, kv')" and "E' = (if ne_host E then E\<lparr>ne_report_ok := w\<rparr> else E)"
  shows "stub_at m (p, kv) (UnlockStub (Handled r E' (Inr s) (log @ reportLocked E' s))) (q, kv')"
proof (rule stub_at_unlock)
  have stored: "stored_after (log @ reportLocked F s') kv = stored_after log kv" for log kv F s'
    by (induction log kv rule: stored_after.induct) (simp_all add: reportLocked_def)
  from assms show "stub_answers m (Handled r E' (Inr s) (log @ reportLocked E' s))" "read_ok E' kv"
    "kv' \<in> stored_after (log @ reportLocked E' s) kv" by (simp_all add: stored)
  from assms have q: "q = changed r E' p" by simp
  from assms have "persistLocked E' q = (log, True)" "prepares r E'" by auto
  note this [unfolded q]
  from handle_changes [OF this(2,1)] assms q
  show "handle r E' p = (Inr s, log @ reportLocked E' s, q)" by simp
qed

lemma stub_at_exec:
  assumes "stub_at m u pc t" and "stub_exec (pc, t) (pc', t')"
  shows "stub_at m u pc' t'"
proof -
  obtain p kv where u: "u = (p, kv)" by fastforce
  from assms(2) obtain A stores q kv' where n: "stub_next A stores pc (q, kv') = (pc', t')" and t: "t = (q, kv')"
    and rd: "ne_read A = None \<or> ne_read A = Some kv'" and fin: "stub_finished pc = None"
    by (auto elim: stub_exec.cases)
  note at = assms(1) [unfolded u t]
  show ?thesis
  proof (cases pc)
    case (HandlerBody r E)
    with at have "kv' = kv" by simp
    with stub_at_body [of m p kv r E q A stores] at n HandlerBody show ?thesis by (simp only: u)
  next
    case (FetchInfo E)
    with at have "stub_at m (p, kv) (UnlockStub (Handled ReqConnect E (Inl HostInfoFailed) [])) (q, kv')"
      by (intro stub_at_unlock) (simp_all add: handle_no_info unwritten_read_ok)
    with FetchInfo n at show ?thesis by (auto simp: u split: option.splits)
  next
    case (PersistIntent r E)
    with at have "kv' = kv" by simp
    with stub_at_persist [of m p kv r E q A stores] at n PersistIntent show ?thesis by (simp only: u)
  next
    case (AwaitWrite r E val stored)
    with stub_at_written [of m p kv r E val stored q kv' A stores] at n show ?thesis by (simp only: u)
  next
    case (ReportStatus r E log s)
    with stub_at_report [of m p kv r E log s q kv'] at n show ?thesis by (auto simp: u Let_def simp del: stub_at.simps)
  next
    case (ReadIntent r)
    with at n rd show ?thesis by (cases "ne_read A") (auto simp: u restoreLocked_simps)
  next
    case (MarkRestored r val)
    with at n show ?thesis by (cases "val = Some ''1''") (auto simp: u restoreLocked_simps)
  qed (use at n fin in \<open>auto simp: u restoreLocked_simps prepares_def changes_intent_def prepared_def
        split: option.splits if_splits\<close>)
qed

subsection \<open>Kills\<close>

text \<open>
  The intent a handler has sent to the host before it returned. To the caller it may or may not be stored, as after
  a failed write.
\<close>

fun sent_intent :: "net_effect list \<Rightarrow> string option" where
  "sent_intent [] = None"
| "sent_intent (Wrote v # log) = Some v"
| "sent_intent (WriteFailed v # log) = Some v"
| "sent_intent (Reported s # log) = sent_intent log"
| "sent_intent (ReportFailed s # log) = sent_intent log"

fun unacknowledged :: "stub_stmt \<Rightarrow> (net_request \<times> net_env \<times> string) option" where
  "unacknowledged (AwaitWrite r E val stored) = Some (r, E, val)"
| "unacknowledged (StatusReply r E log) = map_option (\<lambda>v. (r, E, v)) (sent_intent log)"
| "unacknowledged (ReportStatus r E log s) = map_option (\<lambda>v. (r, E, v)) (sent_intent log)"
| "unacknowledged (UnlockStub (Handled r E res log)) = map_option (\<lambda>v. (r, E, v)) (sent_intent log)"
| "unacknowledged _ = None"

definition cut_call :: "stub_stmt option \<Rightarrow> net_event list" where
  "cut_call pc =
     (case Option.bind pc unacknowledged of
        None \<Rightarrow> []
      | Some (r, E, v) \<Rightarrow> [Handled r (E\<lparr>ne_write_ok := False\<rparr>) (Inl PersistFailed) [WriteFailed v]])"

definition stub_aborted :: "stub_stmt option \<Rightarrow> net_event list" where
  "stub_aborted pc = cut_call pc @ [Restarted]"

text \<open>What the callers know of the stored intent: a kill after the write was sent and before the answer leaves it open.\<close>

fun life_acknowledged :: "bool option \<Rightarrow> stub_life \<Rightarrow> bool option" where
  "life_acknowledged k (Act a) = foldl acknowledged k (returned a)"
| "life_acknowledged k (Killed pc) = (if Option.bind pc unacknowledged = None then k else None)"

lemma life_acknowledged_event: "foldl acknowledged k (life_events stub_aborted l) = life_acknowledged k l"
  by (cases l) (auto simp: stub_aborted_def cut_call_def split: option.split)

lemma life_acknowledged_history: "foldl acknowledged k (history stub_aborted tr) = foldl life_acknowledged k tr"
  by (induction tr arbitrary: k) (simp_all add: life_acknowledged_event)

text \<open>A call whose write was sent could also have ended with a failed write.\<close>

lemma handle_write_fails:
  assumes "prepares r E" and "ne_host E"
  shows "handle r (E\<lparr>ne_write_ok := False\<rparr>) p =
    (Inl PersistFailed, [WriteFailed (if r = ReqConnect then ''1'' else ''0'')], changed r E p)"
proof -
  let ?E = "E\<lparr>ne_write_ok := False\<rparr>"
  have pr: "prepares r ?E" and ch: "changed r ?E p = changed r E p" using assms(1) by (simp_all add: prepares_def prepared_def)
  have "persistLocked ?E (changed r E p) = ([WriteFailed (if r = ReqConnect then ''1'' else ''0'')], False)"
    using assms(2) by (simp add: persistLocked_def Let_def)
  from handle_changes [OF pr, of p, unfolded ch, OF this] show ?thesis by (simp only: if_False)
qed

lemma cut_step:
  assumes "prepares r E" and "ne_host E" and "read_ok E kv" and "v = (if r = ReqConnect then ''1'' else ''0'')"
    and "kv' = kv \<or> kv' = Some v"
  shows "run net_step (p, kv) [Handled r (E\<lparr>ne_write_ok := False\<rparr>) (Inl PersistFailed) [WriteFailed v], Restarted] (fresh_stub, kv')"
proof -
  have "net_step (p, kv) (Handled r (E\<lparr>ne_write_ok := False\<rparr>) (Inl PersistFailed) [WriteFailed v]) (changed r E p, kv')"
    using handle_write_fails [OF assms(1,2)] assms(3-5) by (intro net_handled) (auto simp: read_ok_def)
  then show ?thesis by (auto simp: run_Cons intro: net_restarted)
qed

lemma handle_sent:
  assumes "handle r E p = (res, log, p')"
  shows "case sent_intent log of
      None \<Rightarrow> stored_after log kv = {kv}
    | Some v \<Rightarrow> prepares r E \<and> ne_host E \<and> v = (if r = ReqConnect then ''1'' else ''0'')
        \<and> stored_after log kv \<subseteq> {kv, Some v}"
  using assms
  by (cases r) (auto simp: handle_def Connect_def Disconnect_def GetStatus_def set_intent_def persistLocked_def
      reportLocked_def prepares_def changes_intent_def Let_def split: if_splits option.splits)

lemma persist_sent:
  assumes "persistLocked E (changed r E p) = (log, ok)"
  shows "case sent_intent log of
      None \<Rightarrow> stored_after log kv = {kv}
    | Some v \<Rightarrow> ne_host E \<and> v = (if r = ReqConnect then ''1'' else ''0'') \<and> stored_after log kv \<subseteq> {kv, Some v}"
  using assms by (auto simp: persistLocked_def Let_def split: if_splits)

lemma restart_run: "run net_step (p, kv) [Restarted] (fresh_stub, kv)"
  by (auto simp: run_Cons intro: net_restarted)

lemma aborted_persisted:
  assumes "prepares r E" and "read_ok E kv" and "persistLocked E (changed r E p) = (log, ok)" and "kv' \<in> stored_after log kv"
    and "unacknowledged pc = map_option (\<lambda>v. (r, E, v)) (sent_intent log)"
  shows "run net_step (p, kv) (stub_aborted (Some pc)) (fresh_stub, kv')"
proof (cases "sent_intent log")
  case None
  with assms(3-5) persist_sent [OF assms(3), of kv] show ?thesis
    by (simp add: stub_aborted_def cut_call_def restart_run)
next
  case (Some v)
  with persist_sent [OF assms(3), of kv] assms(4)
  have "ne_host E" "v = (if r = ReqConnect then ''1'' else ''0'')" "kv' = kv \<or> kv' = Some v" by auto
  with cut_step [OF assms(1) this(1) assms(2) this(2,3)] Some assms(5) show ?thesis
    by (simp add: stub_aborted_def cut_call_def)
qed

lemma aborted_unlock:
  assumes "net_step (p, kv) (Handled r E res log) (p', kv')"
  shows "run net_step (p, kv) (stub_aborted (Some (UnlockStub (Handled r E res log)))) (fresh_stub, kv')"
proof -
  from assms have h: "handle r E p = (res, log, p')" and kv': "kv' \<in> stored_after log kv" and rd: "read_ok E kv"
    by (auto simp: read_ok_def elim: HandledE)
  show ?thesis
  proof (cases "sent_intent log")
    case None
    with handle_sent [OF h, of kv] kv' show ?thesis by (simp add: stub_aborted_def cut_call_def restart_run)
  next
    case (Some v)
    with handle_sent [OF h, of kv] kv'
    have "prepares r E" "ne_host E" "v = (if r = ReqConnect then ''1'' else ''0'')" "kv' = kv \<or> kv' = Some v" by auto
    with cut_step [OF this(1,2) rd this(3,4)] Some show ?thesis by (simp add: stub_aborted_def cut_call_def)
  qed
qed

lemma stub_at_killed:
  assumes "stub_at m u pc t"
  shows "run net_step u (stub_aborted (Some pc)) (stub_reset t)"
proof -
  obtain p kv q kv' where u: "u = (p, kv)" and t: "t = (q, kv')" by (cases u, cases t) simp
  note at = assms [unfolded u t]
  have "run net_step (p, kv) (stub_aborted (Some pc)) (fresh_stub, kv')"
  proof (cases pc)
    case (StatusReply r E log)
    with at have q: "q = changed r E p" and "prepares r E" "read_ok E kv" "persistLocked E q = (log, True)" "kv' \<in> stored_after log kv"
      by auto
    from aborted_persisted [OF this(2,3) this(4) [unfolded q] this(5)] StatusReply show ?thesis by simp
  next
    case (ReportStatus r E log s)
    with at have q: "q = changed r E p" and "prepares r E" "read_ok E kv" "persistLocked E q = (log, True)" "kv' \<in> stored_after log kv"
      by auto
    from aborted_persisted [OF this(2,3) this(4) [unfolded q] this(5)] ReportStatus show ?thesis by simp
  next
    case (AwaitWrite r E val stored)
    with at have "prepares r E" "ne_host E" "read_ok E kv" "val = (if r = ReqConnect then ''1'' else ''0'')" "kv' = kv \<or> kv' = Some val"
      by (auto simp: unwritten_def split: if_splits)
    from cut_step [OF this] AwaitWrite show ?thesis by (simp add: stub_aborted_def cut_call_def)
  next
    case (UnlockStub e)
    with at obtain r E res log where "e = Handled r E res log" by (cases e) auto
    with UnlockStub at show ?thesis by (auto intro: aborted_unlock)
  qed (use at in \<open>simp_all add: stub_aborted_def cut_call_def restart_run\<close>)
  then show ?thesis by (simp add: u t stub_reset_def)
qed

fun stub_left :: "stub_stmt \<Rightarrow> nat" where
  "stub_left (CheckRestored r) = 17"
| "stub_left (RestoreHost r) = 16"
| "stub_left (ReadIntent r) = 15"
| "stub_left (MarkRestored r val) = 14"
| "stub_left (RestoreDesired r) = 13"
| "stub_left (RestoreConnected r) = 12"
| "stub_left (RestoreInfo r) = 11"
| "stub_left (StoreRestoredInfo r i) = 10"
| "stub_left (HandlerBody r E) = 9"
| "stub_left (FetchInfo E) = 8"
| "stub_left (StoreInfo E i) = 7"
| "stub_left (SetConnected r E) = 6"
| "stub_left (SetDesired r E) = 5"
| "stub_left (PersistIntent r E) = 4"
| "stub_left (AwaitWrite r E val stored) = 3"
| "stub_left (StatusReply r E log) = 2"
| "stub_left (ReportStatus r E log s) = 1"
| "stub_left (UnlockStub e) = 0"

lemma stub_exec_closer: "stub_exec (pc, t) (pc', t') \<Longrightarrow> stub_left pc' < stub_left pc"
proof (erule stub_exec.cases, clarify)
  fix A stores p kv
  assume "(pc', t') = stub_next A stores pc (p, kv)" and "stub_finished pc = None"
  then show "stub_left pc' < stub_left pc"
    by (cases pc) (auto simp: Let_def split: if_splits option.splits net_request.splits)
qed

lemma stub_exec_enabled: "stub_finished pc = None \<Longrightarrow> \<exists>pc' t'. stub_exec (pc, t) (pc', t')"
proof -
  assume fin: "stub_finished pc = None"
  have "stub_exec (pc, (fst t, snd t)) (stub_next no_answers False pc (fst t, snd t))"
    by (rule stub_exec.intros [OF fin]) (simp add: no_answers_def)
  then show ?thesis by (metis prod.collapse)
qed

interpretation stub_monitor: live_monitor CheckRestored stub_exec stub_finished net_step stub_answers stub_at stub_left
proof
  show "stub_at m s (CheckRestored m) s" for m s by (cases s) simp
next
  fix m s pc t pc' t'
  assume "stub_at m s pc t" and "stub_exec (pc, t) (pc', t')"
  then show "stub_at m s pc' t'" by (rule stub_at_exec)
next
  fix m s pc t e
  assume "stub_at m s pc t" and "stub_finished pc = Some e"
  then show "net_step s e t \<and> stub_answers m e" by (cases pc; cases s) auto
next
  fix m s pc t
  assume "stub_finished pc = None"
  then show "\<exists>pc' t'. stub_exec (pc, t) (pc', t')" by (rule stub_exec_enabled)
next
  fix pc t pc' t'
  assume "stub_exec (pc, t) (pc', t')"
  then show "stub_left pc' < stub_left pc" by (rule stub_exec_closer)
qed

interpretation stub_crashes: crash_monitor CheckRestored stub_exec stub_finished net_step stub_answers stub_at stub_reset stub_aborted
proof
  fix m s pc t
  assume "stub_at m s pc t"
  then show "run net_step s (stub_aborted (Some pc)) (stub_reset t)" by (rule stub_at_killed)
next
  show "run net_step s (stub_aborted None) (stub_reset s)" for s
    by (cases s) (simp add: stub_aborted_def cut_call_def stub_reset_def restart_run)
qed

text \<open>The first call that returns after a kill, as the abstract system of \<open>Network_Stub\<close> sees it.\<close>

lemma first_return_after_kill:
  assumes "run stub_life_step (idle (fresh_stub, None)) (tr @ Killed pc # tr' @ [Act (Answered g e)]) P"
    and "history stub_aborted tr' = []"
  shows "run net_step (fresh_stub, None) ((history stub_aborted tr @ cut_call pc) @ [Restarted, e]) (shared P)"
proof -
  note run = assms(1) [unfolded stub_life_step_def]
  have "tr @ Killed pc # tr' @ [Act (Answered g e)] = (tr @ Killed pc # tr') @ [Act (Answered g e)]" by simp
  with run have "holder P = None"
    by (auto simp only: run_snoc_iff) (auto elim!: life_step.cases AnsweredE)
  with stub_crashes.life_linearizable [OF run] assms(2) show ?thesis
    by (auto simp: stub_aborted_def)
qed

lemma stub_call_completes:
  assumes "run (monitor_step CheckRestored stub_exec stub_finished) (idle s0) tr P" and "open_calls tr g = Some r"
  shows "\<exists>tr' e Q. run (monitor_step CheckRestored stub_exec stub_finished) P (tr' @ [Answered g e]) Q \<and> open_calls (tr @ tr') g = Some r"
  by (rule stub_monitor.call_can_return [OF assms])

text \<open>A schedule with a host that answers every call.\<close>

definition willing_next :: "host_info \<Rightarrow> stub_stmt \<Rightarrow> stub_shared \<Rightarrow> stub_stmt \<times> stub_shared" where
  "willing_next i pc t =
     stub_next \<lparr>ne_restore_host = True, ne_read = Some (snd t), ne_restore_info = Some i, ne_host = True,
       ne_info = Some i, ne_write_ok = True, ne_report_ok = True\<rparr> True pc t"

definition stub_schedule :: "host_info \<Rightarrow> stub_life list \<Rightarrow> stub_process \<Rightarrow> stub_process option" where
  "stub_schedule i = schedule (live CheckRestored (willing_next i) stub_finished stub_reset)"

lemma stub_schedule_run:
  assumes "stub_schedule i tr P = Some Q"
  shows "run stub_life_step P tr Q"
proof -
  have ex: "stub_exec (pc, t) (willing_next i pc t)" if "stub_finished pc = None" for pc t
    by (cases t) (auto simp: willing_next_def intro!: stub_exec.intros that)
  show ?thesis using assms
    unfolding stub_schedule_def stub_life_step_def by (rule schedule_run) (auto intro: live_sound ex)
qed

end
