(* ===== verification/Nested_Monitor.thy ===== *)
theory Nested_Monitor
  imports Monitor
begin

text \<open>
  Two monitors in one process: methods of the outer one call methods of the inner one while they
  hold the outer mutex. \<open>callee pc\<close> is the inner method that the statement \<open>pc\<close> calls; its
  goroutine then waits for the inner mutex, runs the inner method, and continues with \<open>resume f\<close>, where \<open>f\<close> is
  what the inner method returned. Other goroutines call the inner methods directly. No inner method calls an
  outer one, which is the lock order.

  The locale \<open>nested\<close> gives that each monitor sees a run of its own, so that what is proved of either of them
  alone holds in the composition, and that no two goroutines block each other: every open call can return.
\<close>

datatype ('m, 'e, 'n, 'f) nested_activity =
    Outer "('m, 'e) activity"
  | Inner "('n, 'f) activity"
  | Resumed goroutine_id 'f

type_synonym ('s, 'm, 'pc, 't, 'n, 'qc) nested_process = "('s, 'm, 'pc) process \<times> ('t, 'n, 'qc) process"

definition calling :: "('pc \<Rightarrow> 'n option) \<Rightarrow> ('s, 'm, 'pc) process \<Rightarrow> goroutine_id \<Rightarrow> 'n option" where
  "calling callee P g = (case goroutines P g of Some (Inside m pc) \<Rightarrow> callee pc | _ \<Rightarrow> None)"

text \<open>
  What a goroutine may do in one monitor depends on where it is in the other: it makes one call at a
  time, leaves a statement that is a call only by its return, and returns from the inner method to the outer
  one where that called it.
\<close>

fun outer_may ::
  "('pc \<Rightarrow> 'n option) \<Rightarrow> ('s, 'm, 'pc, 't, 'n, 'qc) nested_process \<Rightarrow> ('m, 'e) activity \<Rightarrow> bool" where
  "outer_may callee (P, Q) (Called g m) \<longleftrightarrow> goroutines Q g = None"
| "outer_may callee (P, Q) (Executed g) \<longleftrightarrow> calling callee P g = None"
| "outer_may callee (P, Q) _ \<longleftrightarrow> True"

fun inner_may ::
  "('pc \<Rightarrow> 'n option) \<Rightarrow> ('s, 'm, 'pc, 't, 'n, 'qc) nested_process \<Rightarrow> ('n, 'f) activity \<Rightarrow> bool" where
  "inner_may callee (P, Q) (Called g n) \<longleftrightarrow> goroutines P g = None \<or> calling callee P g = Some n"
| "inner_may callee (P, Q) (Answered g f) \<longleftrightarrow> goroutines P g = None"
| "inner_may callee (P, Q) _ \<longleftrightarrow> True"

inductive nested_step ::
  "(('s, 'm, 'pc) process \<Rightarrow> ('m, 'e) activity \<Rightarrow> ('s, 'm, 'pc) process \<Rightarrow> bool)
   \<Rightarrow> (('t, 'n, 'qc) process \<Rightarrow> ('n, 'f) activity \<Rightarrow> ('t, 'n, 'qc) process \<Rightarrow> bool)
   \<Rightarrow> ('pc \<Rightarrow> 'n option) \<Rightarrow> ('f \<Rightarrow> 'pc \<times> 's \<Rightarrow> 'pc \<times> 's \<Rightarrow> bool)
   \<Rightarrow> ('s, 'm, 'pc, 't, 'n, 'qc) nested_process \<Rightarrow> ('m, 'e, 'n, 'f) nested_activity
   \<Rightarrow> ('s, 'm, 'pc, 't, 'n, 'qc) nested_process \<Rightarrow> bool"
  for ostep istep callee resume
where
  outer: "ostep P a P' \<Longrightarrow> outer_may callee (P, Q) a \<Longrightarrow>
     nested_step ostep istep callee resume (P, Q) (Outer a) (P', Q)"
| inner: "istep Q a Q' \<Longrightarrow> inner_may callee (P, Q) a \<Longrightarrow>
     nested_step ostep istep callee resume (P, Q) (Inner a) (P, Q')"
| resumed: "istep Q (Answered g f) Q' \<Longrightarrow> goroutines P g = Some (Inside m pc) \<Longrightarrow> callee pc \<noteq> None \<Longrightarrow>
     resume f (pc, shared P) (pc', s') \<Longrightarrow>
     nested_step ostep istep callee resume (P, Q) (Resumed g f)
       (P\<lparr>shared := s', goroutines := (goroutines P)(g \<mapsto> Inside m pc')\<rparr>, Q')"

text \<open>What each monitor sees of a trace.\<close>

fun outer_of :: "('m, 'e, 'n, 'f) nested_activity \<Rightarrow> ('m, 'e) activity list" where
  "outer_of (Outer a) = [a]"
| "outer_of (Inner a) = []"
| "outer_of (Resumed g f) = [Executed g]"

fun inner_of :: "('m, 'e, 'n, 'f) nested_activity \<Rightarrow> ('n, 'f) activity list" where
  "inner_of (Outer a) = []"
| "inner_of (Inner a) = [a]"
| "inner_of (Resumed g f) = [Answered g f]"

definition outer_trace :: "('m, 'e, 'n, 'f) nested_activity list \<Rightarrow> ('m, 'e) activity list" where
  "outer_trace tr = concat (map outer_of tr)"

definition inner_trace :: "('m, 'e, 'n, 'f) nested_activity list \<Rightarrow> ('n, 'f) activity list" where
  "inner_trace tr = concat (map inner_of tr)"

lemma nested_trace_simps [simp]:
  "outer_trace [] = []" "outer_trace (tr @ tr') = outer_trace tr @ outer_trace tr'"
  "outer_trace (a # tr) = outer_of a @ outer_trace tr"
  "inner_trace [] = []" "inner_trace (tr @ tr') = inner_trace tr @ inner_trace tr'"
  "inner_trace (a # tr) = inner_of a @ inner_trace tr"
  by (simp_all add: outer_trace_def inner_trace_def)

lemma outer_answered: "Answered g e \<in> set (outer_trace tr) \<Longrightarrow> Outer (Answered g e) \<in> set tr"
proof (induction tr)
  case (Cons a tr)
  then show ?case by (cases a) auto
qed simp

lemma inner_called: "Called g n \<in> set (inner_trace tr) \<Longrightarrow> Inner (Called g n) \<in> set tr"
proof (induction tr)
  case (Cons a tr)
  then show ?case by (cases a) auto
qed simp

lemma inner_answered: "Answered g f \<in> set (inner_trace tr) \<Longrightarrow> \<exists>a\<in>set tr. inner_of a = [Answered g f]"
proof (induction tr)
  case (Cons a tr)
  then show ?case by (cases a) auto
qed simp

lemma resumed_answered: "Resumed g f \<in> set tr \<Longrightarrow> Answered g f \<in> set (inner_trace tr)"
  by (induction tr) auto

lemma run_first:
  assumes "run step s (tr @ [a]) t" and "Ev a"
  shows "\<exists>tr1 b t1. run step s (tr1 @ [b]) t1 \<and> Ev b \<and> (\<forall>c\<in>set tr1. \<not> Ev c)"
proof -
  obtain tr1 b tr2 where "tr @ [a] = tr1 @ b # tr2" "Ev b" "\<forall>c\<in>set tr1. \<not> Ev c"
    using split_list_first_prop [of "tr @ [a]" Ev] assms(2) by auto
  moreover from this(1) assms(1) have "run step s ((tr1 @ [b]) @ tr2) t" by simp
  ultimately show ?thesis unfolding run_append [of step s "tr1 @ [b]"] by blast
qed

lemma calling_iff: "calling callee P g = Some n \<longleftrightarrow> (\<exists>m pc. goroutines P g = Some (Inside m pc) \<and> callee pc = Some n)"
  by (auto simp: calling_def split: option.splits goroutine.splits)

lemma calling_cong: "goroutines P g = goroutines P' g \<Longrightarrow> calling callee P g = calling callee P' g"
  by (simp add: calling_def)

text \<open>Executing a schedule of the two monitors, with a fixed outcome of every statement.\<close>

fun perform_nested ::
  "(('m, 'e) activity \<Rightarrow> ('s, 'm, 'pc) process \<Rightarrow> ('s, 'm, 'pc) process option)
   \<Rightarrow> (('n, 'f) activity \<Rightarrow> ('t, 'n, 'qc) process \<Rightarrow> ('t, 'n, 'qc) process option)
   \<Rightarrow> ('pc \<Rightarrow> 'n option) \<Rightarrow> ('f \<Rightarrow> 'pc \<times> 's \<Rightarrow> 'pc \<times> 's) \<Rightarrow> ('m, 'e, 'n, 'f) nested_activity
   \<Rightarrow> ('s, 'm, 'pc, 't, 'n, 'qc) nested_process \<Rightarrow> ('s, 'm, 'pc, 't, 'n, 'qc) nested_process option"
where
  "perform_nested operf iperf callee resumed (Outer a) (P, Q) =
     (if outer_may callee (P, Q) a then map_option (\<lambda>P'. (P', Q)) (operf a P) else None)"
| "perform_nested operf iperf callee resumed (Inner a) (P, Q) =
     (if inner_may callee (P, Q) a then map_option (\<lambda>Q'. (P, Q')) (iperf a Q) else None)"
| "perform_nested operf iperf callee resumed (Resumed g f) (P, Q) =
     (case (iperf (Answered g f) Q, goroutines P g) of
        (Some Q', Some (Inside m pc)) \<Rightarrow>
          (if callee pc = None then None
           else case resumed f (pc, shared P) of (pc', s') \<Rightarrow>
             Some (P\<lparr>shared := s', goroutines := (goroutines P)(g \<mapsto> Inside m pc')\<rparr>, Q'))
      | _ \<Rightarrow> None)"

lemma perform_nested_sound:
  assumes "perform_nested operf iperf callee resumed a S = Some S'"
    and "\<And>a P P'. operf a P = Some P' \<Longrightarrow> ostep P a P'" and "\<And>a Q Q'. iperf a Q = Some Q' \<Longrightarrow> istep Q a Q'"
    and "\<And>f x. resume f x (resumed f x)"
  shows "nested_step ostep istep callee resume S a S'"
proof -
  obtain P Q where S: "S = (P, Q)" by fastforce
  show ?thesis
  proof (cases a)
    case (Resumed g f)
    with assms(1) S obtain Q' m pc where i: "iperf (Answered g f) Q = Some Q'" "goroutines P g = Some (Inside m pc)"
      "callee pc \<noteq> None"
      by (auto split: option.splits goroutine.splits if_splits)
    obtain pc' s' where r: "resumed f (pc, shared P) = (pc', s')" by fastforce
    from assms(1) S Resumed i r
    have "S' = (P\<lparr>shared := s', goroutines := (goroutines P)(g \<mapsto> Inside m pc')\<rparr>, Q')" by simp
    moreover have "resume f (pc, shared P) (pc', s')" using assms(4) [of f "(pc, shared P)"] r by simp
    ultimately show ?thesis using nested_step.resumed [where istep = istep] assms(3) [OF i(1)] i(2,3) S Resumed by metis
  qed (use assms(1-3) S in \<open>auto intro!: nested_step.outer nested_step.inner split: if_splits simp del: outer_may.simps inner_may.simps\<close>)
qed

lemma executed_method:
  assumes "run (monitor_step enter exec finished) Q (replicate k (Executed h)) Q'"
    and "goroutines Q h = Some (Inside n qc)" and "goroutines Q' h = Some (Inside n' qc')"
  shows "n' = n"
  using assms
proof (induction k arbitrary: Q qc)
  case (Suc k)
  then obtain R where R: "monitor_step enter exec finished Q (Executed h) R"
    "run (monitor_step enter exec finished) R (replicate k (Executed h)) Q'" by (auto simp: run_Cons)
  then obtain qc'' where "goroutines R h = Some (Inside n qc'')" using Suc.prems(2) by (auto elim!: ExecutedE)
  with Suc.IH [OF R(2)] Suc.prems(3) show ?case by blast
qed simp

subsection \<open>The composition\<close>

locale nested =
  outer: live_monitor enter exec finished atomic answers at left +
  inner: live_monitor ienter iexec ifinished iatomic ianswers iat ileft
  for enter :: "'m \<Rightarrow> 'pc" and exec :: "'pc \<times> 's \<Rightarrow> 'pc \<times> 's \<Rightarrow> bool" and finished :: "'pc \<Rightarrow> 'e option"
    and atomic :: "'s \<Rightarrow> 'e \<Rightarrow> 's \<Rightarrow> bool" and answers :: "'m \<Rightarrow> 'e \<Rightarrow> bool"
    and at :: "'m \<Rightarrow> 's \<Rightarrow> 'pc \<Rightarrow> 's \<Rightarrow> bool" and left :: "'pc \<Rightarrow> nat"
    and ienter :: "'n \<Rightarrow> 'qc" and iexec :: "'qc \<times> 't \<Rightarrow> 'qc \<times> 't \<Rightarrow> bool" and ifinished :: "'qc \<Rightarrow> 'f option"
    and iatomic :: "'t \<Rightarrow> 'f \<Rightarrow> 't \<Rightarrow> bool" and ianswers :: "'n \<Rightarrow> 'f \<Rightarrow> bool"
    and iat :: "'n \<Rightarrow> 't \<Rightarrow> 'qc \<Rightarrow> 't \<Rightarrow> bool" and ileft :: "'qc \<Rightarrow> nat" +
  fixes callee :: "'pc \<Rightarrow> 'n option"
    and resume :: "'f \<Rightarrow> 'pc \<times> 's \<Rightarrow> 'pc \<times> 's \<Rightarrow> bool"
  assumes resume_exec: "callee pc \<noteq> None \<Longrightarrow> resume f (pc, s) (pc', s') \<Longrightarrow> exec (pc, s) (pc', s')"
    and resume_enabled: "callee pc = Some n \<Longrightarrow> ianswers n f \<Longrightarrow> \<exists>pc' s'. resume f (pc, s) (pc', s')"
begin

abbreviation ostep where "ostep \<equiv> monitor_step enter exec finished"
abbreviation istep where "istep \<equiv> monitor_step ienter iexec ifinished"
abbreviation nstep where "nstep \<equiv> nested_step ostep istep callee resume"

text \<open>Each monitor has its invariant, and a goroutine inside both is inside the method it called.\<close>

definition nested_inv :: "'s \<Rightarrow> 't \<Rightarrow> ('m, 'e, 'n, 'f) nested_activity list
    \<Rightarrow> ('s, 'm, 'pc, 't, 'n, 'qc) nested_process \<Rightarrow> bool" where
  "nested_inv s0 t0 tr S \<longleftrightarrow>
     outer.linear s0 (outer_trace tr) (fst S) \<and> inner.linear t0 (inner_trace tr) (snd S)
     \<and> (\<forall>g G. goroutines (snd S) g = Some G \<longrightarrow>
           goroutines (fst S) g = None \<or> calling callee (fst S) g = Some (called_method G))"

lemma nested_inv_idle: "nested_inv s0 t0 [] (idle s0, idle t0)"
  using outer.linear_idle inner.linear_idle by (simp add: nested_inv_def) (simp add: idle_def)

lemma nested_step_outer: "nstep (P, Q) a (P', Q') \<Longrightarrow> run ostep P (outer_of a) P'"
  by (erule nested_step.cases) (auto simp: run_Cons intro: monitor_step.execute resume_exec)

lemma nested_step_inner: "nstep (P, Q) a (P', Q') \<Longrightarrow> run istep Q (inner_of a) Q'"
  by (erule nested_step.cases) (auto simp: run_Cons)

lemma nested_run_projects:
  assumes "run nstep S tr S'"
  shows "run ostep (fst S) (outer_trace tr) (fst S')" and "run istep (snd S) (inner_trace tr) (snd S')"
  using assms
proof (induction rule: run.induct)
  case (run_snoc S tr T a U)
  case 1
  with run_snoc nested_step_outer [of "fst T" "snd T" a "fst U" "snd U"] show ?case by (auto simp: run_append)
next
  case (run_snoc S tr T a U)
  case 2
  with run_snoc nested_step_inner [of "fst T" "snd T" a "fst U" "snd U"] show ?case by (auto simp: run_append)
qed simp_all


lemma together_outer:
  assumes "ostep P a P'" and "outer_may callee (P, Q) a"
    and "\<forall>g G. goroutines Q g = Some G \<longrightarrow> goroutines P g = None \<or> calling callee P g = Some (called_method G)"
  shows "\<forall>g G. goroutines Q g = Some G \<longrightarrow> goroutines P' g = None \<or> calling callee P' g = Some (called_method G)"
  using assms by (cases rule: monitor_step.cases) (fastforce simp: calling_def split: if_splits)+

lemma together_inner:
  assumes "istep Q a Q'" and "inner_may callee (P, Q) a"
    and "\<forall>g G. goroutines Q g = Some G \<longrightarrow> goroutines P g = None \<or> calling callee P g = Some (called_method G)"
  shows "\<forall>g G. goroutines Q' g = Some G \<longrightarrow> goroutines P g = None \<or> calling callee P g = Some (called_method G)"
  using assms by (cases rule: monitor_step.cases) (fastforce split: if_splits)+

lemma nested_inv_step:
  assumes "nested_inv s0 t0 tr S" and "nstep S a S'"
  shows "nested_inv s0 t0 (tr @ [a]) S'"
  using assms(2)
proof cases
  case (outer P b P' Q)
  with assms(1) together_outer [OF outer(4,5)] show ?thesis
    by (auto simp: nested_inv_def intro: outer.linear_step)
next
  case (inner Q b Q' P)
  with assms(1) together_inner [OF inner(4,5)] show ?thesis
    by (auto simp: nested_inv_def intro: inner.linear_step)
next
  case (resumed Q g f Q' P m pc pc' s')
  have "ostep P (Executed g) (P\<lparr>shared := s', goroutines := (goroutines P)(g \<mapsto> Inside m pc')\<rparr>)"
    using resumed(5) resume_exec [OF resumed(6,7)] by (rule monitor_step.execute)
  moreover have "goroutines Q' = (goroutines Q)(g := None)" using resumed(4) by (auto elim: AnsweredE)
  ultimately show ?thesis using assms(1) resumed
    by (auto simp: nested_inv_def calling_def intro: outer.linear_step inner.linear_step)
qed

end

sublocale nested \<subseteq> composed: safe_system nstep "(idle s0, idle t0)" "nested_inv s0 t0" for s0 t0
  by unfold_locales (auto intro: nested_inv_idle nested_inv_step)

subsection \<open>No goroutine blocks another for ever\<close>

context nested begin

definition reachable :: "'s \<Rightarrow> 't \<Rightarrow> ('s, 'm, 'pc, 't, 'n, 'qc) nested_process \<Rightarrow> bool" where
  "reachable s0 t0 S \<longleftrightarrow> (\<exists>tr. nested_inv s0 t0 tr S)"

definition leads :: "('s, 'm, 'pc, 't, 'n, 'qc) nested_process \<Rightarrow> ('s, 'm, 'pc, 't, 'n, 'qc) nested_process \<Rightarrow> bool" where
  "leads S S' \<longleftrightarrow> (\<exists>tr. run nstep S tr S')"

lemma leads_refl: "leads S S"
  unfolding leads_def by (rule exI, rule run_Nil)

lemma leads_step: "leads S T \<Longrightarrow> nstep T a U \<Longrightarrow> leads S U"
  unfolding leads_def by (fast intro: run_snoc)

lemma leads_trans [trans]: "leads S T \<Longrightarrow> leads T U \<Longrightarrow> leads S U"
  unfolding leads_def by (fast intro: run_append [THEN iffD2])

lemma reachable_leads: "reachable s0 t0 S \<Longrightarrow> leads S T \<Longrightarrow> reachable s0 t0 T"
  unfolding reachable_def leads_def by (fast dest: composed.Inv_run_from)

lemma reachable_outer:
  assumes "reachable s0 t0 (P, Q)" and "goroutines P g = Some (Inside m pc)"
  shows "holder P = Some g" and "\<exists>u. at m u pc (shared P)"
  using assms by (auto simp: reachable_def nested_inv_def dest: outer.linear_inside)

lemma reachable_inner:
  assumes "reachable s0 t0 (P, Q)" and "goroutines Q g = Some (Inside n qc)"
  shows "holder Q = Some g" and "\<exists>u. iat n u qc (shared Q)"
  using assms by (auto simp: reachable_def nested_inv_def dest: inner.linear_inside)

lemma reachable_outer_holder: "reachable s0 t0 (P, Q) \<Longrightarrow> holder P = Some h \<Longrightarrow> \<exists>m pc. goroutines P h = Some (Inside m pc)"
  unfolding reachable_def nested_inv_def outer.linear_def by auto

lemma reachable_inner_holder: "reachable s0 t0 (P, Q) \<Longrightarrow> holder Q = Some h \<Longrightarrow> \<exists>n qc. goroutines Q h = Some (Inside n qc)"
  unfolding reachable_def nested_inv_def inner.linear_def by auto

lemma reachable_together:
  "reachable s0 t0 (P, Q) \<Longrightarrow> goroutines Q g = Some G \<Longrightarrow>
     goroutines P g = None \<or> calling callee P g = Some (called_method G)"
  by (auto simp: reachable_def nested_inv_def)

lemma leads_executed: "run istep Q (replicate k (Executed h)) Q' \<Longrightarrow> leads (P, Q) (P, Q')"
proof (induction k arbitrary: Q)
  case (Suc k)
  then obtain R where R: "istep Q (Executed h) R" "run istep R (replicate k (Executed h)) Q'" by (auto simp: run_Cons)
  have "nstep (P, Q) (Inner (Executed h)) (P, R)" using R(1) by (rule nested_step.inner) simp
  with Suc.IH [OF R(2)] leads_step [OF leads_refl] leads_trans show ?case by blast
qed (simp add: leads_refl)

text \<open>The holder of the inner mutex runs to the end of the inner method.\<close>

lemma inner_runs:
  assumes "reachable s0 t0 (P, Q)" and "goroutines Q h = Some (Inside n qc)"
  shows "\<exists>Q1 Q2 f. leads (P, Q) (P, Q1) \<and> istep Q1 (Answered h f) Q2 \<and> ianswers n f
    \<and> holder Q2 = None \<and> goroutines Q2 = (goroutines Q)(h := None)"
proof -
  obtain u where "iat n u qc (shared Q)" using reachable_inner(2) [OF assms] by blast
  from inner.holder_returns [OF assms(2) this] obtain k f Q1 Q2
    where r: "run istep Q (replicate k (Executed h)) Q1" "istep Q1 (Answered h f) Q2" "holder Q2 = None"
      "goroutines Q2 = (goroutines Q)(h := None)" by (auto simp: run_snoc_iff)
  have l: "leads (P, Q) (P, Q1)" by (rule leads_executed [OF r(1)])
  obtain n' qc' where q: "goroutines Q1 h = Some (Inside n' qc')" "ifinished qc' = Some f"
    using r(2) by (rule AnsweredE)
  obtain u' where "iat n' u' qc' (shared Q1)"
    using reachable_inner(2) [OF reachable_leads [OF assms(1) l] q(1)] by blast
  then have "ianswers n' f" using inner.at_finished q(2) by blast
  moreover have "n' = n" using r(1) assms(2) q(1) by (rule executed_method)
  ultimately show ?thesis using l r by blast
qed


text \<open>It then returns: to its caller, or to the outer method it is in, which is closer to its end.\<close>

definition stays :: "goroutine_id \<Rightarrow> ('s, 'm, 'pc) process \<Rightarrow> ('s, 'm, 'pc) process \<Rightarrow> bool" where
  "stays h P P' \<longleftrightarrow>
     (\<forall>g. g \<noteq> h \<longrightarrow> goroutines P' g = goroutines P g)
     \<and> (\<forall>m. goroutines P h \<noteq> Some (Calling m))
     \<and> (goroutines P h = None \<longrightarrow> goroutines P' h = None)
     \<and> (\<forall>m pc. goroutines P h = Some (Inside m pc) \<longrightarrow>
           (\<exists>pc'. goroutines P' h = Some (Inside m pc') \<and> left pc' < left pc))"

lemma inner_answers_next:
  assumes "reachable s0 t0 (P, Q)" and "goroutines Q h = Some (Inside n qc)"
  shows "\<exists>S1 a f P' Q'. leads (P, Q) S1 \<and> nstep S1 a (P', Q') \<and> inner_of a = [Answered h f]
    \<and> holder Q' = None \<and> goroutines Q' = (goroutines Q)(h := None) \<and> stays h P P'"
proof -
  from inner_runs [OF assms] obtain Q1 Q2 f where l: "leads (P, Q) (P, Q1)" and a: "istep Q1 (Answered h f) Q2"
    and f: "ianswers n f" and q: "holder Q2 = None" "goroutines Q2 = (goroutines Q)(h := None)" by blast
  show ?thesis
  proof (cases "goroutines P h")
    case None
    with a have "nstep (P, Q1) (Inner (Answered h f)) (P, Q2)" by (intro nested_step.inner) simp_all
    moreover have "stays h P P" using None by (simp add: stays_def)
    moreover have "inner_of (Inner (Answered h f)) = [Answered h f]" by simp
    ultimately show ?thesis using l q by blast
  next
    case (Some G)
    with reachable_together [OF assms] obtain m pc where p: "goroutines P h = Some (Inside m pc)" "callee pc = Some n"
      by (auto simp: calling_iff)
    obtain pc' s' where r: "resume f (pc, shared P) (pc', s')" using resume_enabled [OF p(2) f] by blast
    let ?P = "P\<lparr>shared := s', goroutines := (goroutines P)(h \<mapsto> Inside m pc')\<rparr>"
    have "nstep (P, Q1) (Resumed h f) (?P, Q2)" using a p r by (auto intro: nested_step.resumed)
    moreover have "inner_of (Resumed h f) = [Answered h f]" by simp
    moreover have "stays h P ?P" using p(1) outer.exec_closer [OF resume_exec [OF _ r]] p(2) by (auto simp: stays_def)
    ultimately show ?thesis using l q by blast
  qed
qed

lemma inner_returns:
  assumes "reachable s0 t0 (P, Q)" and "goroutines Q h = Some (Inside n qc)"
  shows "\<exists>P' Q'. leads (P, Q) (P', Q') \<and> holder Q' = None \<and> goroutines Q' = (goroutines Q)(h := None) \<and> stays h P P'"
  using inner_answers_next [OF assms] by (blast intro: leads_step)

text \<open>What waits for the outer mutex still waits while others run.\<close>

definition waits_on :: "('s, 'm, 'pc) process \<Rightarrow> ('s, 'm, 'pc) process \<Rightarrow> bool" where
  "waits_on P P' \<longleftrightarrow> (\<forall>g m. goroutines P g = Some (Calling m) \<longrightarrow> goroutines P' g = Some (Calling m))"

lemma waits_on_refl: "waits_on P P"
  by (simp add: waits_on_def)

lemma waits_on_trans [trans]: "waits_on P P1 \<Longrightarrow> waits_on P1 P2 \<Longrightarrow> waits_on P P2"
  by (simp add: waits_on_def)


lemma stays_waits_on: "stays h P P' \<Longrightarrow> waits_on P P'"
  unfolding stays_def waits_on_def by metis

text \<open>A goroutine that waits for the inner mutex gets it.\<close>

lemma inner_enters:
  assumes "reachable s0 t0 (P, Q)" and "goroutines Q g = Some (Calling n)"
  shows "\<exists>P' Q'. leads (P, Q) (P', Q') \<and> goroutines Q' g = Some (Inside n (ienter n))
    \<and> goroutines P' g = goroutines P g \<and> waits_on P P'"
proof -
  have enter: "nstep (P1, Q1) (Inner (Locked g)) (P1, Q1\<lparr>holder := Some g, goroutines := (goroutines Q1)(g \<mapsto> Inside n (ienter n))\<rparr>)"
    if "holder Q1 = None" "goroutines Q1 g = Some (Calling n)" for P1 Q1
    using that by (auto intro!: nested_step.inner monitor_step.lock)
  show ?thesis
  proof (cases "holder Q")
    case None
    with enter [of Q P] assms(2) have "nstep (P, Q) (Inner (Locked g)) (P, Q\<lparr>holder := Some g, goroutines := (goroutines Q)(g \<mapsto> Inside n (ienter n))\<rparr>)"
      by simp
    from leads_step [OF leads_refl this] show ?thesis using waits_on_refl by fastforce
  next
    case (Some h)
    then obtain n' qc where h: "goroutines Q h = Some (Inside n' qc)" using reachable_inner_holder [OF assms(1)] by blast
    with assms(2) have "g \<noteq> h" by auto
    from inner_returns [OF assms(1) h] obtain P1 Q1 where l: "leads (P, Q) (P1, Q1)" "holder Q1 = None"
      "goroutines Q1 = (goroutines Q)(h := None)" and st: "stays h P P1" by blast
    with enter [of Q1 P1] assms(2) \<open>g \<noteq> h\<close>
    have "nstep (P1, Q1) (Inner (Locked g)) (P1, Q1\<lparr>holder := Some g, goroutines := (goroutines Q1)(g \<mapsto> Inside n (ienter n))\<rparr>)"
      by simp
    moreover have "goroutines P1 g = goroutines P g" using st \<open>g \<noteq> h\<close> by (simp add: stays_def)
    ultimately show ?thesis using leads_step [OF l(1)] stays_waits_on [OF st] by fastforce
  qed
qed

lemma call_advances:
  assumes ok: "reachable s0 t0 (P, Q)" and g: "goroutines P g = Some (Inside m pc)" and call: "callee pc = Some n"
  shows "\<exists>P' Q' pc'. leads (P, Q) (P', Q') \<and> goroutines P' g = Some (Inside m pc') \<and> left pc' < left pc \<and> waits_on P P'"
proof -
  have calling: "calling callee P g = Some n" using g call by (simp add: calling_iff)
  have "\<exists>Q1 G. leads (P, Q) (P, Q1) \<and> goroutines Q1 g = Some G \<and> called_method G = n"
  proof (cases "goroutines Q g")
    case None
    let ?Q = "Q\<lparr>goroutines := (goroutines Q)(g \<mapsto> Calling n)\<rparr>"
    have "nstep (P, Q) (Inner (Called g n)) (P, ?Q)"
      using None calling by (intro nested_step.inner monitor_step.call) simp_all
    from leads_step [OF leads_refl this] show ?thesis by fastforce
  next
    case (Some G)
    with reachable_together [OF ok Some] g calling leads_refl show ?thesis by auto
  qed
  then obtain Q1 G where Q1: "leads (P, Q) (P, Q1)" "goroutines Q1 g = Some G" "called_method G = n" by blast
  have ok1: "reachable s0 t0 (P, Q1)" using ok Q1(1) by (rule reachable_leads)
  have "\<exists>P2 Q2 qc. leads (P, Q1) (P2, Q2) \<and> goroutines Q2 g = Some (Inside n qc) \<and> goroutines P2 g = goroutines P g \<and> waits_on P P2"
  proof (cases G)
    case (Calling n')
    with inner_enters [OF ok1, of g n] Q1 show ?thesis by auto
  next
    case (Inside n' qc)
    with Q1 leads_refl waits_on_refl show ?thesis by fastforce
  qed
  then obtain P2 Q2 qc where S2: "leads (P, Q1) (P2, Q2)" "goroutines Q2 g = Some (Inside n qc)"
    "goroutines P2 g = goroutines P g" "waits_on P P2" by blast
  from inner_returns [OF reachable_leads [OF ok1 S2(1)] S2(2)] obtain P' Q'
    where S': "leads (P2, Q2) (P', Q')" "stays g P2 P'" by blast
  then obtain pc' where "goroutines P' g = Some (Inside m pc')" "left pc' < left pc"
    using S2(3) g by (auto simp: stays_def)
  with Q1(1) S2(1,4) S' show ?thesis
    by (blast intro: leads_trans waits_on_trans stays_waits_on)
qed

lemma statement_advances:
  assumes "reachable s0 t0 (P, Q)" and "goroutines P g = Some (Inside m pc)" and "finished pc = None"
  shows "\<exists>P' Q' pc'. leads (P, Q) (P', Q') \<and> goroutines P' g = Some (Inside m pc') \<and> left pc' < left pc \<and> waits_on P P'"
proof (cases "callee pc")
  case None
  obtain u where "at m u pc (shared P)" using reachable_outer(2) [OF assms(1,2)] by blast
  then obtain pc' s' where ex: "exec (pc, shared P) (pc', s')" using outer.exec_enabled assms(3) by blast
  let ?P = "P\<lparr>shared := s', goroutines := (goroutines P)(g \<mapsto> Inside m pc')\<rparr>"
  have "nstep (P, Q) (Outer (Executed g)) (?P, Q)"
    using assms(2) ex None by (auto simp: calling_def intro!: nested_step.outer monitor_step.execute)
  moreover have "waits_on P ?P" using assms(2) by (simp add: waits_on_def)
  ultimately show ?thesis using leads_step [OF leads_refl] outer.exec_closer [OF ex] by fastforce
qed (use call_advances [OF assms(1,2)] in blast)

lemma outer_runs:
  assumes "reachable s0 t0 (P, Q)" and "goroutines P g = Some (Inside m pc)"
  shows "\<exists>P' Q' P'' e. leads (P, Q) (P', Q') \<and> goroutines P' g \<noteq> None \<and> waits_on P P'
    \<and> nstep (P', Q') (Outer (Answered g e)) (P'', Q') \<and> holder P'' = None \<and> goroutines P'' = (goroutines P')(g := None)"
  using assms
proof (induction "left pc" arbitrary: P Q pc rule: less_induct)
  case less
  show ?case
  proof (cases "finished pc")
    case (Some e)
    let ?P = "P\<lparr>holder := None, goroutines := (goroutines P)(g := None)\<rparr>"
    have "nstep (P, Q) (Outer (Answered g e)) (?P, Q)"
      using less.prems(2) Some by (auto intro!: nested_step.outer monitor_step.return)
    moreover have "goroutines P g \<noteq> None" using less.prems(2) by simp
    ultimately show ?thesis using leads_refl waits_on_refl by fastforce
  next
    case None
    from statement_advances [OF less.prems None] obtain P1 Q1 pc'
      where S1: "leads (P, Q) (P1, Q1)" "goroutines P1 g = Some (Inside m pc')" "left pc' < left pc" "waits_on P P1" by blast
    from less.hyps [OF S1(3) reachable_leads [OF less.prems(1) S1(1)] S1(2)] S1(1,4)
    show ?thesis using leads_trans waits_on_trans by meson
  qed
qed


lemma outer_enters:
  assumes "reachable s0 t0 (P, Q)" and "goroutines P g = Some (Calling m)"
  shows "\<exists>P' Q' pc. leads (P, Q) (P', Q') \<and> goroutines P' g = Some (Inside m pc)"
proof -
  have enter: "nstep (P1, Q1) (Outer (Locked g)) (P1\<lparr>holder := Some g, goroutines := (goroutines P1)(g \<mapsto> Inside m (enter m))\<rparr>, Q1)"
    if "holder P1 = None" "goroutines P1 g = Some (Calling m)" for P1 Q1
    using that by (auto intro!: nested_step.outer monitor_step.lock)
  have "\<exists>P1 Q1. leads (P, Q) (P1, Q1) \<and> holder P1 = None \<and> goroutines P1 g = Some (Calling m)"
  proof (cases "holder P")
    case None
    with assms(2) leads_refl show ?thesis by blast
  next
    case (Some h)
    then obtain m' pc where h: "goroutines P h = Some (Inside m' pc)" using reachable_outer_holder [OF assms(1)] by blast
    with assms(2) have "g \<noteq> h" by auto
    from outer_runs [OF assms(1) h] obtain P1 Q1 P2 e where "leads (P, Q) (P1, Q1)" "waits_on P P1"
      "nstep (P1, Q1) (Outer (Answered h e)) (P2, Q1)" "holder P2 = None" "goroutines P2 = (goroutines P1)(h := None)" by blast
    with assms(2) \<open>g \<noteq> h\<close> leads_step show ?thesis unfolding waits_on_def by (metis fun_upd_other)
  qed
  then obtain P1 Q1 where "leads (P, Q) (P1, Q1)" "holder P1 = None" "goroutines P1 g = Some (Calling m)" by blast
  from leads_step [OF this(1) enter [OF this(2,3)]] show ?thesis by fastforce
qed

text \<open>The calls that a trace leaves open, and the runs in which they return.\<close>

lemma open_outer: "nested_inv s0 t0 tr S \<Longrightarrow> open_calls (outer_trace tr) g = map_option called_method (goroutines (fst S) g)"
  by (simp add: nested_inv_def outer.linear_def)

lemma open_inner: "nested_inv s0 t0 tr S \<Longrightarrow> open_calls (inner_trace tr) g = map_option called_method (goroutines (snd S) g)"
  by (simp add: nested_inv_def inner.linear_def)

lemma outer_call_can_return:
  assumes "run nstep (idle s0, idle t0) tr S" and "open_calls (outer_trace tr) g = Some m"
  shows "\<exists>tr' e S'. run nstep S (tr' @ [Outer (Answered g e)]) S'"
proof -
  obtain P Q where S: "S = (P, Q)" by fastforce
  have inv: "nested_inv s0 t0 tr S" by (rule composed.Inv_run [OF assms(1)])
  then have ok: "reachable s0 t0 (P, Q)" unfolding reachable_def S by blast
  have "\<exists>P1 Q1 m pc. leads (P, Q) (P1, Q1) \<and> goroutines P1 g = Some (Inside m pc)"
    using open_outer [OF inv, of g] assms(2) S outer_enters [OF ok, of g] leads_refl
    by (cases "the (goroutines P g)") (fastforce simp: eq_commute [of "Some m"])+
  then obtain P1 Q1 m' pc where S1: "leads (P, Q) (P1, Q1)" "goroutines P1 g = Some (Inside m' pc)" by blast
  from outer_runs [OF reachable_leads [OF ok S1(1)] S1(2)] obtain P2 Q2 P3 e
    where "leads (P1, Q1) (P2, Q2)" "nstep (P2, Q2) (Outer (Answered g e)) (P3, Q2)" by blast
  with leads_trans [OF S1(1)] obtain tr' where "run nstep S tr' (P2, Q2)" unfolding leads_def S by blast
  with \<open>nstep (P2, Q2) (Outer (Answered g e)) (P3, Q2)\<close> have "run nstep S (tr' @ [Outer (Answered g e)]) (P3, Q2)"
    by (auto simp: run_snoc_iff)
  then show ?thesis by blast
qed

lemma inner_call_can_return:
  assumes "run nstep (idle s0, idle t0) tr S" and "open_calls (inner_trace tr) g = Some n"
  shows "\<exists>tr' a f S'. run nstep S (tr' @ [a]) S' \<and> inner_of a = [Answered g f]"
proof -
  obtain P Q where S: "S = (P, Q)" by fastforce
  have inv: "nested_inv s0 t0 tr S" by (rule composed.Inv_run [OF assms(1)])
  then have ok: "reachable s0 t0 (P, Q)" unfolding reachable_def S by blast
  have "\<exists>P1 Q1 n qc. leads (P, Q) (P1, Q1) \<and> goroutines Q1 g = Some (Inside n qc)"
    using open_inner [OF inv, of g] assms(2) S inner_enters [OF ok, of g] leads_refl
    by (cases "the (goroutines Q g)") (fastforce simp: eq_commute [of "Some n"])+
  then obtain P1 Q1 n' qc where S1: "leads (P, Q) (P1, Q1)" "goroutines Q1 g = Some (Inside n' qc)" by blast
  from inner_answers_next [OF reachable_leads [OF ok S1(1)] S1(2)] obtain S2 S3 a f
    where S2: "leads (P1, Q1) S2" "nstep S2 a S3" "inner_of a = [Answered g f]" by blast
  then obtain tr' where "run nstep S tr' S2" using leads_trans [OF S1(1)] unfolding leads_def S by blast
  then have "run nstep S (tr' @ [a]) S3" using S2(2) by (rule run_snoc)
  with S2(3) show ?thesis by blast
qed

text \<open>The first answer on the way is the one of the open call.\<close>

lemma outer_call_returns:
  assumes run: "run nstep (idle s0, idle t0) tr S" and open_g: "open_calls (outer_trace tr) g = Some m"
  shows "\<exists>tr' e S'. run nstep S (tr' @ [Outer (Answered g e)]) S' \<and> (\<forall>e'. Outer (Answered g e') \<notin> set tr') \<and> answers m e"
proof -
  obtain tr0 e0 S0 where "run nstep S (tr0 @ [Outer (Answered g e0)]) S0"
    using outer_call_can_return [OF assms] by blast
  from run_first [OF this, of "\<lambda>a. \<exists>e. a = Outer (Answered g e)"] obtain tr' e S'
    where r: "run nstep S (tr' @ [Outer (Answered g e)]) S'" and first: "\<forall>e'. Outer (Answered g e') \<notin> set tr'" by blast
  from r obtain T where T: "run nstep S tr' T" by (auto simp: run_snoc_iff)
  have "outer.linear s0 (outer_trace tr) (fst S)" using composed.Inv_run [OF run] by (simp add: nested_inv_def)
  moreover have "\<forall>e. Answered g e \<notin> set (outer_trace tr')" using first by (auto dest: outer_answered)
  ultimately have "open_calls (outer_trace tr @ outer_trace tr') g = Some m"
    using outer.still_open [OF nested_run_projects(1) [OF T]] open_g by blast
  moreover have "run ostep (idle s0) ((outer_trace tr @ outer_trace tr') @ [Answered g e]) (fst S')"
    using nested_run_projects(1) [OF run] nested_run_projects(1) [OF r] by (auto simp: run_append)
  ultimately have "answers m e" using outer.return_answers by fastforce
  with r first show ?thesis by blast
qed

lemma inner_call_returns:
  assumes run: "run nstep (idle s0, idle t0) tr S" and open_g: "open_calls (inner_trace tr) g = Some n"
  shows "\<exists>tr' a f S'. run nstep S (tr' @ [a]) S' \<and> inner_of a = [Answered g f]
    \<and> (\<forall>b\<in>set tr'. \<forall>f'. inner_of b \<noteq> [Answered g f']) \<and> ianswers n f"
proof -
  obtain tr0 a0 f0 S0 where "run nstep S (tr0 @ [a0]) S0" "inner_of a0 = [Answered g f0]"
    using inner_call_can_return [OF assms] by blast
  from run_first [OF this(1), of "\<lambda>a. \<exists>f. inner_of a = [Answered g f]"] this(2) obtain tr' a f S'
    where r: "run nstep S (tr' @ [a]) S'" and a: "inner_of a = [Answered g f]"
      and first: "\<forall>b\<in>set tr'. \<forall>f'. inner_of b \<noteq> [Answered g f']" by blast
  from r obtain T where T: "run nstep S tr' T" by (auto simp: run_snoc_iff)
  have "inner.linear t0 (inner_trace tr) (snd S)" using composed.Inv_run [OF run] by (simp add: nested_inv_def)
  moreover have "\<forall>f. Answered g f \<notin> set (inner_trace tr')" using first by (auto dest: inner_answered)
  ultimately have "open_calls (inner_trace tr @ inner_trace tr') g = Some n"
    using inner.still_open [OF nested_run_projects(2) [OF T]] open_g by blast
  moreover have "run istep (idle t0) ((inner_trace tr @ inner_trace tr') @ [Answered g f]) (snd S')"
    using nested_run_projects(2) [OF run] nested_run_projects(2) [OF r] a by (auto simp: run_append)
  ultimately have "ianswers n f" using inner.return_answers by fastforce
  with r a first show ?thesis by blast
qed

end

end
