(* ===== verification/Stub_Process.thy ===== *)
theory Stub_Process
  imports Host_Goroutines Stub_Goroutines Nested_Monitor
begin

text \<open>
  The process of \<open>examples/hello-network-access\<close> with both its mutexes: the handlers hold \<open>p.mu\<close> and call
  \<open>sdkruntime.Host()\<close>, which takes the mutex of \<open>pluginHost\<close>; other goroutines bind the broker stream at the
  same time. What \<open>Host()\<close> returns, which \<open>Stub_Goroutines\<close> leaves to the environment, is here what the singleton of
  \<open>Host_Goroutines\<close> returns; the RPCs on the client are still the environment's.
\<close>

text \<open>The statements that call \<open>sdkruntime.Host()\<close>: in \<open>restoreLocked\<close>, and after it in \<open>Connect\<close> and \<open>Disconnect\<close>.\<close>

fun stub_callee :: "stub_stmt \<Rightarrow> host_method option" where
  "stub_callee (RestoreHost r) = Some CallHost"
| "stub_callee (HandlerBody r E) = (if r = ReqGetStatus then None else Some CallHost)"
| "stub_callee _ = None"

fun got_host :: "host_event \<Rightarrow> bool" where
  "got_host (HostCall log c) \<longleftrightarrow> c \<noteq> None"
| "got_host _ \<longleftrightarrow> False"

definition stub_continue :: "host_event \<Rightarrow> stub_stmt \<times> stub_shared \<Rightarrow> stub_stmt \<times> stub_shared" where
  "stub_continue f x = stub_next (no_answers\<lparr>ne_restore_host := got_host f, ne_host := got_host f\<rparr>) False (fst x) (snd x)"

definition stub_resume :: "host_event \<Rightarrow> stub_stmt \<times> stub_shared \<Rightarrow> stub_stmt \<times> stub_shared \<Rightarrow> bool" where
  "stub_resume f x y \<longleftrightarrow> y = stub_continue f x"

type_synonym provider_process = "(stub_shared, net_request, stub_stmt, host_state, host_method, host_stmt) nested_process"
type_synonym provider_activity = "(net_request, net_event, host_method, host_event) nested_activity"

definition provider_step :: "provider_process \<Rightarrow> provider_activity \<Rightarrow> provider_process \<Rightarrow> bool" where
  "provider_step = nested_step (monitor_step CheckRestored stub_exec stub_finished) (monitor_step host_enter host_exec host_finished)
     stub_callee stub_resume"

lemma stub_continue_exec:
  assumes "stub_callee pc \<noteq> None" and "stub_resume f (pc, t) (pc', t')"
  shows "stub_exec (pc, t) (pc', t')"
proof -
  let ?A = "no_answers\<lparr>ne_restore_host := got_host f, ne_host := got_host f\<rparr>"
  obtain p kv where t: "t = (p, kv)" by fastforce
  have "stub_exec (pc, (p, kv)) (stub_next ?A False pc (p, kv))"
    by (rule stub_exec.intros) (use assms(1) in \<open>cases pc; simp add: no_answers_def\<close>)+
  with assms(2) t show ?thesis by (simp add: stub_resume_def stub_continue_def)
qed

interpretation provider: nested CheckRestored stub_exec stub_finished net_step stub_answers stub_at stub_left
    host_enter host_exec host_finished host_step host_answers host_at host_left stub_callee stub_resume
proof
  fix pc f t pc' t'
  assume "stub_callee pc \<noteq> None" and "stub_resume f (pc, t) (pc', t')"
  then show "stub_exec (pc, t) (pc', t')" by (rule stub_continue_exec)
next
  show "\<exists>pc' t'. stub_resume f (pc, t) (pc', t')" for f pc t
    unfolding stub_resume_def by (metis prod.collapse)
qed

subsection \<open>What the singleton answers\<close>

lemma bound_calls:
  assumes "run host_step s es u" and "hs_client s = Some c" and "\<forall>e\<in>set es. host_answers CallHost e"
  shows "u = s \<and> (\<forall>e\<in>set es. e = HostCall [] (Some c))"
  using assms
proof (induction rule: run.induct)
  case (run_snoc s es t e u)
  then have t: "t = s" "\<forall>e\<in>set es. e = HostCall [] (Some c)" by auto
  from run_snoc.prems(2) obtain log r where e: "e = HostCall log r" by auto
  from run_snoc.hyps(2) t(1) obtain dial where "host dial s = (r, log, u)" unfolding e by (auto elim: HostCallE)
  with run_snoc.prems(1) have "log = []" "r = Some c" "u = s" by (auto simp: host_def dialLocked_def)
  with t e show ?case by auto
qed simp

lemma unbound_calls:
  assumes "run host_step s es u" and "hs_brokerID s = 0" and "hs_client s = None"
    and "\<forall>i log. SetBrokerID i log \<in> set es \<longrightarrow> i = 0"
  shows "hs_brokerID u = 0 \<and> hs_client u = None \<and> (\<forall>e\<in>set es. \<not> got_host e)"
  using assms
proof (induction rule: run.induct)
  case (run_snoc s es t e u)
  then have t: "hs_brokerID t = 0" "hs_client t = None" "\<forall>e\<in>set es. \<not> got_host e" by auto
  moreover have "i = 0" if "e = SetBrokerID i log" for i log using that run_snoc.prems(3) by auto
  ultimately show ?case using run_snoc.hyps(2)
    by (cases e) (auto simp: setBroker_def setBrokerID_def host_def dialLocked_def elim!: host_step_cases)
qed simp

subsection \<open>What the handlers were answered\<close>

text \<open>
  Where every \<open>Host()\<close> that returned to a handler had a client exactly if \<open>h\<close>, the statements and results of
  the handlers show it.
\<close>

definition env_asked :: "bool \<Rightarrow> net_request \<Rightarrow> net_env \<Rightarrow> bool" where
  "env_asked h r E \<longleftrightarrow> (ne_restore_host E \<longrightarrow> h) \<and> (changes_intent r \<longrightarrow> ne_host E = h)"

fun event_asked :: "bool \<Rightarrow> net_event \<Rightarrow> bool" where
  "event_asked h (Handled r E res log) \<longleftrightarrow> env_asked h r E"
| "event_asked h Restarted \<longleftrightarrow> False"

fun asked :: "bool \<Rightarrow> stub_stmt \<Rightarrow> bool" where
  "asked h (CheckRestored r) \<longleftrightarrow> True"
| "asked h (RestoreHost r) \<longleftrightarrow> True"
| "asked h (HandlerBody r E) \<longleftrightarrow> (ne_restore_host E \<longrightarrow> h) \<and> \<not> ne_host E"
| "asked h (FetchInfo E) \<longleftrightarrow> env_asked h ReqConnect E"
| "asked h (StoreInfo E i) \<longleftrightarrow> env_asked h ReqConnect E"
| "asked h (SetConnected r E) \<longleftrightarrow> env_asked h r E"
| "asked h (SetDesired r E) \<longleftrightarrow> env_asked h r E"
| "asked h (PersistIntent r E) \<longleftrightarrow> env_asked h r E"
| "asked h (AwaitWrite r E val stored) \<longleftrightarrow> env_asked h r E"
| "asked h (StatusReply r E log) \<longleftrightarrow> env_asked h r E"
| "asked h (ReportStatus r E log s) \<longleftrightarrow> env_asked h r E"
| "asked h (UnlockStub e) \<longleftrightarrow> event_asked h e"
| "asked h _ \<longleftrightarrow> h"

lemma asked_next:
  assumes "asked h pc" and "stub_callee pc = None" and "stub_next A stores pc t = (pc', t')"
  shows "asked h pc'"
proof -
  obtain p kv where t: "t = (p, kv)" by fastforce
  show ?thesis
  proof (cases pc)
    case (HandlerBody r E)
    with assms(2) have "r = ReqGetStatus" by (simp split: if_splits)
    with HandlerBody assms(1,3) t show ?thesis by (auto simp: env_asked_def changes_intent_def)
  qed (use assms t in \<open>auto simp: env_asked_def changes_intent_def read_answer_def no_answers_def Let_def split: if_splits option.splits\<close>)
qed

lemma asked_continue:
  assumes "asked (got_host f) pc" and "stub_callee pc \<noteq> None" and "stub_continue f (pc, t) = (pc', t')"
  shows "asked (got_host f) pc'"
proof -
  obtain p kv where t: "t = (p, kv)" by fastforce
  show ?thesis
    by (cases pc) (use assms t in \<open>auto simp: stub_continue_def env_asked_def changes_intent_def no_answers_def
        split: if_splits option.splits net_request.splits\<close>)
qed

definition asked_inv :: "bool \<Rightarrow> provider_activity list \<Rightarrow> provider_process \<Rightarrow> bool" where
  "asked_inv h tr S \<longleftrightarrow>
     (\<forall>g f. Resumed g f \<in> set tr \<longrightarrow> got_host f = h) \<longrightarrow>
     (\<forall>g m pc. goroutines (fst S) g = Some (Inside m pc) \<longrightarrow> asked h pc)
     \<and> (\<forall>g e. Outer (Answered g e) \<in> set tr \<longrightarrow> event_asked h e)"

lemma asked_inv_step:
  assumes "asked_inv h tr S" and "provider_step S a S'"
  shows "asked_inv h (tr @ [a]) S'"
  using assms(2) unfolding provider_step_def
proof cases
  case (outer P b P' Q)
  from outer(4) show ?thesis
  proof cases
    case (execute g m pc pc' s')
    with outer have c: "stub_callee pc = None" by (simp add: calling_def)
    from execute(4) obtain A stores where "stub_next A stores pc (shared P) = (pc', s')"
      by (auto elim: stub_exec.cases)
    then have "asked h pc \<Longrightarrow> asked h pc'" using asked_next c by blast
    with assms(1) outer(1-3) execute(1-3) show ?thesis by (auto simp: asked_inv_def)
  next
    case (return g m pc e)
    then have "pc = UnlockStub e" by (cases pc) auto
    with assms(1) outer(1-3) return(1-3) show ?thesis by (fastforce simp: asked_inv_def)
  qed (use assms(1) outer(1-3) in \<open>auto simp: asked_inv_def\<close>)
next
  case (inner Q b Q' P)
  with assms(1) show ?thesis by (auto simp: asked_inv_def)
next
  case (resumed Q g f Q' P m pc pc' s')
  then have "asked (got_host f) pc \<Longrightarrow> asked (got_host f) pc'"
    using asked_continue [of f pc "shared P" pc' s'] by (simp add: stub_resume_def)
  with assms(1) resumed(1-3,5) show ?thesis by (auto simp: asked_inv_def)
qed

interpretation asked_system: safe_system provider_step "(idle t, idle s)" "asked_inv h" for t s h
proof
  show "asked_inv h [] (idle t, idle s)" by (simp add: asked_inv_def idle_def)
next
  fix tr S a S'
  assume "asked_inv h tr S" and "provider_step S a S'"
  then show "asked_inv h (tr @ [a]) S'" by (rule asked_inv_step)
qed

subsection \<open>The two components of a run\<close>

lemma provider_projects:
  assumes "run provider_step (idle t, idle s) tr (P, Q)"
  shows "run (monitor_step CheckRestored stub_exec stub_finished) (idle t) (outer_trace tr) P"
    and "run (monitor_step host_enter host_exec host_finished) (idle s) (inner_trace tr) Q"
  using provider.nested_run_projects [OF assms [unfolded provider_step_def]] by simp_all

lemma provider_host_run:
  assumes "run provider_step (idle t, idle s) tr (P, Q)"
  shows "\<exists>u. run host_step s (returns (inner_trace tr)) u"
  using host_monitor.linearizable [OF provider_projects(2) [OF assms]] by blast

lemma host_answer_called:
  assumes "run provider_step (idle t, idle s) tr (P, Q)" and "e \<in> set (returns (inner_trace tr))"
  shows "\<exists>g m. Inner (Called g m) \<in> set tr \<and> host_answers m e"
proof -
  from assms(2) obtain g where "Answered g e \<in> set (inner_trace tr)" by (auto simp: returns_iff)
  from host_monitor.answer_of_call [OF provider_projects(2) [OF assms(1)] this] show ?thesis
    by (auto dest: inner_called)
qed

text \<open>With a bound singleton that nobody binds again, and with one that nobody binds to a stream.\<close>

lemma bound_handlers:
  assumes run: "run provider_step (idle t, idle s) tr (P, Q)" and c: "hs_client s = Some c"
    and "\<forall>g m. Inner (Called g m) \<in> set tr \<longrightarrow> m = CallHost" and "Resumed g f \<in> set tr"
  shows "got_host f"
proof -
  obtain u where u: "run host_step s (returns (inner_trace tr)) u" using provider_host_run [OF run] by blast
  have "\<forall>e\<in>set (returns (inner_trace tr)). host_answers CallHost e"
    using host_answer_called [OF run] assms(3) by blast
  moreover have "f \<in> set (returns (inner_trace tr))"
    using resumed_answered [OF assms(4)] by (auto simp: returns_iff)
  ultimately show ?thesis using bound_calls [OF u c] by auto
qed

lemma unbound_handlers:
  assumes run: "run provider_step (idle t, idle s) tr (P, Q)" and "hs_brokerID s = 0" and "hs_client s = None"
    and "\<forall>g i. Inner (Called g (CallSetBrokerID i)) \<in> set tr \<longrightarrow> i = 0" and "Resumed g f \<in> set tr"
  shows "\<not> got_host f"
proof -
  obtain u where u: "run host_step s (returns (inner_trace tr)) u" using provider_host_run [OF run] by blast
  have "i = 0" if e: "SetBrokerID i log \<in> set (returns (inner_trace tr))" for i log
  proof -
    from host_answer_called [OF run e] obtain g m where m: "Inner (Called g m) \<in> set tr" "host_answers m (SetBrokerID i log)" by blast
    from m(2) have "m = CallSetBrokerID i" by (cases m) auto
    with m(1) assms(4) show ?thesis by blast
  qed
  moreover have "f \<in> set (returns (inner_trace tr))"
    using resumed_answered [OF assms(5)] by (auto simp: returns_iff)
  ultimately show ?thesis using unbound_calls [OF u assms(2,3)] by blast
qed

text \<open>The return of a handler as a step of the specification.\<close>

lemma handler_return:
  assumes "run provider_step (idle t, idle s) (tr @ [Outer (Answered g e)]) (P, Q)"
  shows "run net_step t (returns (outer_trace tr) @ [e]) (shared P)"
proof -
  note run = provider_projects(1) [OF assms]
  then have "holder P = None" by (auto simp: run_snoc_iff elim: AnsweredE)
  with stub_monitor.linearizable [OF run] show ?thesis by auto
qed

lemma handler_events_asked:
  assumes "run provider_step (idle t, idle s) tr (P, Q)" and "\<And>g f. Resumed g f \<in> set tr \<Longrightarrow> got_host f = h"
  shows "\<forall>e\<in>set (returns (outer_trace tr)). event_asked h e"
  using asked_system.Inv_run [OF assms(1), of h] assms(2)
  by (auto simp: asked_inv_def returns_iff dest!: outer_answered)

text \<open>An acknowledged change that reached the host, and handlers that do not reach it.\<close>

lemma change_with_host:
  assumes "net_step (p, kv) (Handled r E (Inr st) log) (p', kv')" and "changes_intent r" and "ne_host E"
  shows "log = [Wrote (if r = ReqConnect then ''1'' else ''0''), if ne_report_ok E then Reported st else ReportFailed st] \<and> kv' = Some (if r = ReqConnect then ''1'' else ''0'')"
  using assms
  by (auto elim!: HandledE simp: handle_def changes_intent_def Connect_def Disconnect_def set_intent_def persistLocked_def
      reportLocked_def Let_def split: net_request.splits option.splits if_splits)

lemma handler_without_host:
  assumes "net_step (p, kv) (Handled r E res log) (p', kv')" and "env_asked False r E"
  shows "log = [] \<and> res = Inr (statusLocked p') \<and> kv' = kv
    \<and> p' = (case r of ReqConnect \<Rightarrow> p\<lparr>st_connected := True, st_desired := True\<rparr>
          | ReqDisconnect \<Rightarrow> p\<lparr>st_connected := False, st_desired := False\<rparr> | ReqGetStatus \<Rightarrow> p)"
  using assms
  by (auto elim!: HandledE simp: env_asked_def handle_def changes_intent_def Connect_def Disconnect_def GetStatus_def set_intent_def
      persistLocked_def reportLocked_def restoreLocked_def Let_def split: net_request.splits option.splits if_splits)

lemma run_without_host:
  assumes "run net_step t es u" and "\<forall>e\<in>set es. event_asked False e"
  shows "snd u = snd t \<and> (\<forall>r E res log. Handled r E res log \<in> set es \<longrightarrow> log = [] \<and> (\<exists>st. res = Inr st))"
  using assms
proof (induction rule: run.induct)
  case (run_snoc t es v e u)
  then obtain r E res log where e: "e = Handled r E res log" "env_asked False r E" by (cases e) auto
  obtain p kv p' kv' where "v = (p, kv)" "u = (p', kv')" by fastforce
  with handler_without_host [of p kv r E res log p' kv'] run_snoc e show ?case by auto
qed simp

subsection \<open>Schedules\<close>

text \<open>A schedule in which every dial has the result \<open>c\<close> and the host answers every RPC.\<close>

definition provider_schedule :: "conn option \<Rightarrow> host_info \<Rightarrow> provider_activity list \<Rightarrow> provider_process \<Rightarrow> provider_process option" where
  "provider_schedule c i = schedule (perform_nested (perform CheckRestored (willing_next i) stub_finished)
     (perform host_enter (host_next (\<lambda>_ _. c)) host_finished) stub_callee stub_continue)"

lemma willing_exec: "stub_finished pc = None \<Longrightarrow> stub_exec (pc, t) (willing_next i pc t)"
  by (cases t) (auto simp: willing_next_def intro!: stub_exec.intros)

lemma provider_schedule_run:
  assumes "provider_schedule c i tr S = Some S'"
  shows "run provider_step S tr S'"
  using assms unfolding provider_schedule_def provider_step_def
  by (rule schedule_run)
    (rule perform_nested_sound, assumption, auto simp: stub_resume_def intro: perform_sound willing_exec host_exec.intros)

lemma provider_schedule_possible:
  "\<not> Option.is_none (provider_schedule c i tr S) \<Longrightarrow> \<exists>S'. run provider_step S tr S'"
  by (auto simp: Option.is_none_def intro: provider_schedule_run)

end
