(* ===== verification/Stub_Client.thy ===== *)
theory Stub_Client
  imports Network_Stub
begin

text \<open>
  The network access stub on the RuntimeHost client it uses: the answers a handler gets about its stored
  intent (\<open>net_env\<close>) are the results of \<open>ReadInstanceState\<close> and \<open>WriteInstanceState\<close> over a host with
  state \<open>'h\<close>, in the order \<open>main.go\<close> makes the calls: one read while restoring, and one write
  of the new intent after the host info was fetched. With a host that stores what it is given, this system takes its
  steps in the abstract one of \<open>Network_Stub\<close> and inherits its invariant.
\<close>

definition desiredKey :: string where "desiredKey = ''desired_connected''"

text \<open>
  What does not depend on the stored intent: the results of \<open>Host()\<close>, \<open>GetHostInfo\<close> and
  \<open>ReportNetworkAccessStatus\<close>.
\<close>

record host_answers =
  ha_restore_host :: bool
  ha_restore_info :: "host_info option"
  ha_host :: bool
  ha_info :: "host_info option"
  ha_report_ok :: bool

definition intent_written :: "net_request \<Rightarrow> host_answers \<Rightarrow> string option" where
  "intent_written r A =
     (case r of
        ReqConnect \<Rightarrow> if ha_host A \<and> ha_info A \<noteq> None then Some ''1'' else None
      | ReqDisconnect \<Rightarrow> if ha_host A then Some ''0'' else None
      | ReqGetStatus \<Rightarrow> None)"

definition read_intent :: "'h state_host \<Rightarrow> host_answers \<Rightarrow> stub \<Rightarrow> 'h \<Rightarrow> string option option \<times> 'h" where
  "read_intent H A p h =
     (if st_restored p \<or> \<not> ha_restore_host A then (None, h)
      else case ReadInstanceState H desiredKey h of
             (Inl e, h') \<Rightarrow> (None, h')
           | (Inr val, h') \<Rightarrow> (Some val, h'))"

definition write_intent :: "'h state_host \<Rightarrow> string option \<Rightarrow> 'h \<Rightarrow> bool \<times> 'h" where
  "write_intent H val h =
     (case val of
        None \<Rightarrow> (True, h)
      | Some v \<Rightarrow>
          (case WriteInstanceState H desiredKey v h of
             (Inl e, h') \<Rightarrow> (False, h')
           | (Inr _, h') \<Rightarrow> (True, h')))"

definition client_env :: "'h state_host \<Rightarrow> net_request \<Rightarrow> host_answers \<Rightarrow> stub \<Rightarrow> 'h \<Rightarrow> net_env \<times> 'h" where
  "client_env H r A p h =
     (let (rd, h1) = read_intent H A p h;
          (ok, h2) = write_intent H (intent_written r A) h1
      in (\<lparr>ne_restore_host = ha_restore_host A, ne_read = rd, ne_restore_info = ha_restore_info A,
            ne_host = ha_host A, ne_info = ha_info A, ne_write_ok = ok, ne_report_ok = ha_report_ok A\<rparr>, h2))"

inductive client_step :: "'h state_host \<Rightarrow> stub \<times> 'h \<Rightarrow> net_event \<Rightarrow> stub \<times> 'h \<Rightarrow> bool" for H where
  client_handled: "client_env H r A p h = (E, h') \<Longrightarrow> handle r E p = (res, log, p') \<Longrightarrow>
     client_step H (p, h) (Handled r E res log) (p', h')"
| client_restarted: "client_step H (p, h) Restarted (fresh_stub, h)"

subsection \<open>The calls are within the client's limits\<close>

lemma desiredKey_valid [simp]: "validateInstanceStateKey desiredKey = None"
  by (simp add: validate_key_iff desiredKey_def)

lemma intent_written_short: "intent_written r A = Some v \<Longrightarrow> length v = 1"
  by (cases r) (auto simp: intent_written_def split: if_splits)

lemma write_intent_rpc:
  assumes "intent_written r A = Some v"
  shows "write_intent H (Some v) h = (case write_rpc H desiredKey v h of (res, h') \<Rightarrow> (\<not> isl res, h'))"
  using intent_written_short [OF assms]
  by (auto simp: write_intent_def WriteInstanceState_def split: prod.splits sum.splits)

subsection \<open>Simulation\<close>

lemma read_intent_stored:
  assumes "documented_state_host H stored" and "read_intent H A p h = (rd, h')"
  shows "stored h' = stored h \<and> (rd = None \<or> rd = Some (stored h desiredKey))"
proof (cases "st_restored p \<or> \<not> ha_restore_host A")
  case False
  obtain res h1 where r: "read_rpc H desiredKey h = (res, h1)" by (cases "read_rpc H desiredKey h")
  with assms(1) have "stored h1 = stored h"
    and "\<forall>found val. res = Inr (found, val) \<longrightarrow> stored h desiredKey = (if found then Some val else None)"
    unfolding documented_state_host_def by blast+
  with False r assms(2) show ?thesis
    by (cases res) (auto simp: read_intent_def ReadInstanceState_def)
qed (use assms in \<open>auto simp: read_intent_def\<close>)

lemma write_intent_stored:
  assumes "documented_state_host H stored" and "intent_written r A = Some v" and "write_intent H (Some v) h = (ok, h')"
  shows "stored h' = (stored h)(desiredKey \<mapsto> v) \<or> (\<not> ok \<and> stored h' = stored h)"
proof -
  obtain res h1 where w: "write_rpc H desiredKey v h = (res, h1)" by (cases "write_rpc H desiredKey v h")
  with assms(1) have "stored h1 = (stored h)(desiredKey \<mapsto> v) \<or> (stored h1 = stored h \<and> isl res)"
    unfolding documented_state_host_def by (metis isl_def)
  with w assms(3) show ?thesis by (auto simp: write_intent_rpc [OF assms(2)])
qed

text \<open>The log of a handler says which write of the intent it made.\<close>

lemma handle_log:
  assumes "handle r E p = (res, log, p')" and "ne_host E = ha_host A" and "ne_info E = ha_info A"
  shows "case intent_written r A of
      None \<Rightarrow> stored_after log kv = {kv}
    | Some v \<Rightarrow> stored_after log kv = (if ne_write_ok E then {Some v} else {kv, Some v})"
  using assms
  by (cases r) (auto simp: handle_def Connect_def Disconnect_def GetStatus_def set_intent_def persistLocked_def
      reportLocked_def intent_written_def Let_def split: if_splits option.splits)

definition intent_of :: "('h \<Rightarrow> string \<rightharpoonup> string) \<Rightarrow> stub \<times> 'h \<Rightarrow> stub \<times> string option" where
  "intent_of stored = (\<lambda>(p, h). (p, stored h desiredKey))"

lemma client_step_net:
  assumes doc: "documented_state_host H stored" and step: "client_step H s l t"
  shows "net_step (intent_of stored s) l (intent_of stored t)"
  using step
proof cases
  case (client_handled r A p h E h' res log p')
  obtain rd h1 where rd: "read_intent H A p h = (rd, h1)" by (cases "read_intent H A p h")
  obtain ok h2 where wr: "write_intent H (intent_written r A) h1 = (ok, h2)"
    by (cases "write_intent H (intent_written r A) h1")
  have E: "ne_read E = rd" "ne_write_ok E = ok" "ne_host E = ha_host A" "ne_info E = ha_info A" "h' = h2"
    using client_handled(4) by (auto simp: client_env_def rd wr)
  have "stored h1 = stored h" and read: "ne_read E = None \<or> ne_read E = Some (stored h desiredKey)"
    using read_intent_stored [OF doc rd] E(1) by auto
  moreover have "stored h' desiredKey \<in> stored_after log (stored h1 desiredKey)"
  proof (cases "intent_written r A")
    case None
    with wr E(5) have "h' = h1" by (simp add: write_intent_def)
    with handle_log [OF client_handled(5) E(3,4), of "stored h1 desiredKey"] None show ?thesis by simp
  next
    case (Some v)
    from write_intent_stored [OF doc Some wr [unfolded Some]] E(2,5)
      handle_log [OF client_handled(5) E(3,4), of "stored h1 desiredKey"] Some
    show ?thesis by auto
  qed
  ultimately have "net_step (p, stored h desiredKey) (Handled r E res log) (p', stored h' desiredKey)"
    using client_handled(5) by (intro net_handled) simp_all
  then show ?thesis by (simp add: client_handled intent_of_def)
next
  case (client_restarted p h)
  then show ?thesis by (simp add: intent_of_def net_restarted)
qed

interpretation stub_client: simulation net_step "(fresh_stub, None)" net_inv
  "client_step H" "(fresh_stub, h0)" "intent_of stored" "documented_state_host H stored \<and> stored h0 desiredKey = None"
  for H :: "'h state_host" and h0 stored
proof
  fix s l t
  assume "documented_state_host H stored \<and> stored h0 desiredKey = None" and "client_step H s l t"
  then show "net_step (intent_of stored s) l (intent_of stored t)" by (blast intro: client_step_net)
qed (simp add: intent_of_def)

end
