(* ===== verification/Http_Client.thy ===== *)
theory Http_Client
  imports Prelude Go_Json
begin

text \<open>
  \<open>pkg/pluginsdk/httpclient\<close>: the outbound JSON client. Encoding the request body, building
  the request, the transport and decoding the response into the caller's value are fields of
  \<open>transport\<close>; the error message of a failed call is parsed with the JSON parser of
  \<open>Go_Json\<close>. A response body is read through \<open>io.LimitReader\<close>, so only its first
  \<open>maxResponseBody\<close> bytes are seen.
\<close>

abbreviation maxResponseBody :: nat where "maxResponseBody \<equiv> 1048576"

definition limit_reader :: "string \<Rightarrow> string" where
  "limit_reader body = take maxResponseBody body"

record api_client =
  ac_base_url :: string
  ac_api_key :: string

definition New :: "string \<Rightarrow> string \<Rightarrow> api_client" where
  "New baseURL apiKey =
     \<lparr>ac_base_url = trim_right_char (CHR ''/'') (trim_space baseURL), ac_api_key = trim_space apiKey\<rparr>"

datatype decode_result = Decoded | DecodeEOF | DecodeBad

datatype http_error =
    BaseURLRequired | APIKeyRequired | EncodeRequest | CreateRequest | RequestFailed
  | StatusError int string string
  | DecodeResponse

record api_request =
  ar_method :: string
  ar_url :: string
  ar_headers :: "(string \<times> string) list"
  ar_body :: "string option"

record api_response =
  ap_status :: int
  ap_body :: string

record 'v transport =
  encode_body :: "'v \<Rightarrow> string option"
  url_valid :: "string \<Rightarrow> bool"
  send :: "api_request \<Rightarrow> api_response option"
  decode_body :: "string \<Rightarrow> decode_result"

definition parseMessage :: "string \<Rightarrow> string" where
  "parseMessage raw =
     (case json_parse raw of
        None \<Rightarrow> trim_space raw
      | Some v \<Rightarrow>
          (case unmarshal_string_struct ''message'' v of
             None \<Rightarrow> trim_space raw
           | Some msg \<Rightarrow> if msg \<noteq> [] then msg else trim_space raw))"

definition status_message :: "int \<Rightarrow> string \<Rightarrow> string \<Rightarrow> string" where
  "status_message code body message =
     (let msg = (if message = [] then body else message) in
      if msg = [] then ''httpclient: HTTP '' @ show_int code
      else ''httpclient: HTTP '' @ show_int code @ '': '' @ msg)"

definition build_request ::
  "'v transport \<Rightarrow> api_client \<Rightarrow> string \<Rightarrow> string \<Rightarrow> 'v option \<Rightarrow> http_error + api_request" where
  "build_request T c method path body =
     (if ac_base_url c = [] then Inl BaseURLRequired
      else if ac_api_key c = [] then Inl APIKeyRequired
      else case (case body of None \<Rightarrow> Some None | Some v \<Rightarrow> map_option Some (encode_body T v)) of
             None \<Rightarrow> Inl EncodeRequest
           | Some encoded \<Rightarrow>
               if \<not> url_valid T (ac_base_url c @ path) then Inl CreateRequest
               else Inr
                 \<lparr>ar_method = method, ar_url = ac_base_url c @ path,
                  ar_headers = [(''Accept'', ''application/json''), (''X-Api-Key'', ac_api_key c)]
                    @ (if body \<noteq> None then [(''Content-Type'', ''application/json'')] else []),
                  ar_body = encoded\<rparr>)"

definition read_response :: "'v transport \<Rightarrow> bool \<Rightarrow> api_response \<Rightarrow> http_error option" where
  "read_response T has_dest resp =
     (if ap_status resp < 200 \<or> ap_status resp \<ge> 300 then
        Some (StatusError (ap_status resp) (trim_space (limit_reader (ap_body resp)))
               (parseMessage (limit_reader (ap_body resp))))
      else if \<not> has_dest \<or> ap_status resp = 204 then None
      else case decode_body T (limit_reader (ap_body resp)) of
             DecodeBad \<Rightarrow> Some DecodeResponse
           | _ \<Rightarrow> None)"

definition DoJSON ::
  "'v transport \<Rightarrow> api_client \<Rightarrow> string \<Rightarrow> string \<Rightarrow> 'v option \<Rightarrow> bool \<Rightarrow> http_error option" where
  "DoJSON T c method path body has_dest =
     (case build_request T c method path body of
        Inl e \<Rightarrow> Some e
      | Inr req \<Rightarrow>
          (case send T req of
             None \<Rightarrow> Some RequestFailed
           | Some resp \<Rightarrow> read_response T has_dest resp))"

definition GetJSON :: "'v transport \<Rightarrow> api_client \<Rightarrow> string \<Rightarrow> bool \<Rightarrow> http_error option" where
  "GetJSON T c path has_dest = DoJSON T c ''GET'' path None has_dest"

definition PostJSON :: "'v transport \<Rightarrow> api_client \<Rightarrow> string \<Rightarrow> 'v option \<Rightarrow> bool \<Rightarrow> http_error option" where
  "PostJSON T c path body has_dest = DoJSON T c ''POST'' path body has_dest"

lemma trim_right_char_last: "trim_right_char c s = [] \<or> last (trim_right_char c s) \<noteq> c"
proof (cases "dropWhile ((=) c) (rev s)")
  case (Cons d ds)
  then have "d \<noteq> c" by (metis hd_dropWhile list.distinct(1) list.sel(1))
  with Cons show ?thesis by (simp add: trim_right_char_def)
qed (simp add: trim_right_char_def)

lemma build_request_Inr:
  "build_request T c method path body = Inr req \<Longrightarrow>
     ac_base_url c \<noteq> [] \<and> ac_api_key c \<noteq> [] \<and> ar_url req = ac_base_url c @ path \<and> ar_method req = method
     \<and> (''X-Api-Key'', ac_api_key c) \<in> set (ar_headers req)"
  by (auto simp: build_request_def split: if_splits option.splits)

end
