(* ===== verification/Host_Properties.thy ===== *)
theory Host_Properties
  imports Stub_Client Stub_Goroutines Http_Client
begin

text \<open>
  The properties of the RuntimeHost client, of the outbound HTTP client, and of the network access stub with the host's private state.
\<close>

subsection \<open>Instance state\<close>

text \<open>What breaks a limit is refused, and the host, whatever it does with the calls it gets, stays in the state it was in.\<close>

lemma write_refused:
  "key = [] \<Longrightarrow> WriteState H key val h = (Inl StateKeyRequired, h)"
  "256 < length key \<Longrightarrow> WriteState H key val h = (Inl (StateKeyTooLong (length key)), h)"
  "key \<noteq> [] \<Longrightarrow> length key \<le> 256 \<Longrightarrow> 262144 < length val \<Longrightarrow>
     WriteState H key val h = (Inl (StateValueTooLong key (length val)), h)"
  by (auto simp: WriteState_def WriteInstanceState_def validateInstanceStateKey_def)

lemma read_refused:
  "key = [] \<Longrightarrow> ReadState H key h = (Inl StateKeyRequired, h)"
  "256 < length key \<Longrightarrow> ReadState H key h = (Inl (StateKeyTooLong (length key)), h)"
  by (auto simp: ReadState_def ReadInstanceState_def validateInstanceStateKey_def)

text \<open>
  C23 (state_read_after_write): with a host that stores what it is given, a \<open>ReadState\<close> after a
  successful \<open>WriteState\<close> of the key returns the value written or the error of the RPC, never a missing key or
  another value. Only keys of 1 to 256 bytes and values of at most 256 KiB are sent: a write or read outside the limits has its own
  error, and leaves any host, also one that records every call it gets, in the state it was in.
\<close>

theorem state_read_after_write:
  assumes "documented_state_host H stored" and "WriteState H key val h = (Inr (), h1)"
    and "ReadState H key h1 = (r, h2)"
  shows "(r = Inr val \<or> (\<exists>e. r = Inl (RpcError e)))
    \<and> key \<noteq> [] \<and> length key \<le> 256 \<and> length val \<le> 262144
    \<and> WriteState H' [] v g = (Inl StateKeyRequired, g) \<and> ReadState H' [] g = (Inl StateKeyRequired, g)
    \<and> (256 < length k \<longrightarrow> WriteState H' k v g = (Inl (StateKeyTooLong (length k)), g)
         \<and> ReadState H' k g = (Inl (StateKeyTooLong (length k)), g))
    \<and> (k \<noteq> [] \<and> length k \<le> 256 \<and> 262144 < length v \<longrightarrow>
         WriteState H' k v g = (Inl (StateValueTooLong k (length v)), g))"
proof -
  have limits: "key \<noteq> []" "length key \<le> 256" "length val \<le> 262144"
    using assms(2) by (simp_all add: WriteState_def WriteInstanceState_Inr)
  have "r = Inr val \<or> (\<exists>e. r = Inl e \<and> e \<noteq> StateNotExist)"
    using instance_state.read_after_write [OF assms] .
  moreover have "\<exists>x. e = RpcError x" if "r = Inl e" "e \<noteq> StateNotExist" for e
    using assms(3) that limits validate_key_iff [of key]
    by (auto simp: ReadState_def ReadInstanceState_def split: sum.splits prod.splits if_splits)
  ultimately show ?thesis using limits by (auto simp: write_refused read_refused)
qed

text \<open>A host that records its calls: the long value and the missing key do not reach it.\<close>

definition recording_host :: "string list state_host" where
  "recording_host =
     \<lparr>read_rpc = (\<lambda>key h. (Inr (False, []), key # h)), write_rpc = (\<lambda>key val h. (Inr (), key # h))\<rparr>"

lemma state_read_after_write_witness:
  "((Inr ''v'' :: host_error + string) = Inr ''v'' \<or> (\<exists>e. (Inr ''v'' :: host_error + string) = Inl (RpcError e)))
    \<and> WriteState recording_host ''k'' (replicate 262145 CHR ''v'') [] = (Inl (StateValueTooLong ''k'' 262145), [])
    \<and> ReadState recording_host [] [] = (Inl StateKeyRequired, [])"
proof -
  have "WriteState list_host ''k'' ''v'' [] = (Inr (), [(''k'', ''v'')])"
    by (simp add: WriteState_def WriteInstanceState_Inr list_host_def)
  moreover have "ReadState list_host ''k'' [(''k'', ''v'')] = (Inr ''v'', [(''k'', ''v'')])"
    by (simp add: ReadState_def ReadInstanceState_def validateInstanceStateKey_def list_host_def)
  ultimately show ?thesis
    using state_read_after_write [OF list_host_documented, of "''k''" "''v''" "[]" "[(''k'', ''v'')]" "Inr ''v''" _
        recording_host "replicate 262145 CHR ''v''" "[]" "''k''"] by simp
qed

subsection \<open>Calls to other plugins\<close>

definition sample_codec :: codec where
  "sample_codec = \<lparr>new_struct = (\<lambda>_. Some []), marshal_any = (\<lambda>_. Some ''{}''), as_map = (\<lambda>_. [])\<rparr>"

definition sample_http :: http_request where
  "sample_http = \<lparr>hq_installation_id = 3, hq_method = [], hq_path = ''/x'', hq_headers = [], hq_body = [], hq_query = []\<rparr>"

text \<open>The conversion of an installation id to 32 bits.\<close>

lemma sint_int32_of: "sint (int32_of x) = signed_take_bit 31 (sint x)"
proof -
  have "sint (int32_of x) = signed_take_bit 31 (uint x)"
    by (simp add: int32_of_def sint_uint [of "ucast _"] unsigned_ucast_eq signed_take_bit_take_bit)
  also have "uint x = take_bit 64 (sint x)" by (simp add: uint_sint)
  finally show ?thesis by (simp add: signed_take_bit_take_bit)
qed

lemma int32_of_int_of32: "int32_of (int_of32 w) = w"
proof (rule signed_word_eqI)
  have "signed_take_bit 31 (sint w) = sint w"
    using sint_greater_eq [of w] sint_less [of w] by (intro signed_take_bit_int_eq_self) simp_all
  then show "sint (int32_of (int_of32 w)) = sint w" by (simp add: sint_int32_of sint_scast32)
qed

text \<open>
  A request that \<open>CallPluginHTTP\<close> sends has a path and a method, and for
  an installation id that fits 32 bits it is addressed to that installation.
\<close>

theorem http_installation:
  assumes "http_build C req = Inr q" and "sint (hq_installation_id req) < 2 ^ 31"
  shows "sint (phq_installation_id q) = sint (hq_installation_id req) \<and> 0 < sint (phq_installation_id q)
    \<and> phq_path q = hq_path req \<and> hq_path req \<noteq> [] \<and> phq_method q \<noteq> []"
proof -
  have pos: "0 < sint (hq_installation_id req)" and q: "phq_installation_id q = int32_of (hq_installation_id req)"
      "phq_path q = hq_path req" "hq_path req \<noteq> []" "phq_method q \<noteq> []"
    using assms(1) by (auto simp: http_build_def split: if_splits option.splits)
  have "signed_take_bit 31 (sint (hq_installation_id req)) = sint (hq_installation_id req)"
    using pos assms(2) by (intro signed_take_bit_int_eq_self) simp_all
  then show ?thesis using pos q by (simp add: sint_int32_of)
qed

definition sample_sent :: pb_http_request where
  "sample_sent = \<lparr>phq_installation_id = 3, phq_method = ''GET'', phq_path = ''/x'', phq_headers = [], phq_body = [], phq_query = None\<rparr>"

lemma http_installation_witness:
  "sint (phq_installation_id sample_sent) = sint (hq_installation_id sample_http) \<and> 0 < sint (phq_installation_id sample_sent)
    \<and> phq_path sample_sent = hq_path sample_http \<and> hq_path sample_http \<noteq> [] \<and> phq_method sample_sent \<noteq> []"
  by (rule http_installation [where C = sample_codec])
    (simp_all add: http_build_def sample_http_def sample_sent_def int32_of_def)

text \<open>
  C39 (installation_truncated): the positivity check is made before the conversion to 32 bits. Every request that is
  accepted with an installation id from \<open>2^31\<close> on is sent to an installation other than the one asked for: the id is
  taken modulo \<open>2^32\<close> into the signed range. Where what results is positive, the request is the very request for that
  other installation, whose plugin gets it and answers it.
\<close>

theorem installation_truncated:
  assumes "http_build C req = Inr q" and "2 ^ 31 \<le> sint (hq_installation_id req)"
  shows "sint (phq_installation_id q) \<noteq> sint (hq_installation_id req)
    \<and> sint (phq_installation_id q) = (sint (hq_installation_id req) + 2 ^ 31) mod 2 ^ 32 - 2 ^ 31
    \<and> CallPluginHTTP C rpc req = call rpc (Inr q) http_decode
    \<and> (0 < sint (phq_installation_id q) \<longrightarrow>
        http_build C (req\<lparr>hq_installation_id := int_of32 (phq_installation_id q)\<rparr>) = Inr q
        \<and> CallPluginHTTP C rpc (req\<lparr>hq_installation_id := int_of32 (phq_installation_id q)\<rparr>) = CallPluginHTTP C rpc req)"
proof -
  have q: "phq_installation_id q = int32_of (hq_installation_id req)"
    using assms(1) by (auto simp: http_build_def split: if_splits option.splits)
  have "sint (phq_installation_id q) < 2 ^ 31" using sint_lt [of "phq_installation_id q"] by simp
  moreover have "sint (phq_installation_id q) = (sint (hq_installation_id req) + 2 ^ 31) mod 2 ^ 32 - 2 ^ 31"
    by (simp add: q sint_int32_of signed_take_bit_eq_take_bit_shift take_bit_eq_mod)
  moreover have "http_build C (req\<lparr>hq_installation_id := int_of32 (phq_installation_id q)\<rparr>) = Inr q"
    if "0 < sint (phq_installation_id q)"
    using that assms(1) q by (auto simp: http_build_def sint_scast32 int32_of_int_of32 split: if_splits option.splits)
  ultimately show ?thesis using assms by (simp add: CallPluginHTTP_def)
qed

text \<open>Installation \<open>2^32 + 1\<close> is sent as installation 1, and \<open>2^31\<close> as a negative id.\<close>

lemma installation_truncated_witness:
  "http_build sample_codec (sample_http\<lparr>hq_installation_id := 1\<rparr>)
     = http_build sample_codec (sample_http\<lparr>hq_installation_id := 4294967297\<rparr>)
   \<and> (\<exists>q. http_build sample_codec (sample_http\<lparr>hq_installation_id := 2147483648\<rparr>) = Inr q
        \<and> sint (phq_installation_id q) = - 2147483648)"
proof -
  let ?b = "\<lambda>i. sample_http\<lparr>hq_installation_id := i\<rparr>"
  obtain q where q: "http_build sample_codec (?b 4294967297) = Inr q" "phq_installation_id q = 1"
    by (simp add: http_build_def sample_http_def int32_of_def)
  obtain q' where q': "http_build sample_codec (?b 2147483648) = Inr q'"
    by (simp add: http_build_def sample_http_def)
  show ?thesis
    using installation_truncated [OF q(1)] q installation_truncated [OF q'] q' by (simp add: int_of32_def sample_http_def)
qed

definition sample_json :: json_request where
  "sample_json = \<lparr>jq_installation_id = 3, jq_method = [], jq_path = ''/x'', jq_headers = [], jq_query = [],
     jq_request = Some AnyNil, jq_wants_response = True, jq_max_response_bytes = 10\<rparr>"

text \<open>
  C30 (json_call_bounded): \<open>CallPluginJSON\<close> succeeds only if the plugin answered with a status below 400
  and a body within the limit, and what it decodes is that body; the request carried the JSON headers and, if a
  body was given without a method, it was a POST.
\<close>

theorem json_call_bounded:
  assumes "CallPluginJSON C rpc decodes req = Inr out"
  shows "\<exists>q p. rpc q = Inr p \<and> sint (php_status_code p) < 400 \<and> int (length (php_body p)) \<le> response_limit req
    \<and> out = (if jq_wants_response req \<and> php_body p \<noteq> [] then Some (php_body p) else None)
    \<and> map_of (phq_headers q) ''Accept'' = Some ''application/json''
    \<and> phq_method q = (if jq_method req \<noteq> [] then jq_method req else if jq_request req \<noteq> None then ''POST'' else ''GET'')"
proof -
  from assms obtain hq where hq: "json_http_request C req = Inr hq"
    by (auto simp: CallPluginJSON_def split: sum.splits)
  from assms hq obtain resp where resp: "CallPluginHTTP C rpc hq = Inr resp" "json_response req decodes resp = Inr out"
    by (auto simp: CallPluginJSON_def split: sum.splits)
  then obtain q p where q: "http_build C hq = Inr q" "rpc q = Inr p" "resp = http_decode p"
    by (auto simp: CallPluginHTTP_def call_Inr)
  have m: "hq_method hq = (if jq_method req \<noteq> [] then jq_method req else if jq_request req \<noteq> None then ''POST'' else ''GET'')"
    and a: "map_of (hq_headers hq) ''Accept'' = Some ''application/json''"
    using hq by (auto simp: json_http_request_def Let_def split: option.splits)
  have "phq_method q = hq_method hq" and "phq_headers q = hq_headers hq"
    using q(1) m by (auto simp: http_build_def split: if_splits option.splits)
  moreover have "sint (php_status_code p) < 400 \<and> int (length (php_body p)) \<le> response_limit req
      \<and> out = (if jq_wants_response req \<and> php_body p \<noteq> [] then Some (php_body p) else None)"
    using resp(2) q(3) by (auto simp: json_response_Inr http_decode_def sint_scast32 split: if_splits)
  ultimately show ?thesis using q(2) m a by metis
qed

definition sample_rpc :: "(pb_http_request, pb_http_response) rpc" where
  "sample_rpc q = Inr \<lparr>php_status_code = 200, php_headers = [], php_body = ''[]''\<rparr>"

lemma json_call_bounded_witness:
  "\<exists>q p. sample_rpc q = Inr p
    \<and> sint (php_status_code p) < 400 \<and> int (length (php_body p)) \<le> response_limit sample_json
    \<and> Some ''[]'' = (if jq_wants_response sample_json \<and> php_body p \<noteq> [] then Some (php_body p) else None)
    \<and> map_of (phq_headers q) ''Accept'' = Some ''application/json''
    \<and> phq_method q = (if jq_method sample_json \<noteq> [] then jq_method sample_json
         else if jq_request sample_json \<noteq> None then ''POST'' else ''GET'')"
  by (rule json_call_bounded [where C = sample_codec and decodes = "\<lambda>_. True"])
    (simp add: CallPluginJSON_def json_http_request_def sample_json_def sample_codec_def CallPluginHTTP_def call_def
      http_build_def http_decode_def json_response_def int_of32_def Let_def sample_rpc_def)

subsection \<open>Discovery and the catalog\<close>

text \<open>
  Discovery by capability returns, in the order the host listed them, exactly
  the non-nil plugins that advertise a capability of the type.
\<close>

theorem plugins_by_capability:
  assumes "rpc () = Inr ps" and "t \<noteq> []"
  shows "ListInstalledPluginsByCapability rpc t =
    Inr (filter (\<lambda>p. \<exists>q c. p = Some q \<and> Some c \<in> set (ip_capabilities q) \<and> cd_type c = t) ps)"
proof -
  have "HasCapability p t = (\<exists>q c. p = Some q \<and> Some c \<in> set (ip_capabilities q) \<and> cd_type c = t)" for p
    using assms(2) by (auto simp: HasCapability_iff)
  then show ?thesis
    using assms(1) by (simp add: ListInstalledPluginsByCapability_def ListInstalledPlugins_def call_def select_plugins_filter)
qed

definition sample_plugin :: "string \<Rightarrow> installed_plugin" where
  "sample_plugin t = \<lparr>ip_installation_id = 3, ip_plugin_id = t, ip_version = ''1.0'', ip_enabled = True,
     ip_capabilities = [None, Some (zero_capability\<lparr>cd_type := t\<rparr>)]\<rparr>"

lemma plugins_by_capability_witness:
  "ListInstalledPluginsByCapability (\<lambda>_. Inr [Some (sample_plugin ''task''), None, Some (sample_plugin ''scan'')]) ''scan'' =
    Inr [Some (sample_plugin ''scan'')]"
  using plugins_by_capability
    [of "\<lambda>_. Inr [Some (sample_plugin ''task''), None, Some (sample_plugin ''scan'')]" _ "''scan''", OF refl]
  by (simp add: sample_plugin_def)

lemma presence_map_snoc: "presence_map (ps @ [p]) = (presence_map ps)(getter mp_external_id [] p \<mapsto> (case p of None \<Rightarrow> zero_presence | Some q \<Rightarrow> q))"
  by (cases p) (simp_all add: presence_map_def Let_def zero_presence_def)

text \<open>
  The map \<open>CheckMediaPresence\<close> builds from the host's matches has a
  key exactly for each external id among them, and what it holds under a key is a match with that id.
\<close>

theorem media_presence_keys:
  assumes "CheckMediaPresence rpc provider mediaType ids = Inr out" and "ids \<noteq> []"
    and "rpc (provider, mediaType, ids) = Inr ps"
  shows "dom out = getter mp_external_id [] ` set ps \<and> (\<forall>k v. out k = Some v \<longrightarrow> mp_external_id v = k)"
proof -
  have "out = presence_map ps" using assms by (simp add: CheckMediaPresence_def call_def)
  moreover have "dom (presence_map ps) = getter mp_external_id [] ` set ps
      \<and> (\<forall>k v. presence_map ps k = Some v \<longrightarrow> mp_external_id v = k)" for ps
  proof (induction ps rule: rev_induct)
    case Nil
    then show ?case by (simp add: presence_map_def)
  next
    case (snoc p ps)
    then have "dom (presence_map (ps @ [p])) = getter mp_external_id [] ` set (ps @ [p])"
      by (simp add: presence_map_snoc)
    moreover have "\<forall>k v. presence_map (ps @ [p]) k = Some v \<longrightarrow> mp_external_id v = k"
      using snoc by (cases p) (auto simp: presence_map_snoc zero_presence_def)
    ultimately show ?case ..
  qed
  ultimately show ?thesis by simp
qed

definition sample_presence :: media_presence where
  "sample_presence = zero_presence\<lparr>mp_external_id := ''7''\<rparr>"

lemma media_presence_keys_witness:
  "dom [''7'' \<mapsto> sample_presence] = {''7''} \<and> mp_external_id sample_presence = ''7''"
proof -
  have "CheckMediaPresence (\<lambda>_. Inr [Some sample_presence]) ''tmdb'' ''movie'' [''7''] = Inr [''7'' \<mapsto> sample_presence]"
    by (simp add: CheckMediaPresence_def call_def presence_map_def sample_presence_def)
  then have "dom [''7'' \<mapsto> sample_presence] = getter mp_external_id [] ` set [Some sample_presence]
      \<and> (\<forall>k v. [''7'' \<mapsto> sample_presence] k = Some v \<longrightarrow> mp_external_id v = k)"
    by (rule media_presence_keys) simp_all
  then show ?thesis by (simp add: sample_presence_def)
qed

subsection \<open>The network access stub\<close>

text \<open>
  C7 (intent_survives_kill): whatever \<open>Connect\<close>, \<open>Disconnect\<close> and \<open>GetStatus\<close> calls ran before in any
  interleaving, with whatever failures, and wherever the process was killed, the first call that returns after a kill, if it
  is a status call that can read the host's state, reports the last change that was acknowledged (not connected if there was
  none). The proviso is that the handler of that change had a host, as one without a host acknowledges without persisting, and
  that no later change was acknowledged without a host, failed to be written, or was cut off after its write was sent. The
  status is one the host client agrees to report.
\<close>

theorem intent_survives_kill:
  assumes "run stub_life_step (idle (fresh_stub, None))
      (tr @ Killed pc # tr' @ [Act (Answered g (Handled ReqGetStatus E (Inr s) log))]) P"
    and "history stub_aborted tr' = []" and "foldl life_acknowledged (Some False) (tr @ [Killed pc]) = Some b"
    and "ne_restore_host E" and "ne_read E \<noteq> None"
  shows "ns_desired_connected s = b
    \<and> ns_state s = (if b then NetworkAccessStateConnected else NetworkAccessStateDisconnected)
    \<and> (snd (shared P) = Some ''1'' \<longleftrightarrow> b)
    \<and> ReportNetworkAccessStatus (\<lambda>_. Inr ()) (Some s) = Inr ()"
proof -
  have "foldl acknowledged (Some False) (history stub_aborted tr @ cut_call pc) = Some b"
    using assms(3) [folded life_acknowledged_history] by (simp add: stub_aborted_def)
  with acknowledged_reports [of "history stub_aborted tr @ cut_call pc" E s log "fst (shared P)" "snd (shared P)" b]
    first_return_after_kill [OF assms(1,2)] assms(4,5)
  show ?thesis
    by (simp add: ReportNetworkAccessStatus_def call_def NetworkAccessStateConnected_def NetworkAccessStateDisconnected_def)
qed

definition plain_info :: host_info where
  "plain_info = \<lparr>hi_public_base_url = [], hi_internal_base_url = [], hi_plugin_proxy_base_url = [], hi_host_role = [],
     hi_host_name = [], hi_node_id = 0, hi_ingress_token = [], hi_listeners = []\<rparr>"

definition linked_stub :: stub where
  "linked_stub = \<lparr>st_connected = True, st_desired = True, st_restored = True, st_host_info = Some plain_info\<rparr>"

definition connect_answers :: net_env where
  "connect_answers = \<lparr>ne_restore_host = True, ne_read = Some None, ne_restore_info = None, ne_host = True,
     ne_info = Some plain_info, ne_write_ok = True, ne_report_ok = True\<rparr>"

definition status_answers :: net_env where
  "status_answers = \<lparr>ne_restore_host = True, ne_read = Some (Some ''1''), ne_restore_info = Some plain_info, ne_host = False,
     ne_info = None, ne_write_ok = False, ne_report_ok = False\<rparr>"

text \<open>
  Goroutine 1 connects. The process is killed when goroutine 2, inside \<open>Disconnect\<close>, has cleared the intent
  in memory but not yet persisted it, and goroutine 3 waits for the mutex. Goroutine 4 of the next process asks
  for the status.
\<close>

definition killed_schedule :: "stub_life list" where
  "killed_schedule =
     [Act (Called 1 ReqConnect), Act (Called 2 ReqDisconnect), Act (Locked 1)] @ replicate 13 (Act (Executed 1))
     @ [Act (Answered 1 (Handled ReqConnect connect_answers (Inr (statusLocked linked_stub))
              [Wrote ''1'', Reported (statusLocked linked_stub)])),
        Act (Locked 2), Act (Executed 2), Act (Called 3 ReqGetStatus), Act (Executed 2), Act (Executed 2), Act (Executed 2)]"

definition cut_statement :: stub_stmt where
  "cut_statement = PersistIntent ReqDisconnect \<lparr>ne_restore_host = False, ne_read = None, ne_restore_info = None,
     ne_host = True, ne_info = None, ne_write_ok = False, ne_report_ok = False\<rparr>"

definition next_process :: "stub_life list" where
  "next_process = [Act (Called 4 ReqGetStatus), Act (Locked 4)] @ replicate 9 (Act (Executed 4))"

definition status_return :: stub_life where
  "status_return = Act (Answered 4 (Handled ReqGetStatus status_answers (Inr (statusLocked linked_stub)) []))"

lemma killed_schedule_connected:
  "stub_schedule plain_info killed_schedule (idle (fresh_stub, None)) =
     Some \<lparr>shared = (linked_stub\<lparr>st_connected := False, st_desired := False\<rparr>, Some ''1''), holder = Some 2,
       goroutines = [3 \<mapsto> Calling ReqGetStatus, 2 \<mapsto> Inside ReqDisconnect cut_statement]\<rparr>"
  by (simp add: stub_schedule_def killed_schedule_def numeral_eq_Suc willing_next_def idle_def fresh_stub_def no_answers_def
      read_answer_def reportLocked_def linked_stub_def connect_answers_def cut_statement_def Let_def)

lemma next_process_reports:
  "\<exists>Q. stub_schedule plain_info (Killed (Some cut_statement) # next_process @ [status_return])
     \<lparr>shared = (linked_stub\<lparr>st_connected := False, st_desired := False\<rparr>, Some ''1''), holder = Some 2,
       goroutines = [3 \<mapsto> Calling ReqGetStatus, 2 \<mapsto> Inside ReqDisconnect cut_statement]\<rparr> = Some Q"
  by (simp add: stub_schedule_def next_process_def status_return_def numeral_eq_Suc willing_next_def idle_def fresh_stub_def
      no_answers_def read_answer_def linked_stub_def status_answers_def running_def stub_reset_def)

lemma intent_survives_kill_witness:
  "ns_desired_connected (statusLocked linked_stub) = True
    \<and> ns_state (statusLocked linked_stub) = (if True then NetworkAccessStateConnected else NetworkAccessStateDisconnected)"
proof -
  obtain Q where "run stub_life_step (idle (fresh_stub, None))
      (killed_schedule @ Killed (Some cut_statement) # next_process @ [status_return]) Q"
    using stub_schedule_run [OF killed_schedule_connected] next_process_reports stub_schedule_run
    unfolding run_append by blast
  note run = this [unfolded status_return_def]
  have "history stub_aborted next_process = []" by (simp add: next_process_def numeral_eq_Suc)
  moreover have "foldl life_acknowledged (Some False) (killed_schedule @ [Killed (Some cut_statement)]) = Some True"
    by (simp add: killed_schedule_def cut_statement_def changes_intent_def connect_answers_def numeral_eq_Suc)
  ultimately show ?thesis
    using intent_survives_kill [OF run, of True] by (simp add: status_answers_def)
qed

text \<open>
  The same without goroutines: whatever connects, disconnects, failures and restarts came before, a
  restarted process whose first status call can read the host's state reports the last change that was
  acknowledged, if its handler had a host and no later change was acknowledged without one or failed to be written; and the status is
  one the host client agrees to report.
\<close>

theorem network_intent_survives:
  assumes "run net_step (fresh_stub, None) (tr @ [Restarted, Handled ReqGetStatus E (Inr s) log]) u"
    and "foldl acknowledged (Some False) tr = Some b" and "ne_restore_host E" and "ne_read E \<noteq> None"
  shows "ns_desired_connected s = b
    \<and> ns_state s = (if b then NetworkAccessStateConnected else NetworkAccessStateDisconnected)
    \<and> ReportNetworkAccessStatus (\<lambda>_. Inr ()) (Some s) = Inr ()"
  using acknowledged_reports [OF _ assms(2-4)] assms(1)
  by (cases u) (auto simp: ReportNetworkAccessStatus_def call_def
      NetworkAccessStateConnected_def NetworkAccessStateDisconnected_def)

definition sample_env :: "string option \<Rightarrow> net_env" where
  "sample_env kv = \<lparr>ne_restore_host = True, ne_read = Some kv, ne_restore_info = None, ne_host = True,
     ne_info = Some \<lparr>hi_public_base_url = [], hi_internal_base_url = [], hi_plugin_proxy_base_url = [], hi_host_role = [],
       hi_host_name = [], hi_node_id = 0, hi_ingress_token = [], hi_listeners = []\<rparr>, ne_write_ok = True, ne_report_ok = True\<rparr>"

definition connected_event :: net_event where
  "connected_event = (let (res, log, p) = Connect (sample_env None) fresh_stub in Handled ReqConnect (sample_env None) res log)"

lemma network_intent_survives_witness:
  "ns_desired_connected (statusLocked (restoreLocked (sample_env (Some ''1'')) fresh_stub)) = True
    \<and> ns_state (statusLocked (restoreLocked (sample_env (Some ''1'')) fresh_stub))
        = (if True then NetworkAccessStateConnected else NetworkAccessStateDisconnected)
    \<and> ReportNetworkAccessStatus (\<lambda>_. Inr ()) (Some (statusLocked (restoreLocked (sample_env (Some ''1'')) fresh_stub))) = Inr ()"
proof (rule network_intent_survives)
  obtain res log p where c: "Connect (sample_env None) fresh_stub = (res, log, p)"
    by (cases "Connect (sample_env None) fresh_stub")
  then have log: "log = [Wrote ''1'', Reported (statusLocked p)]" and ev: "connected_event = Handled ReqConnect (sample_env None) res log"
    by (auto simp: Connect_def sample_env_def set_intent_def persistLocked_def reportLocked_def Let_def connected_event_def)
  let ?g = "Handled ReqGetStatus (sample_env (Some ''1'')) (Inr (statusLocked (restoreLocked (sample_env (Some ''1'')) fresh_stub))) []"
  have "net_step (fresh_stub, None) connected_event (p, Some ''1'')"
    unfolding ev by (rule net_handled) (use c log in \<open>simp_all add: handle_def, simp add: sample_env_def\<close>)
  moreover have "net_step (p, Some ''1'') Restarted (fresh_stub, Some ''1'')" by (rule net_restarted)
  moreover have "net_step (fresh_stub, Some ''1'') ?g (restoreLocked (sample_env (Some ''1'')) fresh_stub, Some ''1'')"
    by (rule net_handled) (simp_all add: handle_def GetStatus_def Let_def, simp add: sample_env_def)
  ultimately show "run net_step (fresh_stub, None) ([connected_event] @ [Restarted, ?g])
      (restoreLocked (sample_env (Some ''1'')) fresh_stub, Some ''1'')"
    unfolding append.simps run_Cons run_Nil_iff by blast
  show "foldl acknowledged (Some False) [connected_event] = Some True"
    using c by (auto simp: ev changes_intent_def Connect_def sample_env_def set_intent_def persistLocked_def Let_def)
qed (simp_all add: sample_env_def)

text \<open>
  C18 (stub_over_client): the same holds of the stub on the SDK's own instance state client, over any host that
  stores what it is given: a restarted process whose first status call can read reports the last acknowledged
  change, and the host holds that intent, provided the handler of the change had a host and no later change was acknowledged without one
  or failed to be written.
\<close>

theorem stub_over_client:
  assumes "documented_state_host H stored" and "stored h0 desiredKey = None"
    and "run (client_step H) (fresh_stub, h0) (tr @ [Restarted, Handled ReqGetStatus E (Inr s) log]) (p, h)"
    and "foldl acknowledged (Some False) tr = Some b" and "ne_restore_host E" and "ne_read E \<noteq> None"
  shows "ns_desired_connected s = b
    \<and> ns_state s = (if b then NetworkAccessStateConnected else NetworkAccessStateDisconnected)
    \<and> (stored h desiredKey = Some ''1'' \<longleftrightarrow> b)"
proof -
  have "run net_step (fresh_stub, None) (tr @ [Restarted, Handled ReqGetStatus E (Inr s) log]) (p, stored h desiredKey)"
    using stub_client.run_abs_init [OF assms(3), of stored] assms(1,2) by (simp add: intent_of_def)
  with acknowledged_reports [OF this assms(4-6)] show ?thesis by blast
qed

definition all_answers :: host_answers where
  "all_answers = \<lparr>ha_restore_host = True, ha_restore_info = None, ha_host = True,
     ha_info = Some \<lparr>hi_public_base_url = [], hi_internal_base_url = [], hi_plugin_proxy_base_url = [], hi_host_role = [],
       hi_host_name = [], hi_node_id = 0, hi_ingress_token = [], hi_listeners = []\<rparr>,
     ha_report_ok = True\<rparr>"

lemma stub_over_client_witness:
  "\<exists>s h. fst (handle ReqGetStatus (fst (client_env list_host ReqGetStatus all_answers fresh_stub [(desiredKey, ''1'')])) fresh_stub) = Inr s
    \<and> ns_desired_connected s \<and> ns_state s = NetworkAccessStateConnected \<and> map_of [(desiredKey, ''1'')] desiredKey = Some ''1''"
proof -
  let ?E = "fst (client_env list_host ReqConnect all_answers fresh_stub [])"
  let ?h = "[(desiredKey, ''1'')]"
  let ?G = "fst (client_env list_host ReqGetStatus all_answers fresh_stub ?h)"
  obtain res log p where c: "handle ReqConnect ?E fresh_stub = (res, log, p)" by (cases "handle ReqConnect ?E fresh_stub")
  have E: "client_env list_host ReqConnect all_answers fresh_stub [] = (?E, ?h)" "ne_write_ok ?E" "ne_host ?E" "ne_info ?E \<noteq> None"
    by (simp_all add: client_env_def read_intent_def write_intent_def intent_written_def all_answers_def list_host_def
        fresh_stub_def ReadInstanceState_def WriteInstanceState_def)
  have G: "client_env list_host ReqGetStatus all_answers fresh_stub ?h = (?G, ?h)" "ne_read ?G \<noteq> None" "ne_restore_host ?G"
    by (simp_all add: client_env_def read_intent_def write_intent_def intent_written_def all_answers_def list_host_def
        fresh_stub_def ReadInstanceState_def)
  obtain s p' where g: "handle ReqGetStatus ?G fresh_stub = (Inr s, [], p')"
    by (simp add: handle_def GetStatus_def Let_def)
  have "client_step list_host (fresh_stub, []) (Handled ReqConnect ?E res log) (p, ?h)"
    by (rule client_handled [OF E(1) c])
  moreover have "client_step list_host (fresh_stub, ?h) (Handled ReqGetStatus ?G (Inr s) []) (p', ?h)"
    by (rule client_handled [OF G(1) g])
  ultimately have run: "run (client_step list_host) (fresh_stub, [])
      ([Handled ReqConnect ?E res log] @ [Restarted, Handled ReqGetStatus ?G (Inr s) []]) (p', ?h)"
    unfolding append.simps run_Cons run_Nil_iff by (blast intro: client_restarted)
  have "foldl acknowledged (Some False) [Handled ReqConnect ?E res log] = Some True"
    using c E(2-4) by (auto simp: changes_intent_def handle_def Connect_def set_intent_def persistLocked_def reportLocked_def Let_def)
  from stub_over_client [OF list_host_documented _ run this G(3,2)] g show ?thesis by simp
qed

text \<open>
  C37 (failed_connect_visible): a \<open>Connect\<close> whose persisting fails returns the error but leaves the stub
  connected: whatever the host answers later, the next \<open>GetStatus\<close> of the process reports a wanted, established
  connection.
\<close>

theorem failed_connect_visible:
  assumes "Connect E p = (Inl PersistFailed, log, p')"
  shows "\<exists>s. fst (GetStatus E' p') = Inr s \<and> ns_state s = NetworkAccessStateConnected \<and> ns_desired_connected s
    \<and> log = [WriteFailed ''1'']"
proof -
  have "st_connected p' \<and> st_desired p' \<and> log = [WriteFailed ''1'']"
    using assms by (auto simp: Connect_def set_intent_def persistLocked_def Let_def split: if_splits option.splits)
  then show ?thesis
    by (auto simp: GetStatus_def Let_def statusLocked_fields restoreLocked_def split: option.split)
qed

definition failing_env :: net_env where
  "failing_env = (sample_env None)\<lparr>ne_write_ok := False\<rparr>"

definition offline_env :: net_env where
  "offline_env = (sample_env None)\<lparr>ne_restore_host := False, ne_host := False\<rparr>"

lemma failed_connect_visible_witness:
  "\<exists>p' s. fst (Connect failing_env fresh_stub) = Inl PersistFailed \<and> p' = snd (snd (Connect failing_env fresh_stub))
    \<and> fst (GetStatus offline_env p') = Inr s \<and> ns_state s = NetworkAccessStateConnected"
proof -
  have "fst (Connect failing_env fresh_stub) = Inl PersistFailed"
    by (simp add: Connect_def failing_env_def sample_env_def set_intent_def persistLocked_def Let_def)
  then obtain log p' where c: "Connect failing_env fresh_stub = (Inl PersistFailed, log, p')"
    by (cases "Connect failing_env fresh_stub") auto
  from failed_connect_visible [OF this, of offline_env] c show ?thesis by auto
qed

text \<open>
  C38 (disconnect_undone): a \<open>Disconnect\<close> that is called before the host is bound is acknowledged without
  being persisted; once the host is bound, the next \<open>GetStatus\<close> of the same process restores the stored intent and
  reports the connection again.
\<close>

theorem disconnect_undone:
  assumes "\<not> st_restored p" and "\<not> ne_restore_host E" and "\<not> ne_host E" and "Disconnect E p = (r, log, p')"
    and "ne_restore_host E'" and "ne_read E' = Some (Some ''1'')"
  shows "\<exists>s s'. r = Inr s \<and> ns_state s = NetworkAccessStateDisconnected \<and> log = []
    \<and> fst (GetStatus E' p') = Inr s' \<and> ns_state s' = NetworkAccessStateConnected \<and> ns_desired_connected s'"
proof -
  have "restoreLocked E p = p" using assms(1,2) by (simp add: restoreLocked_def)
  then obtain s where s: "r = Inr s" "s = statusLocked p'" "log = []" "\<not> st_connected p'" "\<not> st_restored p'"
    using assms(1,3,4) by (auto simp: Disconnect_def set_intent_def persistLocked_def reportLocked_def Let_def)
  then show ?thesis
    using assms(5,6) by (simp add: GetStatus_def Let_def statusLocked_fields restoreLocked_def split: option.split)
qed

lemma disconnect_undone_witness:
  "\<exists>s. fst (GetStatus (sample_env (Some ''1'')) (snd (snd (Disconnect offline_env fresh_stub)))) = Inr s
    \<and> ns_state s = NetworkAccessStateConnected"
proof -
  obtain r log p' where d: "Disconnect offline_env fresh_stub = (r, log, p')"
    by (cases "Disconnect offline_env fresh_stub")
  have "\<exists>s s'. r = Inr s \<and> ns_state s = NetworkAccessStateDisconnected \<and> log = []
      \<and> fst (GetStatus (sample_env (Some ''1'')) p') = Inr s' \<and> ns_state s' = NetworkAccessStateConnected \<and> ns_desired_connected s'"
    by (rule disconnect_undone [OF _ _ _ d]) (simp_all add: fresh_stub_def offline_env_def sample_env_def)
  with d show ?thesis by auto
qed

subsection \<open>The outbound HTTP client\<close>

text \<open>
  C28 (do_json_results): \<open>DoJSON\<close> succeeds exactly when the request could be built and sent, the status
  is 2xx, and the body was not wanted, is absent (204), empty or decodes; and it returns a
  \<open>StatusError\<close> exactly for a status outside 2xx, with the trimmed body and the message of the body.
\<close>

theorem do_json_results:
  "(DoJSON T c method path body has_dest = None \<longleftrightarrow>
     (\<exists>req resp. build_request T c method path body = Inr req \<and> send T req = Some resp
        \<and> 200 \<le> ap_status resp \<and> ap_status resp < 300
        \<and> (has_dest = False \<or> ap_status resp = 204 \<or> decode_body T (limit_reader (ap_body resp)) \<in> {Decoded, DecodeEOF})))
   \<and> (DoJSON T c method path body has_dest = Some (StatusError code text msg) \<longleftrightarrow>
     (\<exists>req resp. build_request T c method path body = Inr req \<and> send T req = Some resp
        \<and> (ap_status resp < 200 \<or> 300 \<le> ap_status resp)
        \<and> code = ap_status resp \<and> text = trim_space (limit_reader (ap_body resp))
        \<and> msg = parseMessage (limit_reader (ap_body resp))))"
proof (cases "build_request T c method path body")
  case (Inl e)
  moreover have "e \<noteq> StatusError code text msg"
    using Inl by (auto simp: build_request_def split: if_splits option.splits)
  ultimately show ?thesis by (simp add: DoJSON_def)
next
  case (Inr req)
  show ?thesis
  proof (cases "send T req")
    case None
    with Inr show ?thesis by (simp add: DoJSON_def)
  next
    case (Some resp)
    with Inr show ?thesis
      by (cases "decode_body T (limit_reader (ap_body resp))") (auto simp: DoJSON_def read_response_def)
  qed
qed

end
