(* ===== verification/Provider_Properties.thy ===== *)
theory Provider_Properties
  imports Stub_Process Host_Properties
begin

text \<open>
  The properties of the network access process with both mutexes: its calls return, and what its handlers do
  before and after the host has bound the broker stream.
\<close>

text \<open>
  C9 (provider_calls_return): no interleaving of the two mutexes blocks a call for good. From every reachable state
  of the process, a handler that has not returned, be it waiting for \<open>p.mu\<close>, inside, or waiting in
  \<open>Host()\<close> for the mutex of the singleton, can be run to its return; so can a call on the singleton, by a
  handler or by \<open>BindHostBroker\<close>.
\<close>

theorem provider_calls_return:
  assumes "run provider_step (idle t, idle s) tr S"
  shows "(\<forall>r. open_calls (outer_trace tr) g = Some r \<longrightarrow>
        (\<exists>tr' e S'. run provider_step S (tr' @ [Outer (Answered g e)]) S'
           \<and> (\<forall>e'. Outer (Answered g e') \<notin> set tr') \<and> stub_answers r e))
    \<and> (\<forall>m. open_calls (inner_trace tr) g = Some m \<longrightarrow>
        (\<exists>tr' a f S'. run provider_step S (tr' @ [a]) S' \<and> inner_of a = [Answered g f]
           \<and> (\<forall>b\<in>set tr'. \<forall>f'. inner_of b \<noteq> [Answered g f']) \<and> host_answers m f))"
  using provider.outer_call_returns [OF assms [unfolded provider_step_def]]
    provider.inner_call_returns [OF assms [unfolded provider_step_def]]
  unfolding provider_step_def by blast

text \<open>
  Goroutine 2 is inside \<open>SetHostBrokerID\<close>, the handler of goroutine 1 holds \<open>p.mu\<close> and waits for it in
  \<open>Host()\<close>, and the handler of goroutine 3 waits for \<open>p.mu\<close>.
\<close>

definition waiting_trace :: "provider_activity list" where
  "waiting_trace =
     [Inner (Called 2 (CallSetBrokerID 9)), Inner (Locked 2), Outer (Called 1 ReqGetStatus), Outer (Locked 1),
      Outer (Executed 1), Inner (Called 1 CallHost), Outer (Called 3 ReqConnect)]"

lemma provider_calls_return_witness:
  "\<exists>P Q tr e S. run provider_step (idle (fresh_stub, None), idle pluginHost) waiting_trace (P, Q)
     \<and> holder P = Some 1 \<and> holder Q = Some 2 \<and> goroutines Q 1 = Some (Calling CallHost)
     \<and> run provider_step (P, Q) (tr @ [Outer (Answered 3 e)]) S \<and> stub_answers ReqConnect e"
proof -
  obtain P Q where s: "provider_schedule None plain_info waiting_trace (idle (fresh_stub, None), idle pluginHost) = Some (P, Q)"
    and w: "holder P = Some 1" "holder Q = Some 2" "goroutines Q 1 = Some (Calling CallHost)"
    by (simp add: provider_schedule_def waiting_trace_def idle_def pluginHost_def fresh_stub_def willing_next_def calling_def)
  have "open_calls (outer_trace waiting_trace) 3 = Some ReqConnect"
    by (simp add: waiting_trace_def open_calls_def)
  with provider_calls_return [OF provider_schedule_run [OF s], of 3] provider_schedule_run [OF s] w show ?thesis by blast
qed

text \<open>
  C8 (bound_provider_persists): while the singleton has a client and nobody binds again, a \<open>Connect\<close> or
  \<open>Disconnect\<close> that a handler acknowledges has been written to the host, whatever else the process does at the same time: the
  host holds the new intent when the caller gets the status, and a report of the same status has been made to the host after it;
  a report that fails is only logged. A change that is acknowledged without being persisted needs a missing client.
\<close>

theorem bound_provider_persists:
  assumes "hs_client s = Some c"
    and "run provider_step (idle t, idle s) (tr @ [Outer (Answered g (Handled r E (Inr st) log))]) (P, Q)"
    and "\<forall>g m. Inner (Called g m) \<in> set tr \<longrightarrow> m = CallHost" and "r \<noteq> ReqGetStatus"
  shows "log = [Wrote (if r = ReqConnect then ''1'' else ''0''), if ne_report_ok E then Reported st else ReportFailed st]
    \<and> snd (shared P) = Some (if r = ReqConnect then ''1'' else ''0'')"
proof -
  let ?tr = "tr @ [Outer (Answered g (Handled r E (Inr st) log))]"
  have "event_asked True (Handled r E (Inr st) log)"
    using handler_events_asked [OF assms(2), of True] bound_handlers [OF assms(2,1)] assms(3) by auto
  with assms(4) have "changes_intent r" "ne_host E" by (cases r; simp add: env_asked_def changes_intent_def)+
  moreover obtain u where "net_step u (Handled r E (Inr st) log) (shared P)"
    using handler_return [OF assms(2)] by (auto simp: run_snoc_iff)
  ultimately show ?thesis
    using change_with_host [of "fst u" "snd u" r E st log "fst (shared P)" "snd (shared P)"] by simp
qed

text \<open>
  A process that starts with a stored intent: its first handler restores it and disconnects, asking for the host twice,
  while goroutine 2 calls \<open>Host()\<close> of its own.
\<close>

definition bound_singleton :: host_state where
  "bound_singleton = \<lparr>hs_broker = Some 1, hs_brokerID = 9, hs_client = Some 5\<rparr>"

definition ask_host :: "provider_activity list" where
  "ask_host = [Inner (Called 1 CallHost), Inner (Locked 1), Inner (Executed 1), Inner (Executed 1), Resumed 1 (HostCall [] (Some 5))]"

definition disconnect_trace :: "provider_activity list" where
  "disconnect_trace =
     [Outer (Called 1 ReqDisconnect), Outer (Locked 1), Outer (Executed 1)] @ ask_host @ replicate 6 (Outer (Executed 1))
     @ Inner (Called 2 CallHost) # ask_host @ replicate 6 (Outer (Executed 1))"

definition left_stub :: stub where
  "left_stub = \<lparr>st_connected = False, st_desired = False, st_restored = True, st_host_info = Some plain_info\<rparr>"

definition disconnect_answers :: net_env where
  "disconnect_answers = \<lparr>ne_restore_host = True, ne_read = Some (Some ''1''), ne_restore_info = Some plain_info, ne_host = True,
     ne_info = None, ne_write_ok = True, ne_report_ok = True\<rparr>"

lemma disconnect_trace_run:
  "\<not> Option.is_none (provider_schedule None plain_info
      (disconnect_trace @ [Outer (Answered 1 (Handled ReqDisconnect disconnect_answers (Inr (statusLocked left_stub))
         [Wrote ''0'', Reported (statusLocked left_stub)]))])
      (idle (fresh_stub, Some ''1''), idle bound_singleton))"
  by code_simp

lemma bound_provider_persists_witness:
  "\<exists>P Q. run provider_step (idle (fresh_stub, Some ''1''), idle bound_singleton)
      (disconnect_trace @ [Outer (Answered 1 (Handled ReqDisconnect disconnect_answers (Inr (statusLocked left_stub))
         [Wrote ''0'', Reported (statusLocked left_stub)]))]) (P, Q)
     \<and> snd (shared P) = Some ''0''"
proof -
  obtain P Q where run: "run provider_step (idle (fresh_stub, Some ''1''), idle bound_singleton)
      (disconnect_trace @ [Outer (Answered 1 (Handled ReqDisconnect disconnect_answers (Inr (statusLocked left_stub))
         [Wrote ''0'', Reported (statusLocked left_stub)]))]) (P, Q)"
    using provider_schedule_possible [OF disconnect_trace_run] by auto
  have calls: "\<forall>g m. Inner (Called g m) \<in> set disconnect_trace \<longrightarrow> m = CallHost"
    by (simp add: disconnect_trace_def ask_host_def)
  have "hs_client bound_singleton = Some 5" by (simp add: bound_singleton_def)
  from bound_provider_persists [OF this run calls] have "snd (shared P) = Some ''0''" by simp
  with run show ?thesis by blast
qed

text \<open>
  C27 (unbound_provider_silent): until the host binds a stream, no handler reaches it. Whatever broker is set and however
  the calls interleave, every handler succeeds on what the process remembers, writes and reports nothing, and the intent
  the host holds stays.
\<close>

theorem unbound_provider_silent:
  assumes "run provider_step (idle t, idle pluginHost) (tr @ [Outer (Answered g (Handled r E res log))]) (P, Q)"
    and "\<forall>g i. Inner (Called g (CallSetBrokerID i)) \<in> set tr \<longrightarrow> i = 0"
  shows "log = [] \<and> (\<exists>st. res = Inr st) \<and> snd (shared P) = snd t"
proof -
  have "\<not> got_host f" if "Resumed h f \<in> set (tr @ [Outer (Answered g (Handled r E res log))])" for h f
    by (rule unbound_handlers [OF assms(1) _ _ _ that]) (use assms(2) in \<open>auto simp: pluginHost_def\<close>)
  with handler_events_asked [OF assms(1), of False]
  have "\<forall>e\<in>set (returns (outer_trace tr) @ [Handled r E res log]). event_asked False e" by simp
  from run_without_host [OF handler_return [OF assms(1)] this] show ?thesis by auto
qed

text \<open>A disconnect before the host has bound a stream: \<open>Host()\<close> has nothing to return, and the stored intent stays.\<close>

definition ask_nobody :: "provider_activity list" where
  "ask_nobody = [Inner (Called 1 CallHost), Inner (Locked 1), Inner (Executed 1), Inner (Executed 1), Resumed 1 (HostCall [] None)]"

definition unbound_trace :: "provider_activity list" where
  "unbound_trace =
     [Inner (Called 2 (CallSetBroker (Some 1))), Outer (Called 1 ReqDisconnect), Outer (Locked 1), Outer (Executed 1)]
     @ ask_nobody @ ask_nobody @ replicate 5 (Outer (Executed 1))"

lemma unbound_trace_run:
  "\<not> Option.is_none (provider_schedule None plain_info
      (unbound_trace @ [Outer (Answered 1 (Handled ReqDisconnect no_answers (Inr (statusLocked fresh_stub)) []))])
      (idle (fresh_stub, Some ''1''), idle pluginHost))"
  by code_simp

lemma unbound_provider_silent_witness:
  "\<exists>P Q. run provider_step (idle (fresh_stub, Some ''1''), idle pluginHost)
      (unbound_trace @ [Outer (Answered 1 (Handled ReqDisconnect no_answers (Inr (statusLocked fresh_stub)) []))]) (P, Q)
     \<and> snd (shared P) = Some ''1''"
proof -
  obtain P Q where run: "run provider_step (idle (fresh_stub, Some ''1''), idle pluginHost)
      (unbound_trace @ [Outer (Answered 1 (Handled ReqDisconnect no_answers (Inr (statusLocked fresh_stub)) []))]) (P, Q)"
    using provider_schedule_possible [OF unbound_trace_run] by auto
  have calls: "\<forall>g i. Inner (Called g (CallSetBrokerID i)) \<in> set unbound_trace \<longrightarrow> i = 0"
    by (simp add: unbound_trace_def ask_nobody_def)
  from unbound_provider_silent [OF run calls] have "snd (shared P) = Some ''1''" by simp
  with run show ?thesis by blast
qed

end
