(* ===== verification/Json_Column.thy ===== *)
theory Json_Column
  imports Go_Json Proto "HOL-Library.List_Lexorder"
begin

text \<open>
  A Go \<open>any\<close> through \<open>encoding/json\<close> and back, as in the JSON column a host stores capability metadata
  in. \<open>json.Marshal\<close> refuses a NaN or an infinity, replaces every invalid UTF-8 byte of a string or key by
  \<open>U+FFFD\<close>, and writes the keys of a map in byte order; \<open>json.Unmarshal\<close> gives \<open>[]any\<close> for every
  slice, and the last of two equal keys wins. \<open>json_value\<close> are the values that come back as they are: what
  \<open>json.Unmarshal\<close> itself produces.
\<close>

subsection \<open>Strings and numbers\<close>

definition valid_utf8 :: "string \<Rightarrow> bool" where
  "valid_utf8 s \<longleftrightarrow> list_all (\<lambda>(r, bs). r = 0xFFFD \<longrightarrow> bs = encode_rune 0xFFFD) (segs s)"

definition to_valid_utf8 :: "string \<Rightarrow> string" where
  "to_valid_utf8 s = concat (map (\<lambda>(r, bs). if r = 0xFFFD then encode_rune 0xFFFD else bs) (segs s))"

lemma to_valid_utf8_id [simp]: "valid_utf8 s \<Longrightarrow> to_valid_utf8 s = s"
proof -
  assume "valid_utf8 s"
  then have "map (\<lambda>(r, bs). if r = 0xFFFD then encode_rune 0xFFFD else bs) (segs s) = map snd (segs s)"
    by (auto simp: valid_utf8_def list_all_iff)
  then show ?thesis by (simp only: to_valid_utf8_def concat_segs)
qed

lemma valid_utf8_ascii: "ascii s \<Longrightarrow> valid_utf8 s"
  by (auto simp: valid_utf8_def segs_ascii list_all_iff ascii_def)

lemma valid_utf8_Nil [simp]: "valid_utf8 []"
  by (simp add: valid_utf8_def)

text \<open>A \<open>float64\<close> that is neither NaN nor infinite: the exponent bits are not all ones.\<close>

definition finite_f64 :: "f64 \<Rightarrow> bool" where
  "finite_f64 x \<longleftrightarrow> take_bit 11 (drop_bit 52 x) \<noteq> 2047"

subsection \<open>Marshal and Unmarshal\<close>

fun storable :: "gany \<Rightarrow> bool" where
  "storable (AnyFloat x) \<longleftrightarrow> finite_f64 x"
| "storable (AnyList xs) \<longleftrightarrow> list_all storable xs"
| "storable (AnyMap m) \<longleftrightarrow> list_all (\<lambda>(k, v). storable v) m"
| "storable (AnyMaps ms) \<longleftrightarrow> list_all (list_all (\<lambda>(k, v). storable v)) ms"
| "storable v \<longleftrightarrow> True"

text \<open>
  Of the entries whose keys are the same after the replacement, the one with the greatest key is written, and so
  read, last.
\<close>

definition stored_entries :: "(string \<times> gany) list \<Rightarrow> (string \<times> gany) list" where
  "stored_entries m =
     map (\<lambda>(k, v). (to_valid_utf8 k, v))
       (filter (\<lambda>(k, v). list_all (\<lambda>(k', v'). to_valid_utf8 k' = to_valid_utf8 k \<longrightarrow> k' \<le> k) m) m)"

fun stored_form :: "gany \<Rightarrow> gany" where
  "stored_form (AnyString s) = AnyString (to_valid_utf8 s)"
| "stored_form (AnyStrings xs) = AnyList (map (\<lambda>s. AnyString (to_valid_utf8 s)) xs)"
| "stored_form (AnyList xs) = AnyList (map stored_form xs)"
| "stored_form (AnyMap m) = AnyMap (stored_entries (map (\<lambda>(k, v). (k, stored_form v)) m))"
| "stored_form (AnyMaps ms) = AnyList (map (\<lambda>m. AnyMap (stored_entries (map (\<lambda>(k, v). (k, stored_form v)) m))) ms)"
| "stored_form v = v"

fun json_value :: "gany \<Rightarrow> bool" where
  "json_value (AnyFloat x) \<longleftrightarrow> finite_f64 x"
| "json_value (AnyString s) \<longleftrightarrow> valid_utf8 s"
| "json_value (AnyStrings xs) \<longleftrightarrow> False"
| "json_value (AnyList xs) \<longleftrightarrow> list_all json_value xs"
| "json_value (AnyMap m) \<longleftrightarrow> distinct (map fst m) \<and> list_all (\<lambda>(k, v). valid_utf8 k \<and> json_value v) m"
| "json_value (AnyMaps ms) \<longleftrightarrow> False"
| "json_value v \<longleftrightarrow> True"

subsection \<open>What comes back as it is\<close>

lemma stored_entries_valid:
  assumes "list_all (\<lambda>(k, v). valid_utf8 k) m"
  shows "stored_entries m = m"
proof -
  have valid: "to_valid_utf8 k = k" if "(k, v) \<in> set m" for k v using assms that by (auto simp: list_all_iff)
  have "filter (\<lambda>(k, v). list_all (\<lambda>(k', v'). to_valid_utf8 k' = to_valid_utf8 k \<longrightarrow> k' \<le> k) m) m = m"
    by (intro filter_True) (auto simp: list_all_iff valid)
  moreover have "map (\<lambda>(k, v). (to_valid_utf8 k, v)) m = m"
    by (intro map_idI) (auto simp: valid)
  ultimately show ?thesis by (simp only: stored_entries_def)
qed

lemma json_value_storable: "json_value v \<Longrightarrow> storable v"
  by (induction v rule: json_value.induct) (auto simp: list_all_iff)

lemma json_value_stored: "json_value v \<Longrightarrow> stored_form v = v"
proof (induction v rule: json_value.induct)
  case (4 xs)
  then show ?case by (auto simp: list_all_iff intro!: map_idI)
next
  case (5 m)
  then have "map (\<lambda>(k, v). (k, stored_form v)) m = m"
    by (intro map_idI) (auto simp: list_all_iff)
  moreover have "stored_entries m = m"
    using "5.prems" by (intro stored_entries_valid) (auto simp: list_all_iff)
  ultimately show ?case by simp
qed simp_all

lemma stored_maps: "list_all json_value (map AnyMap ms) \<Longrightarrow> stored_form (AnyMaps ms) = AnyList (map AnyMap ms)"
proof (induction ms)
  case (Cons m ms)
  then have "stored_form (AnyMap m) = AnyMap m" by (intro json_value_stored) simp
  with Cons show ?case by simp
qed simp

text \<open>A map whose keys are valid keeps them.\<close>

lemma map_of_stored:
  assumes "list_all (\<lambda>(k, v). valid_utf8 k) m"
  shows "map_of (stored_entries (map (\<lambda>(k, v). (k, stored_form v)) m)) k = map_option stored_form (map_of m k)"
proof -
  have "list_all (\<lambda>(k, v). valid_utf8 k) (map (\<lambda>(k, v). (k, stored_form v)) m)"
    using assms by (auto simp: list_all_iff)
  from stored_entries_valid [OF this] show ?thesis by (simp add: map_of_map)
qed

end
