(* ===== verification/Convert.thy ===== *)
theory Convert
  imports Manifest_Errors Json_Column
begin

text \<open>
  \<open>pkg/pluginsdk/convert/convert.go\<close>: capability descriptors to the untyped records a host
  stores, and back. A metadata map is an association list in the order of insertion. Protobuf's JSON
  codec composed with \<open>encoding/json\<close>, in both directions, and \<open>structpb\<close> are fields of
  \<open>converter\<close>. \<open>converts\<close> states what is documented of them, for the parts of one descriptor:
  what they encode is a JSON value they decode again, and of a schema the fields of the message under their names, with
  fields that have their default value present or absent. \<open>stored_record\<close> is a record after a JSON column.
\<close>

type_synonym any_map = "(string \<times> gany) list"

record converter =
  ws_to_map :: "watch_sync \<Rightarrow> any_map option"
  ws_of_any :: "gany \<Rightarrow> watch_sync option"
  rr_to_map :: "request_router \<Rightarrow> any_map option"
  rr_of_any :: "gany \<Rightarrow> request_router option"
  schema_to_map :: "config_schema \<Rightarrow> any_map option"
  schema_of_any :: "gany \<Rightarrow> config_schema option"
  struct_to_map :: "pb_struct \<Rightarrow> any_map"
  struct_of_map :: "any_map \<Rightarrow> pb_struct option"
  form_json :: "admin_form \<Rightarrow> gany"

record capability_record =
  cr_type :: string
  cr_id :: string
  cr_metadata :: "any_map option"

datatype convert_error =
    DescriptorRequired | EncodeError string | DecodeError string | NotStringList | NotStrings | NotSchemaList

subsection \<open>Encoding\<close>

definition put :: "string \<Rightarrow> gany \<Rightarrow> any_map \<Rightarrow> any_map" where
  "put k v m = filter (\<lambda>(k', _). k' \<noteq> k) m @ [(k, v)]"

definition restore_defaults :: "config_schema \<Rightarrow> any_map \<Rightarrow> any_map" where
  "restore_defaults s v =
     put ''required'' (AnyBool (sch_required s))
       (put ''json_schema'' (AnyString (sch_json_schema s))
         (put ''description'' (AnyString (sch_description s))
           (put ''title'' (AnyString (sch_title s))
             (put ''key'' (AnyString (sch_key s)) v))))"

fun encode_schemas :: "converter \<Rightarrow> config_schema option list \<Rightarrow> convert_error + any_map list" where
  "encode_schemas V [] = Inr []"
| "encode_schemas V (None # ss) =
     (case encode_schemas V ss of Inl e \<Rightarrow> Inl e | Inr ms \<Rightarrow> Inr ([] # ms))"
| "encode_schemas V (Some s # ss) =
     (case schema_to_map V s of
        None \<Rightarrow> Inl (EncodeError ''config schema'')
      | Some v \<Rightarrow>
          (case encode_schemas V ss of Inl e \<Rightarrow> Inl e | Inr ms \<Rightarrow> Inr (restore_defaults s v # ms)))"

definition part :: "string \<Rightarrow> ('a \<Rightarrow> any_map option) \<Rightarrow> 'a option \<Rightarrow> convert_error + any_map" where
  "part key to_map x =
     (case x of
        None \<Rightarrow> Inr []
      | Some y \<Rightarrow> (case to_map y of None \<Rightarrow> Inl (EncodeError key) | Some v \<Rightarrow> Inr [(key, AnyMap v)]))"

definition capabilityMetadata :: "converter \<Rightarrow> capability_descriptor option \<Rightarrow> convert_error + any_map" where
  "capabilityMetadata V descriptor =
     (case descriptor of
        None \<Rightarrow> Inl DescriptorRequired
      | Some d \<Rightarrow>
          (let base = [(''display_name'', AnyString (cd_display_name d)), (''description'', AnyString (cd_description d))]
             @ (if cd_subscriptions d \<noteq> [] then [(''subscriptions'', AnyStrings (cd_subscriptions d))] else [])
             @ (if cd_auth_modes d \<noteq> [] then [(''auth_modes'', AnyStrings (cd_auth_modes d))] else [])
             @ (if cd_icon_url d \<noteq> [] then [(''icon_url'', AnyString (cd_icon_url d))] else [])
           in case part ''watch_sync_provider'' (ws_to_map V) (cd_watch_sync d) of
                Inl e \<Rightarrow> Inl e
              | Inr ws \<Rightarrow>
                  (case part ''request_router'' (rr_to_map V) (cd_request_router d) of
                     Inl e \<Rightarrow> Inl e
                   | Inr rr \<Rightarrow>
                       (case encode_schemas V (cd_config_schema d) of
                          Inl e \<Rightarrow> Inl e
                        | Inr schemas \<Rightarrow> Inr
                            (base @ ws @ rr
                             @ (if cd_config_schema d \<noteq> [] then [(''config_schema'', AnyMaps schemas)] else [])
                             @ (case cd_metadata d of None \<Rightarrow> [] | Some s \<Rightarrow> [(''metadata'', AnyMap (struct_to_map V s))]))))))"

fun records_loop :: "converter \<Rightarrow> capability_descriptor option list \<Rightarrow> convert_error + capability_record list" where
  "records_loop V [] = Inr []"
| "records_loop V (d # ds) =
     (case capabilityMetadata V d of
        Inl e \<Rightarrow> Inl e
      | Inr m \<Rightarrow>
          (case records_loop V ds of
             Inl e \<Rightarrow> Inl e
           | Inr rs \<Rightarrow> Inr (\<lparr>cr_type = GetType d, cr_id = GetId d, cr_metadata = Some m\<rparr> # rs)))"

definition CapabilityRecordsFromManifest ::
  "converter \<Rightarrow> plugin_manifest option \<Rightarrow> convert_error + capability_record list" where
  "CapabilityRecordsFromManifest V manifest = records_loop V (GetCapabilities manifest)"

subsection \<open>Decoding\<close>

fun strings_of :: "gany list \<Rightarrow> string list option" where
  "strings_of [] = Some []"
| "strings_of (AnyString s # xs) = map_option (Cons s) (strings_of xs)"
| "strings_of (x # xs) = None"

definition toStringSlice :: "gany \<Rightarrow> convert_error + string list" where
  "toStringSlice v =
     (case v of
        AnyStrings xs \<Rightarrow> Inr xs
      | AnyList xs \<Rightarrow> (case strings_of xs of None \<Rightarrow> Inl NotStrings | Some ss \<Rightarrow> Inr ss)
      | _ \<Rightarrow> Inl NotStringList)"

definition toStringAnyMap :: "gany \<Rightarrow> any_map" where
  "toStringAnyMap v = (case v of AnyMap m \<Rightarrow> m | _ \<Rightarrow> [])"

fun decode_schemas :: "converter \<Rightarrow> gany list \<Rightarrow> convert_error + config_schema option list" where
  "decode_schemas V [] = Inr []"
| "decode_schemas V (x # xs) =
     (case schema_of_any V (AnyMap (toStringAnyMap x)) of
        None \<Rightarrow> Inl (DecodeError ''config schema'')
      | Some s \<Rightarrow> (case decode_schemas V xs of Inl e \<Rightarrow> Inl e | Inr ss \<Rightarrow> Inr (Some s # ss)))"

definition decodeConfigSchemas :: "converter \<Rightarrow> gany \<Rightarrow> convert_error + config_schema option list" where
  "decodeConfigSchemas V v =
     (case v of
        AnyList xs \<Rightarrow> decode_schemas V xs
      | AnyMaps ms \<Rightarrow> decode_schemas V (map AnyMap ms)
      | _ \<Rightarrow> Inl NotSchemaList)"

definition any_string :: "gany option \<Rightarrow> string" where
  "any_string v = (case v of Some (AnyString s) \<Rightarrow> s | _ \<Rightarrow> [])"

definition optional :: "gany option \<Rightarrow> 'a \<Rightarrow> (gany \<Rightarrow> convert_error + 'a) \<Rightarrow> convert_error + 'a" where
  "optional v absent f = (case v of None \<Rightarrow> Inr absent | Some x \<Rightarrow> f x)"

definition decoded :: "string \<Rightarrow> 'a option \<Rightarrow> convert_error + 'a option" where
  "decoded key x = (case x of None \<Rightarrow> Inl (DecodeError key) | Some y \<Rightarrow> Inr (Some y))"

definition and_also :: "convert_error + 'a \<Rightarrow> ('a \<Rightarrow> convert_error + 'b) \<Rightarrow> convert_error + 'b" where
  "and_also r f = (case r of Inl e \<Rightarrow> Inl e | Inr x \<Rightarrow> f x)"

definition DecodeCapability :: "converter \<Rightarrow> capability_record \<Rightarrow> convert_error + capability_descriptor" where
  "DecodeCapability V r =
     (let d = zero_capability\<lparr>cd_type := cr_type r, cd_id := cr_id r\<rparr> in
      case cr_metadata r of
        None \<Rightarrow> Inr d
      | Some m \<Rightarrow>
          and_also (optional (map_of m ''subscriptions'') [] toStringSlice) (\<lambda>subs.
          and_also (optional (map_of m ''auth_modes'') [] toStringSlice) (\<lambda>modes.
          and_also (optional (map_of m ''watch_sync_provider'') None
            (\<lambda>v. decoded ''watch sync'' (ws_of_any V v))) (\<lambda>ws.
          and_also (optional (map_of m ''request_router'') None
            (\<lambda>v. decoded ''request router'' (rr_of_any V v))) (\<lambda>rr.
          and_also (optional (map_of m ''config_schema'') [] (decodeConfigSchemas V)) (\<lambda>schemas.
          and_also (optional (map_of m ''metadata'') None
            (\<lambda>v. decoded ''metadata'' (struct_of_map V (toStringAnyMap v)))) (\<lambda>meta.
          Inr (d\<lparr>cd_display_name := any_string (map_of m ''display_name''),
                 cd_description := any_string (map_of m ''description''),
                 cd_icon_url := any_string (map_of m ''icon_url''),
                 cd_subscriptions := subs, cd_auth_modes := modes, cd_watch_sync := ws,
                 cd_request_router := rr, cd_config_schema := schemas, cd_metadata := meta\<rparr>))))))))"

subsection \<open>The round trip\<close>

text \<open>
  The metadata of a record in a JSON column; the type and the id are columns of their own. \<open>None\<close> is an error of
  \<open>json.Marshal\<close>.
\<close>

definition stored_record :: "capability_record \<Rightarrow> capability_record option" where
  "stored_record r =
     (case cr_metadata r of
        None \<Rightarrow> Some r
      | Some m \<Rightarrow>
          if storable (AnyMap m)
          then Some (r\<lparr>cr_metadata := Some (stored_entries (map (\<lambda>(k, v). (k, stored_form v)) m))\<rparr>)
          else None)"

text \<open>
  The JSON object \<open>m\<close> has the fields of the schema \<open>s\<close> under their proto names, and no others. A scalar field
  with its default value may be absent.
\<close>

definition scalar_field :: "string \<Rightarrow> gany \<Rightarrow> bool \<Rightarrow> any_map \<Rightarrow> bool" where
  "scalar_field k v is_zero m \<longleftrightarrow> map_of m k = Some v \<or> (map_of m k = None \<and> is_zero)"

definition schema_fields :: "converter \<Rightarrow> config_schema \<Rightarrow> any_map \<Rightarrow> bool" where
  "schema_fields V s m \<longleftrightarrow>
     fst ` set m \<subseteq> {''key'', ''title'', ''description'', ''json_schema'', ''required'', ''admin_form''}
     \<and> scalar_field ''key'' (AnyString (sch_key s)) (sch_key s = []) m
     \<and> scalar_field ''title'' (AnyString (sch_title s)) (sch_title s = []) m
     \<and> scalar_field ''description'' (AnyString (sch_description s)) (sch_description s = []) m
     \<and> scalar_field ''json_schema'' (AnyString (sch_json_schema s)) (sch_json_schema s = []) m
     \<and> scalar_field ''required'' (AnyBool (sch_required s)) (\<not> sch_required s) m
     \<and> map_of m ''admin_form'' = map_option (form_json V) (sch_admin_form s)"

definition schema_encodes :: "converter \<Rightarrow> config_schema \<Rightarrow> bool" where
  "schema_encodes V s \<longleftrightarrow> (\<exists>m. schema_to_map V s = Some m \<and> json_value (AnyMap m) \<and> schema_fields V s m)"

definition schema_decodes :: "converter \<Rightarrow> config_schema \<Rightarrow> bool" where
  "schema_decodes V s \<longleftrightarrow>
     (\<forall>m. json_value (AnyMap m) \<and> schema_fields V s m \<longrightarrow> schema_of_any V (AnyMap m) = Some s)"

definition message_codec :: "('a \<Rightarrow> any_map option) \<Rightarrow> (gany \<Rightarrow> 'a option) \<Rightarrow> 'a \<Rightarrow> bool" where
  "message_codec to_map of_any x \<longleftrightarrow> (\<exists>m. to_map x = Some m \<and> json_value (AnyMap m) \<and> of_any (AnyMap m) = Some x)"

definition converts :: "converter \<Rightarrow> capability_descriptor \<Rightarrow> bool" where
  "converts V d \<longleftrightarrow>
     (\<forall>w. cd_watch_sync d = Some w \<longrightarrow> message_codec (ws_to_map V) (ws_of_any V) w)
     \<and> (\<forall>r. cd_request_router d = Some r \<longrightarrow> message_codec (rr_to_map V) (rr_of_any V) r)
     \<and> (\<forall>s. Some s \<in> set (cd_config_schema d) \<longrightarrow> schema_encodes V s \<and> schema_decodes V s)
     \<and> (None \<in> set (cd_config_schema d) \<longrightarrow> schema_decodes V zero_schema)
     \<and> (\<forall>s. cd_metadata d = Some s \<longrightarrow>
          json_value (AnyMap (struct_to_map V s)) \<and> struct_of_map V (struct_to_map V s) = Some s)"

text \<open>What a JSON column does to the strings of the descriptor itself. Those of a manifest in valid UTF-8 stay.\<close>

definition column_strings :: "capability_descriptor \<Rightarrow> capability_descriptor" where
  "column_strings d = d\<lparr>cd_display_name := to_valid_utf8 (cd_display_name d), cd_description := to_valid_utf8 (cd_description d),
     cd_icon_url := to_valid_utf8 (cd_icon_url d), cd_subscriptions := map to_valid_utf8 (cd_subscriptions d),
     cd_auth_modes := map to_valid_utf8 (cd_auth_modes d)\<rparr>"

definition utf8_descriptor :: "capability_descriptor \<Rightarrow> bool" where
  "utf8_descriptor d \<longleftrightarrow> valid_utf8 (cd_display_name d) \<and> valid_utf8 (cd_description d) \<and> valid_utf8 (cd_icon_url d)
     \<and> list_all valid_utf8 (cd_subscriptions d) \<and> list_all valid_utf8 (cd_auth_modes d)"

lemma column_strings_utf8: "utf8_descriptor d \<Longrightarrow> column_strings d = d"
  by (simp add: utf8_descriptor_def column_strings_def list_all_iff map_idI)

text \<open>
  What a descriptor becomes: a nil schema becomes the empty schema, and the network access
  descriptor is lost, because neither direction mentions it.
\<close>

definition converted :: "capability_descriptor \<Rightarrow> capability_descriptor" where
  "converted d = d\<lparr>cd_network_access := None,
     cd_config_schema := map (\<lambda>s. case s of None \<Rightarrow> Some zero_schema | Some s \<Rightarrow> Some s) (cd_config_schema d)\<rparr>"

text \<open>Restoring the defaults keeps the fields of a schema.\<close>

lemma put_simps:
  "map_of (put k v m) k' = (if k' = k then Some v else map_of m k')"
  "fst ` set (put k v m) = insert k (fst ` set m)"
  "distinct (map fst m) \<Longrightarrow> distinct (map fst (put k v m))"
proof -
  have "map_of (filter (\<lambda>(k', _). k' \<noteq> k) m) k' = (if k' = k then None else map_of m k')"
    by (induction m) auto
  then show "map_of (put k v m) k' = (if k' = k then Some v else map_of m k')"
    by (simp add: put_def map_add_def split: option.split)
  show "fst ` set (put k v m) = insert k (fst ` set m)" by (force simp: put_def)
  show "distinct (map fst m) \<Longrightarrow> distinct (map fst (put k v m))"
    by (induction m) (auto simp: put_def)
qed

lemma schema_fields_restored:
  "schema_fields V s m \<Longrightarrow> schema_fields V s (restore_defaults s m)"
  by (simp add: schema_fields_def scalar_field_def restore_defaults_def put_simps)

lemma json_value_put: "json_value (AnyMap m) \<Longrightarrow> valid_utf8 k \<Longrightarrow> json_value v \<Longrightarrow> json_value (AnyMap (put k v m))"
  using put_simps(3) [of m k v] by (auto simp: put_def list_all_iff)

lemma json_value_lookup: "json_value (AnyMap m) \<Longrightarrow> map_of m k = Some v \<Longrightarrow> json_value v"
  by (auto simp: list_all_iff dest: map_of_SomeD)

lemma scalar_field_valid: "json_value (AnyMap m) \<Longrightarrow> scalar_field k (AnyString x) (x = []) m \<Longrightarrow> valid_utf8 x"
  using json_value_lookup [of m k "AnyString x"] by (auto simp: scalar_field_def)

lemma literal_valid [simp]:
  "valid_utf8 ''key''" "valid_utf8 ''title''" "valid_utf8 ''description''" "valid_utf8 ''json_schema''" "valid_utf8 ''required''"
  "valid_utf8 ''display_name''" "valid_utf8 ''subscriptions''" "valid_utf8 ''auth_modes''" "valid_utf8 ''icon_url''"
  "valid_utf8 ''watch_sync_provider''" "valid_utf8 ''request_router''" "valid_utf8 ''config_schema''" "valid_utf8 ''metadata''"
  by (simp_all add: valid_utf8_ascii ascii_def byte_def)

lemma restored_value:
  assumes "json_value (AnyMap m)" and "schema_fields V s m"
  shows "json_value (AnyMap (restore_defaults s m))"
proof -
  have "valid_utf8 (sch_key s)" "valid_utf8 (sch_title s)" "valid_utf8 (sch_description s)" "valid_utf8 (sch_json_schema s)"
    using assms(2) scalar_field_valid [OF assms(1)] unfolding schema_fields_def by blast+
  then show ?thesis unfolding restore_defaults_def by (intro json_value_put) (simp_all add: assms(1) del: json_value.simps(5))
qed

lemma encode_decode_schemas:
  assumes "\<forall>s. Some s \<in> set ss \<longrightarrow> schema_encodes V s \<and> schema_decodes V s"
    and "None \<in> set ss \<longrightarrow> schema_decodes V zero_schema"
  shows "\<exists>ms. encode_schemas V ss = Inr ms \<and> list_all json_value (map AnyMap ms)
    \<and> decode_schemas V (map AnyMap ms) = Inr (map (\<lambda>s. case s of None \<Rightarrow> Some zero_schema | Some s \<Rightarrow> Some s) ss)"
  using assms
proof (induction V ss rule: encode_schemas.induct)
  case (2 V ss)
  have "schema_fields V zero_schema []" by (simp add: schema_fields_def scalar_field_def zero_schema_def)
  with 2(3) have "schema_of_any V (AnyMap []) = Some zero_schema" by (simp add: schema_decodes_def)
  with 2 show ?case by (auto simp: toStringAnyMap_def)
next
  case (3 V s ss)
  from "3.prems"(1) obtain m where m: "schema_to_map V s = Some m" "json_value (AnyMap m)" "schema_fields V s m"
    by (auto simp: schema_encodes_def)
  note kept = restored_value [OF m(2,3)]
  from "3.prems"(1) kept schema_fields_restored [OF m(3)]
  have "schema_of_any V (AnyMap (restore_defaults s m)) = Some s" by (auto simp: schema_decodes_def)
  with 3 m(1) kept show ?case by (auto simp: toStringAnyMap_def simp del: json_value.simps)
qed simp

lemma strings_of_map [simp]: "strings_of (map AnyString xs) = Some xs"
  by (induction xs) simp_all

lemma toStringSlice_forms [simp]:
  "toStringSlice (AnyStrings xs) = Inr xs" "toStringSlice (AnyList (map AnyString xs)) = Inr xs"
  by (simp_all add: toStringSlice_def)

lemma stored_strings: "toStringSlice (AnyList (map (\<lambda>s. AnyString (f s)) xs)) = Inr (map f xs)"
  using toStringSlice_forms(2) [of "map f xs"] by (simp add: comp_def)

lemma decodeConfigSchemas_forms [simp]:
  "decodeConfigSchemas V (AnyMaps ms) = decode_schemas V (map AnyMap ms)"
  "decodeConfigSchemas V (AnyList xs) = decode_schemas V xs"
  by (simp_all add: decodeConfigSchemas_def)

text \<open>A message of a descriptor in its metadata, and what it decodes to directly and after a JSON column.\<close>

lemma part_decodes:
  assumes "\<forall>y. x = Some y \<longrightarrow> message_codec to_map of_any y" and "valid_utf8 key"
  obtains xs where "part key to_map x = Inr xs" "fst ` set xs \<subseteq> {key}" "list_all (\<lambda>(k, v). valid_utf8 k \<and> json_value v) xs"
    "optional (map_of xs key) None (\<lambda>v. decoded what (of_any v)) = Inr x"
    "optional (map_option stored_form (map_of xs key)) None (\<lambda>v. decoded what (of_any v)) = Inr x"
proof (cases x)
  case None
  then show ?thesis by (intro that [of "[]"]) (simp_all add: part_def optional_def)
next
  case (Some y)
  with assms(1) obtain m where "to_map y = Some m" "json_value (AnyMap m)" "of_any (AnyMap m) = Some y"
    by (auto simp: message_codec_def)
  with Some assms(2) json_value_stored [of "AnyMap m"] show ?thesis
    by (intro that [of "[(key, AnyMap m)]"])
      (simp_all add: part_def optional_def decoded_def del: json_value.simps stored_form.simps)
qed

lemma map_of_optional:
  "map_of ((if b then [(k, v)] else []) @ rest) k' = (if b \<and> k' = k then Some v else map_of rest k')"
  by simp

lemma map_of_last: "map_of (case x of None \<Rightarrow> [] | Some y \<Rightarrow> [(k, f y)]) k' = (if k' = k then map_option f x else None)"
  by (cases x) auto

lemma map_of_part:
  "fst ` set xs \<subseteq> {k} \<Longrightarrow>
     map_of (xs @ rest) k' = (if k' = k \<and> xs \<noteq> [] then map_of xs k else map_of rest k')"
proof (cases "k' = k")
  case False
  assume "fst ` set xs \<subseteq> {k}"
  with False have "k' \<notin> fst ` set xs" by blast
  then have "map_of xs k' = None" by (simp add: map_of_eq_None_iff)
  with False show ?thesis by (simp add: map_add_def)
next
  case True
  assume "fst ` set xs \<subseteq> {k}"
  with True show ?thesis
    by (cases xs) (auto simp: map_add_def split: option.splits)
qed

lemma metadata_shape:
  assumes "encode_schemas V (cd_config_schema d) = Inr ms"
    and "part ''watch_sync_provider'' (ws_to_map V) (cd_watch_sync d) = Inr ws"
    and "part ''request_router'' (rr_to_map V) (cd_request_router d) = Inr rr"
  shows "capabilityMetadata V (Some d) = Inr
      ([(''display_name'', AnyString (cd_display_name d)), (''description'', AnyString (cd_description d))]
       @ (if cd_subscriptions d \<noteq> [] then [(''subscriptions'', AnyStrings (cd_subscriptions d))] else [])
       @ (if cd_auth_modes d \<noteq> [] then [(''auth_modes'', AnyStrings (cd_auth_modes d))] else [])
       @ (if cd_icon_url d \<noteq> [] then [(''icon_url'', AnyString (cd_icon_url d))] else [])
       @ ws @ rr
       @ (if cd_config_schema d \<noteq> [] then [(''config_schema'', AnyMaps ms)] else [])
       @ (case cd_metadata d of None \<Rightarrow> [] | Some s \<Rightarrow> [(''metadata'', AnyMap (struct_to_map V s))]))"
  using assms by (simp add: capabilityMetadata_def Let_def)

lemma metadata_keys:
  assumes ms: "encode_schemas V (cd_config_schema d) = Inr ms"
    and ws: "part ''watch_sync_provider'' (ws_to_map V) (cd_watch_sync d) = Inr ws" "fst ` set ws \<subseteq> {''watch_sync_provider''}"
    and rr: "part ''request_router'' (rr_to_map V) (cd_request_router d) = Inr rr" "fst ` set rr \<subseteq> {''request_router''}"
    and m: "capabilityMetadata V (Some d) = Inr m"
  shows
    "map_of m ''display_name'' = Some (AnyString (cd_display_name d))"
    "map_of m ''description'' = Some (AnyString (cd_description d))"
    "map_of m ''subscriptions'' = (if cd_subscriptions d \<noteq> [] then Some (AnyStrings (cd_subscriptions d)) else None)"
    "map_of m ''auth_modes'' = (if cd_auth_modes d \<noteq> [] then Some (AnyStrings (cd_auth_modes d)) else None)"
    "map_of m ''icon_url'' = (if cd_icon_url d \<noteq> [] then Some (AnyString (cd_icon_url d)) else None)"
    "map_of m ''watch_sync_provider'' = map_of ws ''watch_sync_provider''"
    "map_of m ''request_router'' = map_of rr ''request_router''"
    "map_of m ''config_schema'' = (if cd_config_schema d \<noteq> [] then Some (AnyMaps ms) else None)"
    "map_of m ''metadata'' = map_option (\<lambda>s. AnyMap (struct_to_map V s)) (cd_metadata d)"
proof -
  note m_eq = m [unfolded metadata_shape [OF ms ws(1) rr(1)] sum.inject, symmetric]
  show
    "map_of m ''display_name'' = Some (AnyString (cd_display_name d))"
    "map_of m ''description'' = Some (AnyString (cd_description d))"
    "map_of m ''subscriptions'' = (if cd_subscriptions d \<noteq> [] then Some (AnyStrings (cd_subscriptions d)) else None)"
    "map_of m ''auth_modes'' = (if cd_auth_modes d \<noteq> [] then Some (AnyStrings (cd_auth_modes d)) else None)"
    "map_of m ''icon_url'' = (if cd_icon_url d \<noteq> [] then Some (AnyString (cd_icon_url d)) else None)"
    "map_of m ''watch_sync_provider'' = map_of ws ''watch_sync_provider''"
    "map_of m ''request_router'' = map_of rr ''request_router''"
    "map_of m ''config_schema'' = (if cd_config_schema d \<noteq> [] then Some (AnyMaps ms) else None)"
    "map_of m ''metadata'' = map_option (\<lambda>s. AnyMap (struct_to_map V s)) (cd_metadata d)"
    unfolding m_eq by (simp_all add: map_of_optional map_of_last map_of_part [OF ws(2)] map_of_part [OF rr(2)] del: map_of_append)
qed

lemma storable_maps: "list_all json_value (map AnyMap ms) \<Longrightarrow> storable (AnyMaps ms)"
proof (induction ms)
  case (Cons m ms)
  then have "storable (AnyMap m)" by (intro json_value_storable) simp
  with Cons show ?case by simp
qed simp

lemma metadata_stored:
  assumes "encode_schemas V (cd_config_schema d) = Inr ms" "list_all json_value (map AnyMap ms)"
    and "part ''watch_sync_provider'' (ws_to_map V) (cd_watch_sync d) = Inr ws" "list_all (\<lambda>(k, v). valid_utf8 k \<and> json_value v) ws"
    and "part ''request_router'' (rr_to_map V) (cd_request_router d) = Inr rr" "list_all (\<lambda>(k, v). valid_utf8 k \<and> json_value v) rr"
    and "\<forall>s. cd_metadata d = Some s \<longrightarrow> json_value (AnyMap (struct_to_map V s))"
    and "capabilityMetadata V (Some d) = Inr m"
  shows "storable (AnyMap m)" and "list_all (\<lambda>(k, v). valid_utf8 k) m"
proof -
  have part: "list_all (\<lambda>(k, v). valid_utf8 k \<and> storable v) xs" if "list_all (\<lambda>(k, v). valid_utf8 k \<and> json_value v) xs" for xs
    using that by (auto simp: list_all_iff json_value_storable)
  have maps: "storable (AnyMaps ms)" by (rule storable_maps [OF assms(2)])
  have meta: "storable (AnyMap (struct_to_map V s))" if "cd_metadata d = Some s" for s
    using assms(7) that by (intro json_value_storable) blast
  have "list_all (\<lambda>(k, v). valid_utf8 k \<and> storable v) m"
    using assms(8) part [OF assms(4)] part [OF assms(6)] maps meta
    unfolding metadata_shape [OF assms(1,3,5)] sum.inject
    by (auto simp del: storable.simps(3,4) split: option.split)
  then show "storable (AnyMap m)" and "list_all (\<lambda>(k, v). valid_utf8 k) m" by (auto simp: list_all_iff)
qed

lemma decode_record:
  assumes "converts V d"
  shows "\<exists>m r'. capabilityMetadata V (Some d) = Inr m
    \<and> DecodeCapability V \<lparr>cr_type = cd_type d, cr_id = cd_id d, cr_metadata = Some m\<rparr> = Inr (converted d)
    \<and> stored_record \<lparr>cr_type = cd_type d, cr_id = cd_id d, cr_metadata = Some m\<rparr> = Some r'
    \<and> DecodeCapability V r' = Inr (converted (column_strings d))"
proof -
  from assms encode_decode_schemas [of "cd_config_schema d" V] obtain ms
    where ms: "encode_schemas V (cd_config_schema d) = Inr ms" "list_all json_value (map AnyMap ms)"
      "decode_schemas V (map AnyMap ms) = Inr (map (\<lambda>s. case s of None \<Rightarrow> Some zero_schema | Some s \<Rightarrow> Some s) (cd_config_schema d))"
    by (auto simp: converts_def)
  have "\<forall>y. cd_watch_sync d = Some y \<longrightarrow> message_codec (ws_to_map V) (ws_of_any V) y"
    and "\<forall>y. cd_request_router d = Some y \<longrightarrow> message_codec (rr_to_map V) (rr_of_any V) y"
    using assms by (simp_all add: converts_def)
  from part_decodes [OF this(1), of "''watch_sync_provider''" "''watch sync''"]
    part_decodes [OF this(2), of "''request_router''" "''request router''"]
  obtain ws rr where ws: "part ''watch_sync_provider'' (ws_to_map V) (cd_watch_sync d) = Inr ws"
      "fst ` set ws \<subseteq> {''watch_sync_provider''}" "list_all (\<lambda>(k, v). valid_utf8 k \<and> json_value v) ws"
      "optional (map_of ws ''watch_sync_provider'') None (\<lambda>v. decoded ''watch sync'' (ws_of_any V v)) = Inr (cd_watch_sync d)"
      "optional (map_option stored_form (map_of ws ''watch_sync_provider'')) None (\<lambda>v. decoded ''watch sync'' (ws_of_any V v)) = Inr (cd_watch_sync d)"
    and rr: "part ''request_router'' (rr_to_map V) (cd_request_router d) = Inr rr"
      "fst ` set rr \<subseteq> {''request_router''}" "list_all (\<lambda>(k, v). valid_utf8 k \<and> json_value v) rr"
      "optional (map_of rr ''request_router'') None (\<lambda>v. decoded ''request router'' (rr_of_any V v)) = Inr (cd_request_router d)"
      "optional (map_option stored_form (map_of rr ''request_router'')) None (\<lambda>v. decoded ''request router'' (rr_of_any V v)) = Inr (cd_request_router d)"
    by (metis literal_valid(10,11))
  have meta: "json_value (AnyMap (struct_to_map V s)) \<and> struct_of_map V (struct_to_map V s) = Some s" if "cd_metadata d = Some s" for s
    using assms that by (simp add: converts_def)
  obtain m where m: "capabilityMetadata V (Some d) = Inr m"
    using metadata_shape [OF ms(1) ws(1) rr(1)] by blast
  note keys = metadata_keys [OF ms(1) ws(1,2) rr(1,2) m]
  have "\<forall>s. cd_metadata d = Some s \<longrightarrow> json_value (AnyMap (struct_to_map V s))" using meta by blast
  note column = metadata_stored [OF ms(1,2) ws(1,3) rr(1,3) this m]
  note stored = map_of_stored [OF column(2)]
  note parts = ws(4,5) rr(4,5)
  have schemas: "stored_form (AnyMaps ms) = AnyList (map AnyMap ms)" by (rule stored_maps [OF ms(2)])
  have struct: "stored_form (AnyMap (struct_to_map V s)) = AnyMap (struct_to_map V s)" if "cd_metadata d = Some s" for s
    using meta [OF that] by (intro json_value_stored) blast
  have r1: "DecodeCapability V \<lparr>cr_type = cd_type d, cr_id = cd_id d, cr_metadata = Some m\<rparr> = Inr (converted d)"
    unfolding DecodeCapability_def capability_record.simps option.case Let_def keys parts
    using ms(3) meta by (cases "cd_metadata d"; cases "cd_config_schema d = []")
      (auto simp: and_also_def optional_def decoded_def any_string_def toStringAnyMap_def converted_def zero_capability_def)
  let ?r = "\<lparr>cr_type = cd_type d, cr_id = cd_id d, cr_metadata = Some (stored_entries (map (\<lambda>(k, v). (k, stored_form v)) m))\<rparr>"
  have r2: "DecodeCapability V ?r = Inr (converted (column_strings d))"
    unfolding DecodeCapability_def capability_record.simps option.case Let_def stored keys parts
    using ms(3) meta by (cases "cd_metadata d"; cases "cd_config_schema d = []")
      (auto simp: and_also_def optional_def decoded_def any_string_def toStringAnyMap_def converted_def zero_capability_def
        column_strings_def schemas struct stored_strings simp del: stored_form.simps(4,5) json_value.simps)
  have "stored_record \<lparr>cr_type = cd_type d, cr_id = cd_id d, cr_metadata = Some m\<rparr> = Some ?r"
    using column(1) by (simp add: stored_record_def del: storable.simps)
  with m r1 r2 show ?thesis by blast
qed

lemma records_decode:
  assumes "\<And>d. d \<in> set ds \<Longrightarrow> converts V d"
  shows "\<exists>rs. records_loop V (map Some ds) = Inr rs
    \<and> map (DecodeCapability V) rs = map (\<lambda>d. Inr (converted d)) ds
    \<and> map (\<lambda>r. map_option (DecodeCapability V) (stored_record r)) rs = map (\<lambda>d. Some (Inr (converted (column_strings d)))) ds"
  using assms
proof (induction ds)
  case (Cons d ds)
  then obtain rs where rs: "records_loop V (map Some ds) = Inr rs"
    "map (DecodeCapability V) rs = map (\<lambda>d. Inr (converted d)) ds"
    "map (\<lambda>r. map_option (DecodeCapability V) (stored_record r)) rs = map (\<lambda>d. Some (Inr (converted (column_strings d)))) ds" by auto
  from Cons.prems have "converts V d" by simp
  from decode_record [OF this] rs show ?case by auto
qed simp

end
