(* ===== verification/Record_Properties.thy ===== *)
theory Record_Properties
  imports Convert Manifest
begin

text \<open>
  The properties of capability records: the conversion of capability descriptors and back, and what
  the validator says of the result.
\<close>

lemma capability_ok_converted:
  assumes "capability_ok X d" and "cd_type d \<noteq> NetworkAccessProvider"
  shows "capability_ok X (converted d)"
  using assms
  by (auto simp: capability_ok_def converted_def watch_sync_capability_ok_def network_capability_ok_def
      router_capability_ok_def auth_capability_ok_def metadata_field_def split: if_splits)

lemma config_schemas_converted:
  "list_all (config_schema_ok X) (cd_config_schema d) \<Longrightarrow> list_all (config_schema_ok X) (cd_config_schema (converted d))"
  by (auto simp: converted_def list_all_iff config_schema_ok_def zero_schema_def split: option.splits)

lemma pairing_ok_converted: "pairing_ok (map Some (map converted ds)) = pairing_ok (map Some ds)"
  by (simp add: pairing_ok_def AuthProviderUsesNetworkIdentity_def converted_def)

lemma manifest_ok_converted:
  assumes "manifest_ok X m" and "\<And>d. d \<in> set (map Some ds) \<Longrightarrow> GetType d \<noteq> NetworkAccessProvider"
    and "pm_capabilities m = map Some ds"
  shows "manifest_ok X (m\<lparr>pm_capabilities := map Some (map converted ds)\<rparr>)"
proof -
  have "capability_ok X (converted d) \<and> list_all (config_schema_ok X) (cd_config_schema (converted d))" if "d \<in> set ds" for d
  proof -
    have "Some d \<in> set (map Some ds)" using that by simp
    from assms(2) [OF this] have "cd_type d \<noteq> NetworkAccessProvider" by simp
    moreover have "capability_ok X d" "list_all (config_schema_ok X) (cd_config_schema d)"
      using assms(1,3) that by (auto simp: manifest_ok_def)
    ultimately show ?thesis by (intro conjI capability_ok_converted config_schemas_converted)
  qed
  then show ?thesis
    using assms(1,3) pairing_ok_converted [of ds] by (auto simp: manifest_ok_def header_ok_def)
qed

lemma map_the: "\<forall>d\<in>set xs. \<exists>c. d = Some c \<Longrightarrow> map Some (map the xs) = xs"
  by (induction xs) auto

subsection \<open>Capability records\<close>

text \<open>
  C21 (capability_round_trip): the records made of a manifest's capabilities decode to the same descriptors up to what
  \<open>converted\<close> says: a nil schema becomes the empty one and the network access descriptor is dropped. A JSON column can
  hold each of the records, and after it they decode to the same again, with the invalid UTF-8 in strings of the descriptor itself
  replaced, so to exactly the same for descriptors in valid UTF-8. Of the protobuf codec this uses that it decodes the fields of
  a schema by their names; that the scalar fields the SDK restores have the right names and values is part of what is proved.
\<close>

theorem capability_round_trip:
  assumes "pm_capabilities m = map Some ds" and "\<And>d. d \<in> set ds \<Longrightarrow> converts V d"
  shows "\<exists>rs. CapabilityRecordsFromManifest V (Some m) = Inr rs
    \<and> map (DecodeCapability V) rs = map (\<lambda>d. Inr (converted d)) ds
    \<and> map (\<lambda>r. map_option (DecodeCapability V) (stored_record r)) rs = map (\<lambda>d. Some (Inr (converted (column_strings d)))) ds
    \<and> (list_all utf8_descriptor ds \<longrightarrow>
        map (\<lambda>r. map_option (DecodeCapability V) (stored_record r)) rs = map (\<lambda>d. Some (Inr (converted d))) ds)"
proof -
  have "map (\<lambda>d. Some (Inr (converted (column_strings d)))) ds = map (\<lambda>d. Some (Inr (converted d))) ds" if "list_all utf8_descriptor ds"
    using that by (auto simp: list_all_iff column_strings_utf8)
  moreover have "CapabilityRecordsFromManifest V (Some m) = records_loop V (map Some ds)"
    by (simp add: CapabilityRecordsFromManifest_def assms(1))
  ultimately show ?thesis using records_decode [of ds V, OF assms(2)] by auto
qed

definition sample_network :: capability_descriptor where
  "sample_network = zero_capability\<lparr>cd_type := NetworkAccessProvider, cd_id := ''net'', cd_config_schema := [],
     cd_network_access := Some \<lparr>na_provider = ''stub'', na_display_name = ''Stub''\<rparr>\<rparr>"

definition region_schema :: config_schema where
  "region_schema = zero_schema\<lparr>sch_key := ''region'', sch_title := ''Region'', sch_json_schema := ''{}'', sch_required := True\<rparr>"

definition sample_routed :: capability_descriptor where
  "sample_routed = zero_capability\<lparr>cd_type := RequestRouter, cd_id := ''router'', cd_subscriptions := [''added''],
     cd_request_router := Some \<lparr>rr_supports_seasons = True, rr_reports_download_progress = False, rr_wording = None\<rparr>,
     cd_config_schema := [None, Some region_schema]\<rparr>"

text \<open>A codec for schemas without a form: it omits default values, and decodes the fields it finds by name.\<close>

definition scalar :: "string \<Rightarrow> string \<Rightarrow> any_map" where
  "scalar k v = (if v = [] then [] else [(k, AnyString v)])"

definition encode_schema :: "config_schema \<Rightarrow> any_map option" where
  "encode_schema s = Some (scalar ''key'' (sch_key s) @ scalar ''title'' (sch_title s) @ scalar ''description'' (sch_description s)
     @ scalar ''json_schema'' (sch_json_schema s) @ (if sch_required s then [(''required'', AnyBool True)] else []))"

definition decode_schema :: "gany \<Rightarrow> config_schema option" where
  "decode_schema v =
     (case v of
        AnyMap m \<Rightarrow> Some \<lparr>sch_key = any_string (map_of m ''key''), sch_title = any_string (map_of m ''title''),
          sch_description = any_string (map_of m ''description''), sch_json_schema = any_string (map_of m ''json_schema''),
          sch_required = (map_of m ''required'' = Some (AnyBool True)), sch_admin_form = None\<rparr>
      | _ \<Rightarrow> None)"

definition routed_converter :: converter where
  "routed_converter = \<lparr>ws_to_map = (\<lambda>_. None), ws_of_any = (\<lambda>_. None),
     rr_to_map = (\<lambda>r. Some [(''request_router'', AnyBool (rr_supports_seasons r))]),
     rr_of_any = (\<lambda>v. case v of
        AnyMap [(k, AnyBool b)] \<Rightarrow> Some \<lparr>rr_supports_seasons = b, rr_reports_download_progress = False, rr_wording = None\<rparr>
      | _ \<Rightarrow> None),
     schema_to_map = encode_schema, schema_of_any = decode_schema, struct_to_map = (\<lambda>_. []), struct_of_map = (\<lambda>_. Some []),
     form_json = (\<lambda>_. AnyMap [])\<rparr>"

lemma scalar_field_string: "scalar_field k (AnyString x) (x = []) m \<Longrightarrow> any_string (map_of m k) = x"
  by (auto simp: scalar_field_def any_string_def)

lemma scalar_field_bool: "scalar_field k (AnyBool b) (\<not> b) m \<Longrightarrow> (map_of m k = Some (AnyBool True)) = b"
  by (auto simp: scalar_field_def)

lemma routed_decodes:
  assumes "sch_admin_form s = None"
  shows "schema_decodes routed_converter s"
  unfolding schema_decodes_def
proof (intro allI impI)
  fix m
  assume "json_value (AnyMap m) \<and> schema_fields routed_converter s m"
  then have "decode_schema (AnyMap m) = Some \<lparr>sch_key = sch_key s, sch_title = sch_title s, sch_description = sch_description s,
      sch_json_schema = sch_json_schema s, sch_required = sch_required s, sch_admin_form = None\<rparr>"
    by (simp add: decode_schema_def schema_fields_def scalar_field_string scalar_field_bool del: map_of_eq_Some_iff)
  with assms show "schema_of_any routed_converter (AnyMap m) = Some s" by (cases s) (simp add: routed_converter_def)
qed

lemma region_schema_encodes: "schema_encodes routed_converter region_schema"
proof -
  have m: "schema_to_map routed_converter region_schema =
      Some [(''key'', AnyString ''region''), (''title'', AnyString ''Region''), (''json_schema'', AnyString ''{}''), (''required'', AnyBool True)]"
    by (simp add: routed_converter_def encode_schema_def scalar_def region_schema_def zero_schema_def)
  show ?thesis unfolding schema_encodes_def m
    by (simp add: schema_fields_def scalar_field_def region_schema_def zero_schema_def valid_utf8_ascii ascii_def byte_def)
qed

lemma sample_converts: "converts routed_converter sample_network"
  by (simp add: converts_def sample_network_def zero_capability_def)

lemma routed_converts: "converts routed_converter sample_routed"
proof -
  have "message_codec (rr_to_map routed_converter) (rr_of_any routed_converter)
      \<lparr>rr_supports_seasons = True, rr_reports_download_progress = False, rr_wording = None\<rparr>"
    by (simp add: message_codec_def routed_converter_def)
  then show ?thesis
    using routed_decodes [of region_schema] routed_decodes [of zero_schema] region_schema_encodes
    by (simp add: converts_def sample_routed_def zero_capability_def region_schema_def zero_schema_def)
qed

lemma routed_utf8: "utf8_descriptor sample_routed"
  by (simp add: utf8_descriptor_def sample_routed_def zero_capability_def valid_utf8_ascii ascii_def byte_def)

lemma capability_round_trip_witness:
  "\<exists>rs. CapabilityRecordsFromManifest routed_converter (Some (zero_manifest\<lparr>pm_capabilities := map Some [sample_routed]\<rparr>)) = Inr rs
    \<and> map (DecodeCapability routed_converter) rs = map (\<lambda>d. Inr (converted d)) [sample_routed]
    \<and> map (\<lambda>r. map_option (DecodeCapability routed_converter) (stored_record r)) rs = map (\<lambda>d. Some (Inr (converted d))) [sample_routed]"
proof -
  have "pm_capabilities (zero_manifest\<lparr>pm_capabilities := map Some [sample_routed]\<rparr>) = map Some [sample_routed]" by simp
  from capability_round_trip [OF this, of routed_converter] routed_converts routed_utf8 show ?thesis by auto
qed

text \<open>
  C22 (stored_manifest_accepted): the capabilities of an accepted manifest that has no network access
  provider and is in valid UTF-8, stored as records in a JSON column and decoded again, make up a manifest that is accepted as
  well: what a host validates once stays valid in its database.
\<close>

theorem stored_manifest_accepted:
  assumes "Validate X (Some m) = Accept" and "\<And>d. Some d \<in> set (pm_capabilities m) \<Longrightarrow> converts V d \<and> utf8_descriptor d"
    and "\<And>d. d \<in> set (pm_capabilities m) \<Longrightarrow> GetType d \<noteq> NetworkAccessProvider"
  shows "\<exists>rs cs. CapabilityRecordsFromManifest V (Some m) = Inr rs
    \<and> map (\<lambda>r. map_option (DecodeCapability V) (stored_record r)) rs = map (\<lambda>c. Some (Inr c)) cs
    \<and> Validate X (Some (m\<lparr>pm_capabilities := map Some cs\<rparr>)) = Accept"
proof -
  have ok: "manifest_ok X m" using assms(1) by (simp add: Validate_Accept)
  then have some: "\<forall>d\<in>set (pm_capabilities m). \<exists>c. d = Some c" by (auto simp: manifest_ok_def)
  define ds where "ds = map the (pm_capabilities m)"
  have ds: "pm_capabilities m = map Some ds" using map_the [OF some] by (simp only: ds_def)
  have "map (\<lambda>d. Some (Inr (converted (column_strings d)))) ds = map (\<lambda>c. Some (Inr c)) (map converted ds)"
    using assms(2) ds by (auto simp: column_strings_utf8)
  with records_decode [of ds V] assms(2) ds obtain rs where rs: "records_loop V (map Some ds) = Inr rs"
    "map (\<lambda>r. map_option (DecodeCapability V) (stored_record r)) rs = map (\<lambda>c. Some (Inr c)) (map converted ds)" by auto
  have "manifest_ok X (m\<lparr>pm_capabilities := map Some (map converted ds)\<rparr>)"
    by (rule manifest_ok_converted [OF ok _ ds]) (use assms(3) ds in simp)
  with rs ds show ?thesis
    by (intro exI [of _ rs] exI [of _ "map converted ds"]) (simp add: CapabilityRecordsFromManifest_def Validate_Accept)
qed

definition routed_manifest :: plugin_manifest where
  "routed_manifest = zero_manifest\<lparr>pm_plugin_id := ''org.routed'', pm_version := ''1'', pm_capabilities := [Some sample_routed]\<rparr>"

lemma routed_manifest_ok: "manifest_ok X routed_manifest"
  by (simp add: manifest_ok_def header_ok_def routed_manifest_def zero_manifest_def pairing_ok_def capability_ok_def
      sample_routed_def zero_capability_def watch_sync_capability_ok_def network_capability_ok_def router_capability_ok_def
      auth_capability_ok_def KnownTypes_def AuthProviderUsesNetworkIdentity_def config_schema_ok_def zero_schema_def region_schema_def)
    (simp add: capability_names)

lemma stored_manifest_accepted_witness:
  "\<exists>rs cs. CapabilityRecordsFromManifest routed_converter (Some routed_manifest) = Inr rs
    \<and> map (\<lambda>r. map_option (DecodeCapability routed_converter) (stored_record r)) rs = map (\<lambda>c. Some (Inr c)) cs
    \<and> Validate sample_ext (Some (routed_manifest\<lparr>pm_capabilities := map Some cs\<rparr>)) = Accept"
proof (rule stored_manifest_accepted)
  show "Validate sample_ext (Some routed_manifest) = Accept" by (simp add: Validate_Accept routed_manifest_ok)
qed (auto simp: routed_manifest_def routed_converts routed_utf8, simp add: sample_routed_def capability_names)

text \<open>
  C36 (network_access_lost): a network access capability that the validator accepts is refused by it
  after the conversion, because its descriptor is not part of the record.
\<close>

theorem network_access_lost:
  assumes "converts V d" and "cd_type d = NetworkAccessProvider" and "capabilityMetadata V (Some d) = Inr meta"
  shows "\<exists>d'. DecodeCapability V \<lparr>cr_type = cd_type d, cr_id = cd_id d, cr_metadata = Some meta\<rparr> = Inr d'
    \<and> validateNetworkAccessCapability (Some d') = Some NetworkMissing"
  using decode_record [OF assms(1)] assms(2,3)
  by (auto simp: converted_def validateNetworkAccessCapability_def)

lemma network_access_lost_witness:
  "\<exists>d'. DecodeCapability routed_converter \<lparr>cr_type = cd_type sample_network, cr_id = cd_id sample_network,
       cr_metadata = Some [(''display_name'', AnyString []), (''description'', AnyString [])]\<rparr> = Inr d'
    \<and> validateNetworkAccessCapability (Some d') = Some NetworkMissing"
  by (rule network_access_lost)
    (simp_all add: sample_converts, simp_all add: sample_network_def zero_capability_def capabilityMetadata_def part_def Let_def)

end
