(* ===== verification/Scan_Source.thy ===== *)
theory Scan_Source
  imports Prelude Go_Text
begin

text \<open>
  \<open>examples/hello-scan-source/main.go\<close>, the reference scan_source.v1 plugin: a poll returns the
  complete lines appended to a change log since the marker of the previous poll. A poll looks at
  the file up to three times (\<open>os.Stat\<close>, the byte before the offset, the read to the end), and
  another process may append in between, so \<open>PollChanges\<close> takes the three snapshots
  separately. \<open>split_lines\<close> is the reference for the reader, \<open>lines_end\<close> the reference for
  the blockwise scan \<open>completeLinesEnd\<close>. The last part is the state machine of the host's
  marker, the growing log and what has been reported.
\<close>

abbreviation newline :: char where "newline \<equiv> CHR 0x0A"

datatype snapshot = NoFile | Unreadable | Content string

datatype scope = SCOPE_FILE | SCOPE_SUBTREE

record change =
  ch_path :: string
  ch_scope :: scope

datatype poll_error = NotConfigured | LogNotFound | IOError

subsection \<open>Reading\<close>

definition changesFileKey :: string where "changesFileKey = ''changes_file''"

definition changeFor :: "string \<Rightarrow> change" where
  "changeFor line =
     (if line \<noteq> [] \<and> last line = CHR ''/''
      then \<lparr>ch_path = trim_right_char (CHR ''/'') line, ch_scope = SCOPE_SUBTREE\<rparr>
      else \<lparr>ch_path = line, ch_scope = SCOPE_FILE\<rparr>)"

text \<open>\<open>os.Stat\<close> on the log; a missing file is told apart from the other errors.\<close>

datatype stat_error = NotExist | StatFailed

definition fileSize :: "snapshot \<Rightarrow> stat_error + int" where
  "fileSize f = (case f of NoFile \<Rightarrow> Inl NotExist | Unreadable \<Rightarrow> Inl StatFailed | Content s \<Rightarrow> Inr (int (length s)))"

lemma fileSize_simps [simp]:
  "fileSize NoFile = Inl NotExist" "fileSize Unreadable = Inl StatFailed" "fileSize (Content s) = Inr (int (length s))"
  by (simp_all add: fileSize_def)

text \<open>\<open>None\<close> is an error that is not \<open>ErrNotExist\<close>.\<close>

definition followsNewline :: "snapshot \<Rightarrow> int \<Rightarrow> bool option" where
  "followsNewline f offset =
     (case f of
        Content s \<Rightarrow>
          if nat (offset - 1) < length s then Some (s ! nat (offset - 1) = newline) else None
      | _ \<Rightarrow> None)"

function append_loop :: "string list \<Rightarrow> int \<Rightarrow> string \<Rightarrow> string list \<times> int" where
  "append_loop lines next s =
     (case dropWhile (\<lambda>c. c \<noteq> newline) s of
        [] \<Rightarrow> (lines, next)
      | c # rest \<Rightarrow>
          (let raw = takeWhile (\<lambda>c. c \<noteq> newline) s @ [c];
               line = trim_space raw
           in append_loop (if line \<noteq> [] then lines @ [line] else lines) (next + int (length raw)) rest))"
  by pat_completeness auto
termination
proof (relation "measure (\<lambda>(lines, next, s). length s)")
  fix s rest :: string and c
  assume "dropWhile (\<lambda>c. c \<noteq> newline) s = c # rest"
  then have "length rest < length s" using length_dropWhile_le [of "\<lambda>c. c \<noteq> newline" s] by simp
  then show "((l, n, rest), (l', n', s)) \<in> measure (\<lambda>(lines, next, s). length s)" for l n l' n'
    by simp
qed simp

declare append_loop.simps [simp del]

definition readAppended :: "snapshot \<Rightarrow> int \<Rightarrow> (string list \<times> int) option" where
  "readAppended f offset =
     (case f of Content s \<Rightarrow> Some (append_loop [] offset (drop (nat offset) s)) | _ \<Rightarrow> None)"

fun last_index :: "char \<Rightarrow> string \<Rightarrow> nat option" where
  "last_index c [] = None"
| "last_index c (x # xs) =
     (case last_index c xs of
        Some i \<Rightarrow> Some (Suc i)
      | None \<Rightarrow> if x = c then Some 0 else None)"

text \<open>The read loop, over the blocks the reads return.\<close>

fun end_loop :: "nat \<Rightarrow> nat \<Rightarrow> string list \<Rightarrow> nat" where
  "end_loop lastEnd pos [] = lastEnd"
| "end_loop lastEnd pos (b # bs) =
     end_loop (case last_index newline b of Some i \<Rightarrow> pos + i + 1 | None \<Rightarrow> lastEnd) (pos + length b) bs"

function blocks :: "nat \<Rightarrow> string \<Rightarrow> string list" where
  "blocks n s = (if s = [] \<or> n = 0 then [] else take n s # blocks n (drop n s))"
  by pat_completeness auto
termination by (relation "measure (length \<circ> snd)") auto

declare blocks.simps [simp del]

abbreviation block_size :: nat where "block_size \<equiv> 64 * 1024"

definition completeLinesEnd :: "snapshot \<Rightarrow> nat option" where
  "completeLinesEnd f = (case f of Content s \<Rightarrow> Some (end_loop 0 0 (blocks block_size s)) | _ \<Rightarrow> None)"

definition resyncToEnd :: "snapshot \<Rightarrow> poll_error + (change list \<times> string)" where
  "resyncToEnd f =
     (case completeLinesEnd f of None \<Rightarrow> Inl IOError | Some e \<Rightarrow> Inr ([], show_int (int e)))"

subsection \<open>PollChanges\<close>

record poll_request =
  pq_source_config :: "(string \<times> string) list"
  pq_marker :: string

definition poll_path :: "poll_request \<Rightarrow> string" where
  "poll_path req =
     trim_space (case map_of (pq_source_config req) changesFileKey of None \<Rightarrow> [] | Some p \<Rightarrow> p)"

definition read_from :: "snapshot \<Rightarrow> int \<Rightarrow> poll_error + (change list \<times> string)" where
  "read_from f offset =
     (case readAppended f offset of
        None \<Rightarrow> Inl IOError
      | Some (lines, next) \<Rightarrow> Inr (map changeFor lines, show_int next))"

definition PollChanges ::
  "poll_request \<Rightarrow> snapshot \<Rightarrow> snapshot \<Rightarrow> snapshot \<Rightarrow> poll_error + (change list \<times> string)" where
  "PollChanges req st pk rd =
     (if poll_path req = [] then Inl NotConfigured
      else case fileSize st of
             Inl NotExist \<Rightarrow>
               if pq_marker req = [] \<or> pq_marker req = ''0'' then Inr ([], ''0'')
               else Inl LogNotFound
           | Inl StatFailed \<Rightarrow> Inl IOError
           | Inr sz \<Rightarrow>
               if pq_marker req = [] then resyncToEnd rd
               else case parse_int (pq_marker req) of
                      None \<Rightarrow> resyncToEnd rd
                    | Some offset \<Rightarrow>
                        if offset < 0 then resyncToEnd rd
                        else if offset > sz then read_from rd 0
                        else if offset > 0 then
                          (case followsNewline pk offset of
                             None \<Rightarrow> Inl IOError
                           | Some atLineStart \<Rightarrow> read_from rd (if atLineStart then offset else 0))
                        else read_from rd offset)"

subsection \<open>The reference: complete lines\<close>

function split_lines :: "string \<Rightarrow> string list" where
  "split_lines s =
     (case dropWhile (\<lambda>c. c \<noteq> newline) s of
        [] \<Rightarrow> []
      | c # rest \<Rightarrow> (takeWhile (\<lambda>c. c \<noteq> newline) s @ [c]) # split_lines rest)"
  by pat_completeness auto
termination
proof (relation "measure length")
  fix s rest :: string and c
  assume "dropWhile (\<lambda>c. c \<noteq> newline) s = c # rest"
  then show "(rest, s) \<in> measure length" using length_dropWhile_le [of "\<lambda>c. c \<noteq> newline" s] by simp
qed simp

declare split_lines.simps [simp del]

text \<open>The lines a reader of \<open>s\<close> reports, and where it stops.\<close>

definition report :: "string \<Rightarrow> string list" where
  "report s = filter (\<lambda>l. l \<noteq> []) (map trim_space (split_lines s))"

definition lines_end :: "string \<Rightarrow> nat" where
  "lines_end s = (case last_index newline s of None \<Rightarrow> 0 | Some i \<Rightarrow> Suc i)"

lemma until_newline:
  "newline \<notin> set s \<Longrightarrow> dropWhile (\<lambda>c. c \<noteq> newline) s = []"
  "newline \<notin> set s \<Longrightarrow> dropWhile (\<lambda>c. c \<noteq> newline) (s @ newline # t) = newline # t"
  "newline \<notin> set s \<Longrightarrow> takeWhile (\<lambda>c. c \<noteq> newline) (s @ newline # t) = s"
  by (induction s) auto

lemma split_lines_no_newline: "newline \<notin> set s \<Longrightarrow> split_lines s = []"
  by (subst split_lines.simps) (simp only: until_newline list.case not_False_eq_True)

lemma split_lines_line: "newline \<notin> set a \<Longrightarrow> split_lines (a @ newline # s) = (a @ [newline]) # split_lines s"
  by (subst split_lines.simps) (simp only: until_newline list.case not_False_eq_True)

lemma split_newline_induct [case_names none line]:
  assumes "\<And>s. newline \<notin> set s \<Longrightarrow> P s"
    and "\<And>a s. newline \<notin> set a \<Longrightarrow> P s \<Longrightarrow> P (a @ newline # s)"
  shows "P s"
proof (induction "length s" arbitrary: s rule: less_induct)
  case less
  show ?case
  proof (cases "newline \<in> set s")
    case True
    then obtain a b where "s = a @ newline # b" "newline \<notin> set a" by (auto dest: split_list_first)
    with less assms(2) show ?thesis by simp
  qed (rule assms(1))
qed

lemma last_index_append:
  "last_index c (xs @ ys) =
     (case last_index c ys of Some i \<Rightarrow> Some (length xs + i) | None \<Rightarrow> last_index c xs)"
  by (induction xs) (auto split: option.splits)

lemma last_index_None: "last_index c xs = None \<longleftrightarrow> c \<notin> set xs"
  by (induction xs) (auto split: option.splits)

lemma last_index_Some: "last_index c xs = Some i \<Longrightarrow> i < length xs \<and> xs ! i = c"
  by (induction xs arbitrary: i) (auto split: option.splits if_splits)

lemma lines_end_no_newline: "newline \<notin> set s \<Longrightarrow> lines_end s = 0"
  unfolding lines_end_def by (metis last_index_None option.case(1))

lemma lines_end_append:
  "lines_end (a @ b) = (if newline \<in> set b then length a + lines_end b else lines_end a)"
proof (cases "last_index newline b")
  case None
  then have "newline \<notin> set b" by (simp add: last_index_None)
  with None show ?thesis by (simp only: lines_end_def last_index_append option.case if_False)
next
  case (Some i)
  then have "newline \<in> set b" by (metis last_index_None option.distinct(1))
  with Some show ?thesis by (simp add: lines_end_def last_index_append)
qed

lemma lines_end_line: "lines_end (a @ newline # s) = Suc (length a) + lines_end s"
proof (cases "newline \<in> set s")
  case True
  then show ?thesis using lines_end_append [of "a @ [newline]" s] by simp
next
  case False
  then show ?thesis
    using lines_end_append [of "a @ [newline]" s] lines_end_append [of a "[newline]"]
    by (simp add: lines_end_no_newline) (simp add: lines_end_def)
qed

lemma lines_end_le: "lines_end s \<le> length s"
  by (auto simp: lines_end_def split: option.splits dest: last_index_Some)

lemma append_loop_eq:
  "append_loop lines next s = (lines @ report s, next + int (lines_end s))"
proof (induction s arbitrary: lines "next" rule: split_newline_induct)
  case (none s)
  then have "append_loop lines next s = (lines, next)"
    by (subst append_loop.simps) (simp only: until_newline list.case not_False_eq_True)
  with none show ?case
    by (simp add: report_def split_lines_no_newline lines_end_no_newline)
next
  case (line a s)
  then have "append_loop lines next (a @ newline # s) =
      append_loop (if trim_space (a @ [newline]) \<noteq> [] then lines @ [trim_space (a @ [newline])] else lines)
        (next + int (length (a @ [newline]))) s"
    by (subst append_loop.simps) (simp only: until_newline list.case Let_def not_False_eq_True)
  with line show ?case
    by (simp add: report_def split_lines_line lines_end_line)
qed

text \<open>The scan by blocks finds the same end, however the reads cut the file.\<close>

lemma end_loop_eq:
  fixes pre :: string
  shows "end_loop e (length pre) bs = (if newline \<in> set (concat bs) then length pre + lines_end (concat bs) else e)"
proof (induction bs arbitrary: e pre)
  case (Cons b bs)
  have "end_loop e (length pre) (b # bs)
      = end_loop (if newline \<in> set b then length pre + lines_end b else e) (length (pre @ b)) bs"
  proof (cases "last_index newline b")
    case None
    then have "newline \<notin> set b" by (simp add: last_index_None)
    with None show ?thesis by simp
  next
    case (Some i)
    then have "newline \<in> set b" by (metis last_index_None option.distinct(1))
    with Some show ?thesis by (simp add: lines_end_def)
  qed
  then show ?case unfolding Cons.IH by (simp add: lines_end_append)
qed simp

lemma concat_blocks: "0 < n \<Longrightarrow> concat (blocks n s) = s"
  by (induction n s rule: blocks.induct) (subst blocks.simps, simp)

lemma completeLinesEnd_Content [simp]: "completeLinesEnd (Content s) = Some (lines_end s)"
proof -
  have c: "concat (blocks block_size s) = s" by (rule concat_blocks) simp
  have "end_loop 0 (length []) (blocks block_size s) = (if newline \<in> set s then lines_end s else 0)"
    using end_loop_eq [of 0 "[]" "blocks block_size s"] unfolding c by simp
  also have "\<dots> = lines_end s" by (simp add: lines_end_no_newline)
  finally show ?thesis unfolding completeLinesEnd_def by simp
qed

lemma readAppended_Content [simp]:
  "readAppended (Content s) offset =
     Some (report (drop (nat offset) s), offset + int (lines_end (drop (nat offset) s)))"
  by (simp add: readAppended_def append_loop_eq)

lemma read_from_Content [simp]:
  "read_from (Content s) offset =
     Inr (map changeFor (report (drop (nat offset) s)), show_int (offset + int (lines_end (drop (nat offset) s))))"
  by (simp add: read_from_def)

lemma resyncToEnd_Content [simp]: "resyncToEnd (Content s) = Inr ([], show_int (int (lines_end s)))"
  by (simp add: resyncToEnd_def)

subsection \<open>Line boundaries\<close>

definition line_start :: "string \<Rightarrow> nat \<Rightarrow> bool" where
  "line_start s k \<longleftrightarrow> k \<le> length s \<and> (k = 0 \<or> s ! (k - 1) = newline)"

lemma line_start_end: "line_start s (lines_end s)"
  by (auto simp: line_start_def lines_end_def dest: last_index_Some split: option.splits)

lemma line_start_append: "line_start s k \<Longrightarrow> line_start (s @ t) k"
  by (auto simp: line_start_def nth_append)

lemma line_start_take: "line_start s k \<Longrightarrow> j \<le> k \<Longrightarrow> line_start s j \<Longrightarrow> line_start (take k s) j"
  by (cases j) (auto simp: line_start_def)

lemma split_lines_append:
  assumes "line_start a (length a)"
  shows "split_lines (a @ b) = split_lines a @ split_lines b"
  using assms
proof (induction a rule: split_newline_induct)
  case (none a)
  have "a = []"
  proof (rule ccontr)
    assume "a \<noteq> []"
    then have "a ! (length a - 1) \<in> set a" by (intro nth_mem) simp
    moreover from \<open>a \<noteq> []\<close> none(2) have "a ! (length a - 1) = newline"
      by (simp add: line_start_def)
    ultimately show False using none(1) by simp
  qed
  then show ?case by (simp add: split_lines_no_newline)
next
  case (line a s)
  have "line_start s (length s)"
    using line.prems by (cases s rule: rev_cases) (auto simp: line_start_def nth_append nth_Cons')
  then have "split_lines (s @ b) = split_lines s @ split_lines b" by (rule line.IH)
  with line.hyps show ?case by (simp add: split_lines_line)
qed

lemma report_append: "line_start a (length a) \<Longrightarrow> report (a @ b) = report a @ report b"
  by (simp add: report_def split_lines_append)

lemma report_unfinished: "newline \<notin> set b \<Longrightarrow> report b = []"
  by (simp add: report_def split_lines_no_newline)

lemma after_lines_end: "newline \<notin> set (drop (lines_end s) s)"
proof (induction s rule: split_newline_induct)
  case (none s)
  then show ?case by (simp add: lines_end_no_newline)
next
  case (line a s)
  then show ?case by (simp add: lines_end_line)
qed

lemma report_complete: "report (take (lines_end s) s) = report s"
proof -
  have "line_start (take (lines_end s) s) (length (take (lines_end s) s))"
    using line_start_take [OF line_start_end order_refl line_start_end] lines_end_le [of s] by simp
  then have "report (take (lines_end s) s @ drop (lines_end s) s) = report (take (lines_end s) s) @ []"
    by (simp only: report_append report_unfinished [OF after_lines_end])
  then show ?thesis by simp
qed

lemma lines_end_drop:
  assumes "line_start s k"
  shows "k + lines_end (drop k s) = (if newline \<in> set (drop k s) then lines_end s else k)"
  using lines_end_append [of "take k s" "drop k s"] assms
  by (auto simp: line_start_def lines_end_no_newline min_def)

lemma line_start_advance:
  "line_start s k \<Longrightarrow> line_start s (k + lines_end (drop k s))"
  by (simp only: lines_end_drop line_start_end if_split_asm split: if_split) simp

lemma report_advance:
  assumes "line_start s j" "line_start s k" "j \<le> k"
  shows "report (drop j (take (k + lines_end (drop k s)) s)) = report (drop j (take k s)) @ report (drop k s)"
proof -
  let ?n = "lines_end (drop k s)"
  have "k \<le> length s" using assms by (simp add: line_start_def)
  have split: "drop j (take (k + ?n) s) = drop j (take k s) @ take ?n (drop k s)"
    using assms(3) \<open>k \<le> length s\<close> by (simp add: take_add)
  have "line_start (drop j (take k s)) (length (drop j (take k s)))"
    using assms by (cases "k = j") (auto simp: line_start_def)
  then show ?thesis
    unfolding split by (simp add: report_append report_complete)
qed

subsection \<open>A poll of a log that does not change\<close>

text \<open>
  The reference: where a poll with a marker starts to read, \<open>None\<close> where it only looks for the end.
  A marker that is not the offset of a line in the log, because the log was rewritten, starts over.
\<close>

definition resume_at :: "string \<Rightarrow> string \<Rightarrow> nat option" where
  "resume_at marker s =
     (case parse_int marker of
        None \<Rightarrow> None
      | Some i \<Rightarrow> if i < 0 then None else Some (if line_start s (nat i) then nat i else 0))"

definition poll_reference :: "string \<Rightarrow> string \<Rightarrow> change list \<times> string" where
  "poll_reference marker s =
     (case resume_at marker s of
        None \<Rightarrow> ([], show_int (int (lines_end s)))
      | Some k \<Rightarrow> (map changeFor (report (drop k s)), show_int (int (k + lines_end (drop k s)))))"

lemma parse_int_Nil: "parse_int [] = None"
  by code_simp

lemma followsNewline_line_start:
  "0 < i \<Longrightarrow> i \<le> int (length s) \<Longrightarrow> followsNewline (Content s) i = Some (line_start s (nat i))"
  by (auto simp: followsNewline_def line_start_def nat_diff_distrib')

subsection \<open>The marker, the growing log and what has been reported\<close>

text \<open>
  The host stores the marker a poll returned and sends it back. The log only grows; a poll may
  see it grow between its three looks (\<open>a\<close> and \<open>b\<close>), and the host may lose a response, in
  which case it keeps the old marker. \<open>lg_base\<close> is a ghost: where reporting started. Files
  are shorter than \<open>2^63\<close> bytes, as the \<open>int64\<close> offsets of the operating system require.
\<close>

record log_state =
  lg_file :: "string option"
  lg_marker :: string
  lg_base :: nat
  lg_reported :: "change list"

definition look :: "string option \<Rightarrow> snapshot" where
  "look f = (case f of None \<Rightarrow> NoFile | Some s \<Rightarrow> Content s)"

definition grow :: "string option \<Rightarrow> string option \<Rightarrow> bool" where
  "grow f g \<longleftrightarrow>
     (case f of
        None \<Rightarrow> (case g of None \<Rightarrow> True | Some t \<Rightarrow> length t < 2 ^ 63)
      | Some s \<Rightarrow> (\<exists>b. g = Some (s @ b) \<and> length (s @ b) < 2 ^ 63))"

datatype log_event = Grow | Polled | Lost

definition start_log :: log_state where
  "start_log = \<lparr>lg_file = None, lg_marker = [], lg_base = 0, lg_reported = []\<rparr>"

inductive log_step :: "(string \<times> string) list \<Rightarrow> log_state \<Rightarrow> log_event \<Rightarrow> log_state \<Rightarrow> bool" for cfg where
  log_grow: "grow (lg_file s) g \<Longrightarrow> log_step cfg s Grow (s\<lparr>lg_file := g\<rparr>)"
| log_polled:
    "grow (lg_file s) f \<Longrightarrow> grow f g \<Longrightarrow>
     PollChanges \<lparr>pq_source_config = cfg, pq_marker = lg_marker s\<rparr> (look (lg_file s)) (look f) (look g)
       = Inr (changes, marker) \<Longrightarrow>
     log_step cfg s Polled
       (s\<lparr>lg_file := g, lg_marker := marker, lg_reported := lg_reported s @ changes,
          lg_base := if lg_marker s = [] then nat (the (parse_int marker)) else lg_base s\<rparr>)"
| log_lost:
    "grow (lg_file s) g \<Longrightarrow> log_step cfg s Lost (s\<lparr>lg_file := g\<rparr>)"

inductive_cases log_stepE: "log_step cfg s e t"

text \<open>
  The invariant: the marker is the decimal form of a line boundary of the file, and the reported
  changes are exactly the lines between the base and the marker, in order and each once.
\<close>

definition file_text :: "log_state \<Rightarrow> string" where
  "file_text s = (case lg_file s of None \<Rightarrow> [] | Some c \<Rightarrow> c)"

definition log_at :: "log_state \<Rightarrow> nat \<Rightarrow> bool" where
  "log_at s k \<longleftrightarrow>
     lg_marker s = show_int (int k)
     \<and> line_start (file_text s) k \<and> line_start (file_text s) (lg_base s) \<and> lg_base s \<le> k
     \<and> lg_reported s = map changeFor (report (drop (lg_base s) (take k (file_text s))))"

definition log_inv :: "log_event list \<Rightarrow> log_state \<Rightarrow> bool" where
  "log_inv tr s \<longleftrightarrow>
     length (file_text s) < 2 ^ 63
     \<and> (if lg_marker s = [] then lg_reported s = [] else \<exists>k. log_at s k)"

lemma grow_text:
  assumes "grow f g" and "length (case f of None \<Rightarrow> [] | Some c \<Rightarrow> c) < 2 ^ 63"
  shows "length (case g of None \<Rightarrow> [] | Some c \<Rightarrow> c) < 2 ^ 63"
    and "\<exists>b. (case g of None \<Rightarrow> [] | Some c \<Rightarrow> c) = (case f of None \<Rightarrow> [] | Some c \<Rightarrow> c) @ b"
  using assms by (auto simp: grow_def split: option.splits)

lemma log_inv_grow:
  assumes "log_inv tr s" and "grow (lg_file s) g"
  shows "log_inv tr' (s\<lparr>lg_file := g\<rparr>)"
proof -
  from assms have len: "length (file_text s) < 2 ^ 63" by (simp add: log_inv_def)
  with grow_text [OF assms(2)] obtain b where b: "file_text (s\<lparr>lg_file := g\<rparr>) = file_text s @ b"
    and len': "length (file_text (s\<lparr>lg_file := g\<rparr>)) < 2 ^ 63" by (auto simp: file_text_def)
  have keep: "log_at (s\<lparr>lg_file := g\<rparr>) k" if "log_at s k" for k
  proof -
    from that have "k \<le> length (file_text s)" "line_start (file_text s) k" "line_start (file_text s) (lg_base s)"
      by (auto simp: log_at_def line_start_def)
    with that show ?thesis unfolding log_at_def b by (auto intro: line_start_append)
  qed
  show ?thesis
  proof (cases "lg_marker s = []")
    case True
    with assms(1) len' show ?thesis by (simp add: log_inv_def)
  next
    case False
    with assms(1) obtain k where "log_at s k" by (auto simp: log_inv_def)
    with keep False len' show ?thesis by (auto simp: log_inv_def intro: exI [of _ k])
  qed
qed

lemma marker_parses: "n < 2 ^ 63 \<Longrightarrow> parse_int (show_int (int n)) = Some (int n)"
  by (rule parse_int_show) (simp add: in_int64_def)

lemma show_marker_zero: "show_int (int k) = ''0'' \<Longrightarrow> k < 2 ^ 63 \<Longrightarrow> k = 0"
proof -
  assume "show_int (int k) = ''0''" "k < 2 ^ 63"
  then have "parse_int ''0'' = Some (int k)" using marker_parses [of k] by simp
  moreover have "parse_int ''0'' = Some 0" by code_simp
  ultimately show "k = 0" by simp
qed

lemma show_int_zero: "show_int 0 = ''0''"
  by code_simp

lemma report_Nil [simp]: "report [] = []"
  by (simp add: report_unfinished)

text \<open>A poll at a line boundary, whatever is appended while it runs.\<close>

lemma poll_at_boundary:
  assumes "line_start t k" and "length t < 2 ^ 63" and "trim_space (case map_of cfg changesFileKey of None \<Rightarrow> [] | Some p \<Rightarrow> p) \<noteq> []"
  shows "PollChanges \<lparr>pq_source_config = cfg, pq_marker = show_int (int k)\<rparr>
      (Content t) (Content (t @ a)) (Content (t @ a @ b)) =
    Inr (map changeFor (report (drop k (t @ a @ b))), show_int (int (k + lines_end (drop k (t @ a @ b)))))"
proof -
  have k: "k \<le> length t" and nl: "k \<noteq> 0 \<Longrightarrow> t ! (k - 1) = newline"
    using assms(1) by (auto simp: line_start_def)
  have parse: "parse_int (show_int (int k)) = Some (int k)"
    using k assms(2) by (intro marker_parses) simp
  have "followsNewline (Content (t @ a)) (int k) = Some True" if "k \<noteq> 0"
  proof -
    have i: "nat (int k - 1) = k - 1" using that by simp
    have "k - 1 < length t" using that k by simp
    with nl [OF that] show ?thesis
      unfolding followsNewline_def snapshot.case i by (simp add: nth_append)
  qed
  then show ?thesis
    using k assms(3) by (auto simp: PollChanges_def poll_path_def parse)
qed

abbreviation after_poll :: "log_state \<Rightarrow> string option \<Rightarrow> change list \<Rightarrow> string \<Rightarrow> log_state" where
  "after_poll s g changes marker \<equiv> s\<lparr>lg_file := g, lg_marker := marker, lg_reported := lg_reported s @ changes,
     lg_base := if lg_marker s = [] then nat (the (parse_int marker)) else lg_base s\<rparr>"

lemma grow_shapes:
  assumes "grow (Some x) f" and "grow f g"
  obtains a b where "f = Some (x @ a)" and "g = Some (x @ a @ b)" and "length (x @ a @ b) < 2 ^ 63"
  using assms by (auto simp: grow_def split: option.splits)

lemma polled_path:
  assumes "PollChanges \<lparr>pq_source_config = cfg, pq_marker = m\<rparr> st pk rd = Inr r"
  shows "trim_space (case map_of cfg changesFileKey of None \<Rightarrow> [] | Some p \<Rightarrow> p) \<noteq> []"
  using assms by (auto simp: PollChanges_def poll_path_def split: if_splits)

text \<open>The three cases of a poll: no log yet, the first poll of a log, and a poll that continues.\<close>

lemma log_polled_missing:
  assumes inv: "log_inv tr s" and none: "lg_file s = None"
    and poll: "PollChanges \<lparr>pq_source_config = cfg, pq_marker = lg_marker s\<rparr> NoFile pk rd = Inr (changes, marker)"
  shows "log_at (after_poll s g changes marker) 0"
proof -
  have "changes = [] \<and> marker = ''0''"
    using poll polled_path [OF poll] by (auto simp: PollChanges_def poll_path_def split: if_splits)
  moreover have "lg_reported s = [] \<and> (lg_marker s \<noteq> [] \<longrightarrow> lg_base s = 0)"
    using inv none by (auto simp: file_text_def log_inv_def log_at_def line_start_def split: if_splits)
  moreover have "parse_int ''0'' = Some 0" using marker_parses [of 0] by (simp add: show_int_zero)
  ultimately show ?thesis
    by (auto simp: log_at_def line_start_def show_int_zero)
qed

lemma log_polled_first:
  assumes inv: "log_inv tr s" and first: "lg_marker s = []" and len: "length y < 2 ^ 63"
    and poll: "PollChanges \<lparr>pq_source_config = cfg, pq_marker = lg_marker s\<rparr> (Content x) pk (Content y) = Inr (changes, marker)"
  shows "log_at (after_poll s (Some y) changes marker) (lines_end y)"
proof -
  have "changes = []" "marker = show_int (int (lines_end y))" "lg_reported s = []"
    using poll polled_path [OF poll] first inv by (auto simp: PollChanges_def poll_path_def log_inv_def)
  moreover have "lines_end y < 2 ^ 63" using lines_end_le [of y] len by simp
  ultimately show ?thesis
    using first by (simp add: log_at_def line_start_end marker_parses file_text_def)
qed

lemma log_polled_next:
  assumes at: "log_at s k" and later: "lg_marker s \<noteq> []" and x: "lg_file s = Some x" and len: "length x < 2 ^ 63"
    and y: "y = x @ a @ b"
    and poll: "PollChanges \<lparr>pq_source_config = cfg, pq_marker = lg_marker s\<rparr> (Content x) (Content (x @ a)) (Content y)
       = Inr (changes, marker)"
  shows "log_at (after_poll s (Some y) changes marker) (k + lines_end (drop k y))"
proof -
  have ks: "line_start x k" "line_start x (lg_base s)" "lg_base s \<le> k" "lg_marker s = show_int (int k)"
    using at x by (simp_all add: log_at_def file_text_def)
  have res: "changes = map changeFor (report (drop k y))" "marker = show_int (int (k + lines_end (drop k y)))"
    using poll poll_at_boundary [OF ks(1) len polled_path [OF poll], of a b] ks(4) y by simp_all
  have ys: "line_start y k" "line_start y (lg_base s)" using ks y by (auto intro: line_start_append)
  have "take k y = take k x" using ks(1) y by (simp add: line_start_def)
  then have rep: "lg_reported s = map changeFor (report (drop (lg_base s) (take k y)))"
    using at x by (simp add: log_at_def file_text_def)
  show ?thesis
    unfolding log_at_def using later ks(3) ys(2) line_start_advance [OF ys(1)]
    by (simp add: res rep report_advance [OF ys(2,1) ks(3)] file_text_def)
qed

lemma log_polled_at:
  assumes inv: "log_inv tr s" and f: "grow (lg_file s) f" and g: "grow f g"
    and poll: "PollChanges \<lparr>pq_source_config = cfg, pq_marker = lg_marker s\<rparr> (look (lg_file s)) (look f) (look g)
       = Inr (changes, marker)"
  shows "length (file_text (after_poll s g changes marker)) < 2 ^ 63
    \<and> (\<exists>k. log_at (after_poll s g changes marker) k
          \<and> (lg_file s \<noteq> None \<longrightarrow> newline \<notin> set (drop k (file_text (after_poll s g changes marker)))))"
proof (cases "lg_file s")
  case None
  then have "length (file_text (after_poll s g changes marker)) < 2 ^ 63"
    using f g by (auto simp: file_text_def grow_def split: option.splits)
  moreover have "log_at (after_poll s g changes marker) 0"
    using log_polled_missing [OF inv None] poll by (simp add: None look_def)
  ultimately show ?thesis using None by blast
next
  case (Some x)
  with f g obtain a b where fg: "f = Some (x @ a)" "g = Some (x @ a @ b)" and len: "length (x @ a @ b) < 2 ^ 63"
    by (metis grow_shapes)
  note poll' = poll [unfolded Some fg look_def option.case]
  show ?thesis
  proof (cases "lg_marker s = []")
    case True
    from log_polled_first [OF inv True len poll'] after_lines_end [of "x @ a @ b"] len show ?thesis
      by (auto simp: fg file_text_def)
  next
    case False
    with inv obtain k where k: "log_at s k" by (auto simp: log_inv_def)
    have "length x < 2 ^ 63" using len by simp
    from log_polled_next [OF k False Some this refl poll'] after_lines_end [of "drop k (x @ a @ b)"] len show ?thesis
      by (auto simp: fg file_text_def add.commute simp del: drop_append)
  qed
qed

lemma log_polled_inv:
  assumes "log_inv tr s" and "grow (lg_file s) f" and "grow f g"
    and "PollChanges \<lparr>pq_source_config = cfg, pq_marker = lg_marker s\<rparr> (look (lg_file s)) (look f) (look g)
       = Inr (changes, marker)"
  shows "log_inv tr' (after_poll s g changes marker)"
proof -
  from log_polled_at [OF assms] obtain k where "log_at (after_poll s g changes marker) k"
    and "length (file_text (after_poll s g changes marker)) < 2 ^ 63" by blast
  moreover from this(1) have "marker \<noteq> []" by (auto simp: log_at_def)
  ultimately show ?thesis by (auto simp: log_inv_def)
qed

lemma report_tail:
  assumes "line_start s j" "line_start s k" "j \<le> k" "newline \<notin> set (drop k s)"
  shows "report (drop j s) = report (drop j (take k s))"
proof -
  have k: "k \<le> length s" using assms by (simp add: line_start_def)
  have "drop j (take k s) @ drop k s = drop j s"
    using assms(3) k by (metis append_take_drop_id drop_append length_take min.absorb2 diff_is_0_eq drop0)
  moreover have "line_start (drop j (take k s)) (length (drop j (take k s)))"
    using assms k by (cases "k = j") (auto simp: line_start_def)
  ultimately show ?thesis
    using report_append [of "drop j (take k s)" "drop k s"] report_unfinished [OF assms(4)] by simp
qed

text \<open>After a poll of an existing log nothing complete is left unreported.\<close>

lemma log_polled_all:
  assumes "log_inv tr s" and "grow (lg_file s) f" and "grow f g"
    and "PollChanges \<lparr>pq_source_config = cfg, pq_marker = lg_marker s\<rparr> (look (lg_file s)) (look f) (look g)
       = Inr (changes, marker)"
    and "lg_file s \<noteq> None"
  shows "lg_reported (after_poll s g changes marker) =
    map changeFor (report (drop (lg_base (after_poll s g changes marker)) (file_text (after_poll s g changes marker))))"
proof -
  let ?t = "after_poll s g changes marker"
  from log_polled_at [OF assms(1-4)] assms(5) obtain k where k: "log_at ?t k"
    and tail: "newline \<notin> set (drop k (file_text ?t))" by blast
  from k have "report (drop (lg_base ?t) (file_text ?t)) = report (drop (lg_base ?t) (take k (file_text ?t)))"
    unfolding log_at_def by (intro report_tail tail) blast+
  then show ?thesis using k unfolding log_at_def by (simp only:)
qed

interpretation scan_log: safe_system "log_step cfg" start_log log_inv for cfg
proof
  show "log_inv [] start_log"
    by (simp add: log_inv_def start_log_def file_text_def)
next
  fix tr s e t
  assume "log_inv tr s" and "log_step cfg s e t"
  from this(2,1) show "log_inv (tr @ [e]) t"
  proof cases
    case (log_polled f g changes marker)
    from log_polled_inv [OF \<open>log_inv tr s\<close> log_polled(3-5)] show ?thesis
      unfolding log_polled(2) .
  qed (auto intro: log_inv_grow)
qed

end
