(* ===== verification/Storage_Fixture.thy ===== *)
theory Storage_Fixture
  imports Prelude Go_Text
begin

text \<open>
  \<open>examples/hello-storage/provider.go\<close>, the reference storage provider: \<open>entry\<close>,
  \<open>Describe\<close>, \<open>Stat\<close>, \<open>List\<close> with \<open>listScale\<close>, and the chunked \<open>Read\<close>. The EPUB that
  \<open>newProvider\<close> packs is \<open>book\<close>, any byte string. A call's context is
  \<open>ctx_done\<close>; a stream's \<open>Send\<close> fails where \<open>fails\<close> says so, by the index of the send.
  \<open>int64\<close> fields are \<open>int\<close>: the range check bounds them before any arithmetic.
\<close>

datatype code = NotFound | InvalidArgument | FailedPrecondition | Unavailable | PermissionDenied | ContextDone | SendFailed

datatype entry_kind = KIND_DIRECTORY | KIND_FILE

record entry =
  en_id :: string
  en_name :: string
  en_logical_path :: string
  en_kind :: entry_kind
  en_size :: int
  en_revision :: string

definition scale_size :: nat where "scale_size = 2000000"

definition scale_sources :: "string set" where "scale_sources = {''scale'', ''scale-failure''}"

definition trim_prefix :: "string \<Rightarrow> string \<Rightarrow> string" where
  "trim_prefix pre s = (if take (length pre) s = pre then drop (length pre) s else s)"

definition book_id :: "nat \<Rightarrow> string" where "book_id n = ''book-'' @ pad_zeros 7 n"

definition file_entry :: "string \<Rightarrow> string \<Rightarrow> entry" where
  "file_entry book eid =
     \<lparr>en_id = eid, en_name = eid @ ''.epub'', en_logical_path = eid @ ''.epub'', en_kind = KIND_FILE,
      en_size = int (length book), en_revision = ''v1''\<rparr>"

definition entry_of :: "string \<Rightarrow> string \<Rightarrow> string \<Rightarrow> code + entry" where
  "entry_of book source eid =
     (if source \<in> scale_sources then
        (if eid = ''root'' then
           Inr \<lparr>en_id = ''root'', en_name = ''root'', en_logical_path = [], en_kind = KIND_DIRECTORY,
                en_size = 0, en_revision = ''v1''\<rparr>
         else case parse_int (trim_prefix ''book-'' eid) of
                None \<Rightarrow> Inl NotFound
              | Some n \<Rightarrow>
                  if n < 0 \<or> n \<ge> int scale_size \<or> book_id (nat n) \<noteq> eid then Inl NotFound
                  else Inr (file_entry book eid))
      else if source \<noteq> ''fixture'' then Inl NotFound
      else if eid \<in> {''book'', ''revision-conflict'', ''duplicate'', ''short'', ''blocking''} then
        Inr (file_entry book eid)
      else if eid = ''root'' \<or> eid = ''chapters'' then
        Inr ((file_entry book eid)\<lparr>en_name := eid, en_logical_path := eid, en_kind := KIND_DIRECTORY, en_size := 0\<rparr>)
      else Inl NotFound)"

text \<open>\<open>sentinel\<close> says whether the environment variable of the parent is visible.\<close>

definition Describe :: "bool \<Rightarrow> bool \<Rightarrow> code + (string \<times> string) list" where
  "Describe ctx_done sentinel =
     (if ctx_done then Inl ContextDone
      else if sentinel then Inl PermissionDenied
      else Inr [(''fixture'', ''root''), (''scale'', ''root'')])"

definition Stat :: "string \<Rightarrow> bool \<Rightarrow> string \<Rightarrow> string \<Rightarrow> string \<Rightarrow> code + entry" where
  "Stat book ctx_done source eid revision =
     (if ctx_done then Inl ContextDone
      else if revision = [] then Inl InvalidArgument
      else case entry_of book source eid of
             Inl e \<Rightarrow> Inl e
           | Inr e \<Rightarrow> if revision \<noteq> en_revision e then Inl FailedPrecondition else Inr e)"

subsection \<open>List\<close>

record list_request =
  lr_source_id :: string
  lr_directory_id :: string
  lr_cursor :: string
  lr_max_entries :: "32 word"

record list_response =
  lp_entries :: "entry list"
  lp_next_cursor :: string
  lp_complete :: bool

definition page_limit :: "32 word \<Rightarrow> nat" where
  "page_limit m = (let limit = unat m in if limit = 0 \<or> limit > 512 then 512 else limit)"

definition page_start :: "string \<Rightarrow> nat \<Rightarrow> nat option" where
  "page_start cursor count =
     (if cursor = [] then Some 0
      else case parse_int cursor of
             None \<Rightarrow> None
           | Some i \<Rightarrow> if i < 0 \<or> i > int count then None else Some (nat i))"

fun collect :: "('a \<Rightarrow> code + 'b) \<Rightarrow> 'a list \<Rightarrow> code + 'b list" where
  "collect f [] = Inr []"
| "collect f (x # xs) =
     (case f x of
        Inl e \<Rightarrow> Inl e
      | Inr y \<Rightarrow> (case collect f xs of Inl e \<Rightarrow> Inl e | Inr ys \<Rightarrow> Inr (y # ys)))"

definition page :: "(nat \<Rightarrow> code + entry) \<Rightarrow> nat \<Rightarrow> nat \<Rightarrow> nat \<Rightarrow> code + list_response" where
  "page get count start limit =
     (let stop = min (start + limit) count in
      case collect get [start..<stop] of
        Inl e \<Rightarrow> Inl e
      | Inr es \<Rightarrow>
          Inr \<lparr>lp_entries = es, lp_next_cursor = (if stop = count then [] else show_int (int stop)),
               lp_complete = (stop = count)\<rparr>)"

definition listScale :: "string \<Rightarrow> list_request \<Rightarrow> code + list_response" where
  "listScale book r =
     (if lr_directory_id r \<noteq> ''root'' then Inl NotFound
      else case page_start (lr_cursor r) scale_size of
             None \<Rightarrow> Inl InvalidArgument
           | Some start \<Rightarrow>
               if lr_source_id r = ''scale-failure'' \<and> start \<ge> 512 then Inl Unavailable
               else page (\<lambda>i. entry_of book (lr_source_id r) (book_id i)) scale_size start
                      (page_limit (lr_max_entries r)))"

definition List :: "string \<Rightarrow> bool \<Rightarrow> list_request \<Rightarrow> code + list_response" where
  "List book ctx_done r =
     (if ctx_done then Inl ContextDone
      else if lr_source_id r \<in> scale_sources then listScale book r
      else case entry_of book (lr_source_id r) (lr_directory_id r) of
             Inl e \<Rightarrow> Inl e
           | Inr dir \<Rightarrow>
               if en_kind dir \<noteq> KIND_DIRECTORY then Inl InvalidArgument
               else let ids = (if lr_directory_id r = ''chapters'' then [] else [''book'', ''chapters'']) in
                 case page_start (lr_cursor r) (length ids) of
                   None \<Rightarrow> Inl InvalidArgument
                 | Some start \<Rightarrow>
                     page (\<lambda>i. entry_of book ''fixture'' (ids ! i)) (length ids) start
                       (page_limit (lr_max_entries r)))"

subsection \<open>Read\<close>

record read_request =
  rq_source_id :: string
  rq_entry_id :: string
  rq_expected_revision :: string
  rq_offset :: int
  rq_length :: int

record chunk =
  ck_offset :: int
  ck_data :: string
  ck_eof :: bool

abbreviation chunk_size :: int where "chunk_size \<equiv> 131072"

definition byte_range :: "string \<Rightarrow> int \<Rightarrow> int \<Rightarrow> string" where
  "byte_range s i j = take (nat (j - i)) (drop (nat i) s)"

text \<open>The send loop for an ordinary file: the chunks in order.\<close>

function send_loop :: "string \<Rightarrow> int \<Rightarrow> int \<Rightarrow> chunk list" where
  "send_loop book offset stop =
     (if offset < stop then
        (let nxt = min (offset + chunk_size) stop in
         \<lparr>ck_offset = offset, ck_data = byte_range book offset nxt, ck_eof = (nxt = stop)\<rparr>
           # send_loop book nxt stop)
      else [])"
  by pat_completeness auto
termination
  by (relation "measure (\<lambda>(book, offset, stop). nat (stop - offset))") auto

declare send_loop.simps [simp del]

text \<open>What reaches the peer of the chunks a handler wants to send, and how the handler ends.\<close>

fun deliver :: "(nat \<Rightarrow> bool) \<Rightarrow> nat \<Rightarrow> code option \<Rightarrow> chunk list \<Rightarrow> chunk list \<times> code option" where
  "deliver fails i result [] = ([], result)"
| "deliver fails i result (c # cs) =
     (if fails i then ([], Some SendFailed)
      else (case deliver fails (Suc i) result cs of (sent, r) \<Rightarrow> (c # sent, r)))"

text \<open>
  The fixture ids that misbehave on purpose: \<open>duplicate\<close> sends its first chunk twice and
  stops, \<open>short\<close> drops the last byte of its first chunk and claims the end, \<open>blocking\<close> sends
  one byte and waits for its context to end.
\<close>

definition planned :: "string \<Rightarrow> read_request \<Rightarrow> chunk list" where
  "planned book r =
     (let cs = send_loop book (rq_offset r) (rq_offset r + rq_length r) in
      if rq_length r = 0 then [\<lparr>ck_offset = rq_offset r, ck_data = [], ck_eof = True\<rparr>]
      else if rq_entry_id r = ''duplicate'' then [hd cs, hd cs]
      else if rq_entry_id r = ''short'' then [(hd cs)\<lparr>ck_data := butlast (ck_data (hd cs)), ck_eof := True\<rparr>]
      else cs)"

definition Read :: "string \<Rightarrow> bool \<Rightarrow> (nat \<Rightarrow> bool) \<Rightarrow> read_request \<Rightarrow> chunk list \<times> code option" where
  "Read book ctx_done fails r =
     (case Stat book ctx_done (rq_source_id r) (rq_entry_id r) (rq_expected_revision r) of
        Inl e \<Rightarrow> ([], Some e)
      | Inr e \<Rightarrow>
          if en_kind e \<noteq> KIND_FILE \<or> rq_offset r < 0 \<or> rq_length r < 0 \<or> rq_length r > 8388608
             \<or> rq_offset r > int (length book) \<or> rq_length r > int (length book) - rq_offset r
          then ([], Some InvalidArgument)
          else if rq_entry_id r = ''revision-conflict'' then ([], Some FailedPrecondition)
          else if rq_entry_id r = ''blocking'' then
            deliver fails 0 (Some ContextDone)
              (if rq_length r > 0
               then [\<lparr>ck_offset = rq_offset r, ck_data = byte_range book (rq_offset r) (rq_offset r + 1), ck_eof = False\<rparr>]
               else [])
          else deliver fails 0 None (planned book r))"

subsection \<open>Entries\<close>

lemma parse_int_pad:
  assumes "int n < 2 ^ 63"
  shows "parse_int (pad_zeros w n) = Some (int n)"
proof -
  obtain c cs where p: "pad_zeros w n = c # cs"
    by (cases "pad_zeros w n") (simp_all add: pad_zeros_def)
  have digits: "48 \<le> byte d \<and> byte d \<le> 57" if "d \<in> set (pad_zeros w n)" for d
    using that show_nat_digits [of d n] by (auto simp: pad_zeros_def byte_def split: if_splits)
  then have "48 \<le> byte c" using p by simp
  then have "c \<noteq> CHR ''-''" "c \<noteq> CHR ''+''" by (auto simp: byte_def)
  moreover have "parse_nat (c # cs) = Some n" using parse_nat_pad [of w n] p by simp
  ultimately show ?thesis using assms by (simp add: parse_int_def p in_int64_def)
qed

lemma entry_of_scale:
  assumes "n < scale_size" and "source \<in> scale_sources"
  shows "entry_of book source (book_id n) = Inr (file_entry book (book_id n))"
proof -
  have "trim_prefix ''book-'' (book_id n) = pad_zeros 7 n"
    by (simp add: trim_prefix_def book_id_def)
  moreover have "parse_int (pad_zeros 7 n) = Some (int n)"
    using assms(1) by (intro parse_int_pad) (simp add: scale_size_def)
  ultimately show ?thesis
    using assms by (simp add: entry_of_def book_id_def)
qed

lemma entry_of_scale_only:
  assumes "entry_of book source eid = Inr e" "source \<in> scale_sources" "eid \<noteq> ''root''"
  shows "\<exists>n. n < scale_size \<and> eid = book_id n \<and> e = file_entry book eid"
  using assms by (auto simp: entry_of_def split: option.splits if_splits intro!: exI [of _ "nat _"])

lemma book_id_inject [simp]: "book_id m = book_id n \<longleftrightarrow> m = n"
  by (simp add: book_id_def)

subsection \<open>Pages\<close>

lemma collect_ok: "(\<And>x. x \<in> set xs \<Longrightarrow> f x = Inr (g x)) \<Longrightarrow> collect f xs = Inr (map g xs)"
  by (induction xs) simp_all

lemma page_limit_range: "0 < page_limit m \<and> page_limit m \<le> 512"
  by (auto simp: page_limit_def Let_def)

lemma page_ok:
  assumes "\<And>i. i < count \<Longrightarrow> get i = Inr (g i)" and "start \<le> count"
  shows "page get count start limit =
    Inr \<lparr>lp_entries = map g [start..<min (start + limit) count],
         lp_next_cursor = (if min (start + limit) count = count then [] else show_int (int (min (start + limit) count))),
         lp_complete = (min (start + limit) count = count)\<rparr>"
proof -
  have "collect get [start..<min (start + limit) count] = Inr (map g [start..<min (start + limit) count])"
    by (rule collect_ok) (use assms in auto)
  then show ?thesis unfolding page_def Let_def by (simp only: sum.case)
qed

lemma page_start_show: "n \<le> count \<Longrightarrow> int count < 2 ^ 63 \<Longrightarrow> page_start (show_int (int n)) count = Some n"
  by (simp add: page_start_def parse_int_show in_int64_def)

text \<open>
  What a caller does: ask for pages from a cursor until one is complete. \<open>fuel\<close> bounds the
  number of pages.
\<close>

fun walk :: "nat \<Rightarrow> (string \<Rightarrow> code + list_response) \<Rightarrow> string \<Rightarrow> entry list option" where
  "walk 0 ask cursor = None"
| "walk (Suc fuel) ask cursor =
     (case ask cursor of
        Inl e \<Rightarrow> None
      | Inr p \<Rightarrow>
          if lp_complete p then Some (lp_entries p)
          else map_option (append (lp_entries p)) (walk fuel ask (lp_next_cursor p)))"

locale paged =
  fixes ask :: "string \<Rightarrow> code + list_response"
    and get :: "nat \<Rightarrow> entry"
    and count limit :: nat
  assumes limit_pos: "0 < limit"
    and first_page: "ask [] = ask (show_int 0)"
    and each_page: "start \<le> count \<Longrightarrow> ask (show_int (int start)) =
      Inr \<lparr>lp_entries = map get [start..<min (start + limit) count],
           lp_next_cursor = (if min (start + limit) count = count then [] else show_int (int (min (start + limit) count))),
           lp_complete = (min (start + limit) count = count)\<rparr>"
begin

lemma walk_from: "start \<le> count \<Longrightarrow> count - start < fuel \<Longrightarrow>
    walk fuel ask (show_int (int start)) = Some (map get [start..<count])"
proof (induction fuel arbitrary: start)
  case (Suc fuel)
  show ?case
  proof (cases "count \<le> start + limit")
    case True
    with Suc.prems show ?thesis by (simp add: each_page min_absorb2)
  next
    case False
    then have "walk fuel ask (show_int (int (start + limit))) = Some (map get [start + limit..<count])"
      using Suc.prems limit_pos by (intro Suc.IH) simp_all
    moreover have "map get [start..<start + limit] @ map get [start + limit..<count] = map get [start..<count]"
      using False upt_add_eq_append [of start "start + limit" "count - (start + limit)"]
      by (simp flip: map_append)
    ultimately show ?thesis
      using False Suc.prems by (simp add: each_page min_absorb1)
  qed
qed simp

lemma walk_all: "count < fuel \<Longrightarrow> walk fuel ask [] = Some (map get [0..<count])"
  using walk_from [of 0 fuel] first_page by (cases fuel) simp_all

end

definition scale_request :: "string \<Rightarrow> 32 word \<Rightarrow> string \<Rightarrow> list_request" where
  "scale_request source m cursor =
     \<lparr>lr_source_id = source, lr_directory_id = ''root'', lr_cursor = cursor, lr_max_entries = m\<rparr>"

interpretation scale: paged
  "\<lambda>cursor. List book False (scale_request ''scale'' m cursor)"
  "\<lambda>i. file_entry book (book_id i)" scale_size "page_limit m"
  for book m
proof
  show "0 < page_limit m" using page_limit_range by simp
next
  have "page_start (show_int 0) scale_size = Some 0"
    using page_start_show [of 0 scale_size] by (simp add: scale_size_def)
  then show "List book False (scale_request ''scale'' m []) = List book False (scale_request ''scale'' m (show_int 0))"
    by (simp add: List_def listScale_def scale_request_def scale_sources_def page_start_def)
next
  fix start assume "start \<le> scale_size"
  moreover from this have "page_start (show_int (int start)) scale_size = Some start"
    by (intro page_start_show) (simp_all add: scale_size_def)
  moreover have "entry_of book ''scale'' (book_id i) = Inr (file_entry book (book_id i))" if "i < scale_size" for i
    using that by (rule entry_of_scale) (simp add: scale_sources_def)
  ultimately show "List book False (scale_request ''scale'' m (show_int (int start))) =
      Inr \<lparr>lp_entries = map (\<lambda>i. file_entry book (book_id i)) [start..<min (start + page_limit m) scale_size],
           lp_next_cursor = (if min (start + page_limit m) scale_size = scale_size then []
                             else show_int (int (min (start + page_limit m) scale_size))),
           lp_complete = (min (start + page_limit m) scale_size = scale_size)\<rparr>"
    using page_ok [of scale_size "\<lambda>i. entry_of book ''scale'' (book_id i)" "\<lambda>i. file_entry book (book_id i)" start]
    by (simp add: List_def listScale_def scale_request_def scale_sources_def)
qed

subsection \<open>Chunks\<close>

text \<open>A well-formed chunk sequence for the range \<open>offset\<close> to \<open>stop\<close> of \<open>book\<close>.\<close>

fun chunks_ok :: "int \<Rightarrow> int \<Rightarrow> chunk list \<Rightarrow> bool" where
  "chunks_ok offset stop [] = (offset = stop)"
| "chunks_ok offset stop (c # cs) \<longleftrightarrow>
     ck_offset c = offset \<and> 0 < length (ck_data c) \<and> int (length (ck_data c)) \<le> chunk_size
     \<and> (ck_eof c \<longleftrightarrow> cs = []) \<and> chunks_ok (offset + int (length (ck_data c))) stop cs"

lemma byte_range_length: "0 \<le> i \<Longrightarrow> i \<le> j \<Longrightarrow> j \<le> int (length s) \<Longrightarrow> int (length (byte_range s i j)) = j - i"
  by (simp add: byte_range_def)

lemma byte_range_append: "0 \<le> i \<Longrightarrow> i \<le> j \<Longrightarrow> j \<le> k \<Longrightarrow> byte_range s i j @ byte_range s j k = byte_range s i k"
proof -
  assume "0 \<le> i" "i \<le> j" "j \<le> k"
  then have "nat (k - i) = nat (j - i) + nat (k - j)" "nat j = nat i + nat (j - i)" by simp_all
  then show ?thesis unfolding byte_range_def by (simp add: take_add add.commute)
qed

lemma send_loop_Nil: "send_loop book offset stop = [] \<longleftrightarrow> stop \<le> offset"
  by (subst send_loop.simps) (auto simp: Let_def)

lemma send_loop_chunks:
  "0 \<le> offset \<Longrightarrow> offset \<le> stop \<Longrightarrow> stop \<le> int (length book) \<Longrightarrow>
     chunks_ok offset stop (send_loop book offset stop)
     \<and> concat (map ck_data (send_loop book offset stop)) = byte_range book offset stop"
proof (induction book offset stop rule: send_loop.induct)
  case (1 book offset stop)
  show ?case
  proof (cases "offset < stop")
    case True
    define n where "n = min (offset + chunk_size) stop"
    have n: "offset < n" "n \<le> stop" "n - offset \<le> chunk_size" using True by (auto simp: n_def)
    have step: "send_loop book offset stop =
        \<lparr>ck_offset = offset, ck_data = byte_range book offset n, ck_eof = (n = stop)\<rparr> # send_loop book n stop"
      using True by (subst send_loop.simps) (simp only: n_def if_True Let_def)
    from "1.IH" [OF True refl] "1.prems" n
    have IH: "chunks_ok n stop (send_loop book n stop)"
      "concat (map ck_data (send_loop book n stop)) = byte_range book n stop"
      by (simp_all add: n_def)
    have len: "int (length (byte_range book offset n)) = n - offset"
      using "1.prems" n by (intro byte_range_length) auto
    then have "byte_range book offset n \<noteq> []" using n by auto
    moreover have "(n = stop) = (send_loop book n stop = [])" using n by (auto simp: send_loop_Nil)
    moreover have "byte_range book offset n @ byte_range book n stop = byte_range book offset stop"
      using "1.prems" n by (intro byte_range_append) auto
    ultimately show ?thesis
      unfolding step using IH len n by simp
  next
    case False
    then have "send_loop book offset stop = []" by (simp add: send_loop_Nil)
    with False "1.prems" show ?thesis by (simp add: byte_range_def)
  qed
qed

lemma deliver_ok: "(\<And>i. \<not> fails i) \<Longrightarrow> deliver fails n result cs = (cs, result)"
  by (induction cs arbitrary: n) auto

lemma deliver_prefix:
  "deliver fails n result cs = (sent, r) \<Longrightarrow> \<exists>rest. cs = sent @ rest \<and> r = (if rest = [] then result else Some SendFailed)"
proof (induction cs arbitrary: n sent r)
  case (Cons c cs)
  show ?case
  proof (cases "fails n")
    case True
    with Cons.prems show ?thesis by simp
  next
    case False
    obtain sent' r' where d: "deliver fails (Suc n) result cs = (sent', r')" by fastforce
    from Cons.IH [OF d] obtain rest where rest: "cs = sent' @ rest" "r' = (if rest = [] then result else Some SendFailed)"
      by blast
    from d False Cons.prems have "sent = c # sent'" "r = r'" by simp_all
    with rest show ?thesis by simp
  qed
qed simp

end
