(* ===== verification/Plugin_Properties.thy ===== *)
theory Plugin_Properties
  imports Scan_Source Storage_Fixture
begin

text \<open>The properties of the two reference plugins that serve data: the scan source and the storage provider.\<close>

subsection \<open>The scan source\<close>

text \<open>
  C4 (scan_exactly_once): in every run of polls, lost responses and appends, also appends while a poll is
  running, the marker the host holds is a line boundary of the log and what has been reported are exactly the
  non-blank lines between the start of reporting and the marker, in order, each once.
\<close>

theorem scan_exactly_once:
  assumes "run (log_step cfg) start_log tr s" and "lg_marker s \<noteq> []"
  shows "\<exists>k. parse_int (lg_marker s) = Some (int k) \<and> line_start (file_text s) k \<and> lg_base s \<le> k
    \<and> lg_reported s = map changeFor (report (drop (lg_base s) (take k (file_text s))))"
proof -
  from scan_log.Inv_run [OF assms(1)] assms(2) obtain k where k: "log_at s k" and len: "length (file_text s) < 2 ^ 63"
    by (auto simp: log_inv_def)
  then have "k < 2 ^ 63" by (auto simp: log_at_def line_start_def)
  with k show ?thesis by (auto simp: log_at_def marker_parses intro!: exI [of _ k])
qed

definition scan_cfg :: "(string \<times> string) list" where "scan_cfg = [(''changes_file'', ''/log'')]"

lemma scan_cfg_path: "trim_space (case map_of scan_cfg changesFileKey of None \<Rightarrow> [] | Some p \<Rightarrow> p) \<noteq> []"
proof -
  have "runes ''/log'' = map byte ''/log''" by (rule runes_ascii) (simp add: ascii_def byte_def)
  then have "trim_space ''/log'' = ''/log''"
    using trim_space_eq_iff [of "''/log''"] segs_ascii [of "''/log''"]
    by (simp add: byte_def is_space_def ascii_def)
  then show ?thesis by (simp add: scan_cfg_def changesFileKey_def)
qed

definition polled_log :: log_state where
  "polled_log = start_log\<lparr>lg_marker := ''0''\<rparr>"

lemma parse_zero: "parse_int ''0'' = Some 0"
  using marker_parses [of 0] by (simp add: show_int_zero)

lemma polled_log_reached: "run (log_step scan_cfg) start_log [Polled] polled_log"
proof -
  have "log_step scan_cfg start_log Polled
      (start_log\<lparr>lg_file := None, lg_marker := ''0'', lg_reported := lg_reported start_log @ [],
        lg_base := if lg_marker start_log = [] then nat (the (parse_int ''0'')) else lg_base start_log\<rparr>)"
    by (rule log_polled [where f = None]) (use scan_cfg_path in \<open>simp_all add: grow_def start_log_def PollChanges_def poll_path_def look_def\<close>)
  then show ?thesis by (simp add: run_Cons polled_log_def start_log_def parse_zero)
qed

lemma scan_exactly_once_witness:
  "\<exists>k. parse_int (lg_marker polled_log) = Some (int k) \<and> line_start (file_text polled_log) k \<and> lg_base polled_log \<le> k
    \<and> lg_reported polled_log = map changeFor (report (drop (lg_base polled_log) (take k (file_text polled_log))))"
  by (rule scan_exactly_once [OF polled_log_reached]) (simp add: polled_log_def)

text \<open>
  C19 (scan_catches_up): a poll of an existing log whose response the host stores leaves nothing complete
  unreported: every complete line from the start of reporting to the end of the log as the poll last saw it has then been
  reported.
\<close>

theorem scan_catches_up:
  assumes "run (log_step cfg) start_log tr s" and "log_step cfg s Polled t" and "lg_file s \<noteq> None"
  shows "lg_reported t = map changeFor (report (drop (lg_base t) (file_text t)))"
proof -
  have inv: "log_inv tr s" by (rule scan_log.Inv_run [OF assms(1)])
  from assms(2) obtain f g changes marker where poll: "grow (lg_file s) f" "grow f g"
    "PollChanges \<lparr>pq_source_config = cfg, pq_marker = lg_marker s\<rparr> (look (lg_file s)) (look f) (look g) = Inr (changes, marker)"
    and t: "t = after_poll s g changes marker"
    by (auto elim: log_stepE)
  show ?thesis unfolding t by (rule log_polled_all [OF inv poll assms(3)])
qed

definition a_line :: string where "a_line = [CHR ''a'', newline]"

lemma scan_catches_up_witness:
  "\<exists>t. log_step scan_cfg (polled_log\<lparr>lg_file := Some a_line\<rparr>) Polled t
     \<and> lg_reported t = map changeFor (report (drop (lg_base t) (file_text t)))"
proof -
  let ?s = "polled_log\<lparr>lg_file := Some a_line\<rparr>"
  have path: "poll_path \<lparr>pq_source_config = scan_cfg, pq_marker = ''0''\<rparr> \<noteq> []"
    using scan_cfg_path by (simp add: poll_path_def)
  have run: "run (log_step scan_cfg) start_log ([Polled] @ [Grow]) ?s"
    using polled_log_reached log_grow [of polled_log "Some a_line" scan_cfg]
    by (simp only: run_snoc_iff) (auto simp: grow_def polled_log_def start_log_def a_line_def)
  obtain changes marker where poll: "PollChanges \<lparr>pq_source_config = scan_cfg, pq_marker = lg_marker ?s\<rparr>
      (look (lg_file ?s)) (look (lg_file ?s)) (look (lg_file ?s)) = Inr (changes, marker)"
    using path by (simp add: PollChanges_def look_def polled_log_def parse_zero)
  have "grow (lg_file ?s) (lg_file ?s)" by (simp add: grow_def a_line_def)
  from log_polled [OF this this poll] have step: "log_step scan_cfg ?s Polled (after_poll ?s (lg_file ?s) changes marker)" .
  from scan_catches_up [OF run step] step show ?thesis by auto
qed

text \<open>
  C40 (poll_matches_reference): for a configured path and a log that does not change while it is read, a poll gives
  exactly what the reference gives, for every marker and every content: nothing and the end of the last complete
  line for a marker that is no offset, the lines after the marker if it is the start of a line of the log, and all
  lines of the log otherwise.
\<close>

theorem poll_matches_reference:
  assumes "poll_path req \<noteq> []"
  shows "PollChanges req (Content s) (Content s) (Content s) = Inr (poll_reference (pq_marker req) s)"
proof (cases "parse_int (pq_marker req)")
  case None
  with assms show ?thesis by (simp add: PollChanges_def poll_reference_def resume_at_def)
next
  case (Some i)
  then have "pq_marker req \<noteq> []" by (auto simp: parse_int_Nil)
  show ?thesis
  proof (cases "i < 0")
    case False
    then obtain n where i: "i = int n" by (cases i) auto
    consider "n = 0" | "0 < n" "n \<le> length s" | "length s < n" by linarith
    then show ?thesis
    proof cases
      case 2
      then have "followsNewline (Content s) (int n) = Some (line_start s n)"
        using followsNewline_line_start [of "int n" s] by simp
      with 2 show ?thesis
        using assms Some \<open>pq_marker req \<noteq> []\<close> by (simp add: i PollChanges_def poll_reference_def resume_at_def)
    qed (use assms Some \<open>pq_marker req \<noteq> []\<close> in
        \<open>simp_all add: i PollChanges_def poll_reference_def resume_at_def line_start_def\<close>)
  qed (use assms Some \<open>pq_marker req \<noteq> []\<close> in \<open>simp add: PollChanges_def poll_reference_def resume_at_def\<close>)
qed

lemma poll_matches_reference_witness:
  "PollChanges \<lparr>pq_source_config = scan_cfg, pq_marker = ''0''\<rparr> (Content a_line) (Content a_line) (Content a_line) =
    Inr (map changeFor (report a_line), show_int (int (lines_end a_line)))"
proof -
  have "poll_path \<lparr>pq_source_config = scan_cfg, pq_marker = ''0''\<rparr> \<noteq> []"
    using scan_cfg_path by (simp add: poll_path_def)
  from poll_matches_reference [OF this, of a_line] show ?thesis
    by (simp add: poll_reference_def resume_at_def parse_zero line_start_def)
qed

text \<open>
  When the log has become shorter than the marker, the poll reports every complete
  line the log now holds and returns a marker after them, whatever is appended while it runs.
\<close>

theorem scan_truncated:
  assumes "poll_path \<lparr>pq_source_config = cfg, pq_marker = show_int (int k)\<rparr> \<noteq> []"
    and "length x < k" and "k < 2 ^ 63"
  shows "PollChanges \<lparr>pq_source_config = cfg, pq_marker = show_int (int k)\<rparr> (Content x) pk (Content (x @ b)) =
    Inr (map changeFor (report (x @ b)), show_int (int (lines_end (x @ b))))"
  using assms by (simp add: PollChanges_def marker_parses)

lemma scan_truncated_witness:
  "PollChanges \<lparr>pq_source_config = scan_cfg, pq_marker = show_int (int 7)\<rparr> (Content a_line) NoFile (Content (a_line @ [])) =
    Inr (map changeFor (report (a_line @ [])), show_int (int (lines_end (a_line @ []))))"
  by (rule scan_truncated) (use scan_cfg_path in \<open>simp_all add: poll_path_def a_line_def\<close>)

text \<open>
  The end of the last complete line does not depend on how the reads of the log cut it
  into blocks.
\<close>

theorem scan_blocks:
  assumes "concat bs = concat cs"
  shows "end_loop 0 0 bs = end_loop 0 0 cs \<and> completeLinesEnd (Content (concat bs)) = Some (end_loop 0 0 bs)"
proof -
  have "end_loop 0 0 ds = lines_end (concat ds)" for ds
    using end_loop_eq [of 0 "[]" ds] lines_end_no_newline [of "concat ds"] by (simp split: if_splits)
  with assms show ?thesis by simp
qed

lemma scan_blocks_witness:
  "end_loop 0 0 [a_line, a_line] = end_loop 0 0 [a_line @ a_line]
   \<and> completeLinesEnd (Content (concat [a_line, a_line])) = Some (end_loop 0 0 [a_line, a_line])"
  by (rule scan_blocks) simp

subsection \<open>The storage provider\<close>

text \<open>
  C26 (storage_walk): following the cursors of \<open>List\<close> through the two-million-entry directory, with
  any page size, ends, and returns every entry once and in order.
\<close>

theorem storage_walk:
  assumes "scale_size < fuel"
  shows "walk fuel (\<lambda>cursor. List book False (scale_request ''scale'' m cursor)) [] =
    Some (map (\<lambda>i. file_entry book (book_id i)) [0..<scale_size])"
  using assms by (rule scale.walk_all)

lemma storage_walk_witness:
  "walk (Suc scale_size) (\<lambda>cursor. List ''epub'' False (scale_request ''scale'' 100 cursor)) [] =
    Some (map (\<lambda>i. file_entry ''epub'' (book_id i)) [0..<scale_size])"
  by (rule storage_walk) simp

text \<open>
  An entry of the large directory that \<open>List\<close> can return is the entry
  \<open>Stat\<close> returns for its id and revision, and no other id than those and the root exists.
\<close>

theorem storage_listed_stat:
  assumes "source \<in> scale_sources" and "eid \<noteq> ''root''"
  shows "Stat book False source eid ''v1'' = Inr e \<longleftrightarrow>
    (\<exists>n. n < scale_size \<and> eid = book_id n \<and> e = file_entry book eid)"
proof
  assume "Stat book False source eid ''v1'' = Inr e"
  then have "entry_of book source eid = Inr e" by (auto simp: Stat_def split: sum.splits if_splits)
  then show "\<exists>n. n < scale_size \<and> eid = book_id n \<and> e = file_entry book eid"
    using assms by (rule entry_of_scale_only)
next
  assume "\<exists>n. n < scale_size \<and> eid = book_id n \<and> e = file_entry book eid"
  then show "Stat book False source eid ''v1'' = Inr e"
    using entry_of_scale assms(1) by (auto simp: Stat_def file_entry_def)
qed

lemma storage_listed_stat_witness:
  "Stat ''epub'' False ''scale'' (book_id 7) ''v1'' = Inr (file_entry ''epub'' (book_id 7))"
  using storage_listed_stat [of "''scale''" "book_id 7" "''epub''" "file_entry ''epub'' (book_id 7)"]
  by (auto simp: scale_sources_def scale_size_def book_id_def)

text \<open>
  C10 (storage_read): \<open>Read\<close> of an ordinary file, on a stream that does not fail, delivers consecutive
  chunks of at most 128 KiB whose bytes are the requested range, only the last of them marked as the end; on a stream
  that fails it delivers a prefix of them and an error.
\<close>

theorem storage_read:
  assumes "Stat book False (rq_source_id r) (rq_entry_id r) (rq_expected_revision r) = Inr e" and "en_kind e = KIND_FILE"
    and "rq_entry_id r \<notin> {''revision-conflict'', ''blocking'', ''duplicate'', ''short''}"
    and "0 \<le> rq_offset r" and "0 < rq_length r" and "rq_length r \<le> 8388608"
    and "rq_offset r + rq_length r \<le> int (length book)"
  shows "\<exists>cs. Read book False (\<lambda>_. False) r = (cs, None)
    \<and> chunks_ok (rq_offset r) (rq_offset r + rq_length r) cs
    \<and> concat (map ck_data cs) = byte_range book (rq_offset r) (rq_offset r + rq_length r)
    \<and> (\<forall>fails sent res. Read book False fails r = (sent, res) \<longrightarrow> (\<exists>rest. cs = sent @ rest \<and> res = (if rest = [] then None else Some SendFailed)))"
proof -
  let ?cs = "send_loop book (rq_offset r) (rq_offset r + rq_length r)"
  have "Read book False fails r = deliver fails 0 None ?cs" for fails
    using assms by (auto simp: Read_def planned_def Let_def)
  moreover have "chunks_ok (rq_offset r) (rq_offset r + rq_length r) ?cs
      \<and> concat (map ck_data ?cs) = byte_range book (rq_offset r) (rq_offset r + rq_length r)"
    using assms by (intro send_loop_chunks) simp_all
  moreover have "deliver (\<lambda>_. False) 0 None ?cs = (?cs, None)" by (simp add: deliver_ok)
  ultimately show ?thesis using deliver_prefix by (intro exI [of _ ?cs]) metis
qed

definition sample_read :: read_request where
  "sample_read = \<lparr>rq_source_id = ''fixture'', rq_entry_id = ''book'', rq_expected_revision = ''v1'', rq_offset = 1, rq_length = 2\<rparr>"

lemma storage_read_witness:
  "\<exists>cs. Read ''epub'' False (\<lambda>_. False) sample_read = (cs, None)
    \<and> chunks_ok (rq_offset sample_read) (rq_offset sample_read + rq_length sample_read) cs
    \<and> concat (map ck_data cs) = byte_range ''epub'' (rq_offset sample_read) (rq_offset sample_read + rq_length sample_read)
    \<and> (\<forall>fails sent res. Read ''epub'' False fails sample_read = (sent, res) \<longrightarrow> (\<exists>rest. cs = sent @ rest \<and> res = (if rest = [] then None else Some SendFailed)))"
  by (rule storage_read [where e = "file_entry ''epub'' ''book''"])
    (simp_all add: sample_read_def Stat_def entry_of_def scale_sources_def file_entry_def)

end
