(* ===== verification/Spec2Isabelle.thy ===== *)
theory Spec2Isabelle
  imports Process_Properties Provider_Properties Host_Properties Record_Properties Plugin_Properties
begin

text \<open>
  A model of the Bloem plugin SDK (Go): what a plugin process does between reading its
  manifest and serving its capabilities, what it asks of its host, and three of the reference
  plugins under \<open>src/examples\<close>.

  \<^bold>\<open>The program.\<close> A plugin carries a JSON manifest. \<open>manifest.LoadWithChecksum\<close> decodes and
  stamps it (version, SHA-256 of the executable) and \<open>manifest.Validate\<close> accepts or refuses
  it. \<open>runtime.ServeManifest\<close> checks the accepted manifest against the gRPC servers the
  plugin supplies and registers them; the \<open>manifest\<close> subcommand prints the manifest instead.
  While it serves, the process talks to its host through one RuntimeHost client
  (\<open>runtime.pluginHost\<close>, \<open>runtimehost\<close>), keeps private state there and reports its status. A
  host turns the capabilities of a manifest into untyped records and back (\<open>convert\<close>) and
  checks saved configuration values (\<open>config\<close>). \<open>httpclient\<close> is the JSON client plugins use
  for the services they wrap.

  \<^bold>\<open>Theories and sources\<close> (paths under \<open>src/\<close>):

  \<^item> \<open>Prelude\<close>: Go results as values (\<open>'e option\<close> for an error, \<open>'e + 'a\<close> for a result with
    an error, \<open>verdict\<close> where the code may panic), early-return loops (\<open>first_error\<close>), nil-safe
    getters, runs of a step relation, and the shared locales.
  \<^item> \<open>Go_Text\<close>, \<open>Go_Json\<close>: the parts of Go's \<open>strings\<close>, \<open>unicode\<close>, \<open>utf8\<close>, \<open>strconv\<close> and
    \<open>encoding/json\<close> that the SDK calls, on byte strings. \<open>Json_Column\<close>: an \<open>any\<close> through \<open>json.Marshal\<close>
    and \<open>json.Unmarshal\<close>.
  \<^item> \<open>Proto\<close>: the message structs of \<open>pkg/pluginproto/silo/plugin/v1\<close> the SDK reads and writes,
    and the constants of \<open>pkg/pluginsdk/capability/capability.go\<close>.
  \<^item> \<open>Manifest_Errors\<close>, \<open>Watch_Sync\<close>, \<open>Auth_Modes\<close>, \<open>Wording\<close>, \<open>Presentation\<close>, \<open>Admin_Form\<close>,
    \<open>Manifest\<close>: \<open>pkg/pluginsdk/manifest/manifest.go\<close> and \<open>checksum.go\<close>; one theory per group of
    rules, one error constructor per \<open>fmt.Errorf\<close>. \<open>Manifest_Diagnoses\<close>: what each of these
    errors says is wrong with the manifest.
  \<^item> \<open>Config\<close>: \<open>pkg/pluginsdk/config/config.go\<close>.
  \<^item> \<open>Monitor\<close>: goroutines whose methods run under one mutex, statement by statement, and the runs
    of a process that may be killed between two statements. \<open>Nested_Monitor\<close>: two monitors, where methods of
    the outer one call methods of the inner one.
  \<^item> \<open>Host_Broker\<close>: \<open>pluginHostState\<close> of \<open>pkg/pluginsdk/runtime/runtime.go\<close>, one call at a time;
    \<open>Host_Goroutines\<close>: the statements of its methods, run by concurrent goroutines.
  \<^item> \<open>Serve\<close>: the plugin side of \<open>runtime.go\<close>, \<open>serve_manifest.go\<close> and \<open>storage_provider.go\<close>;
    \<open>Plugin_Client\<close>: the host side, \<open>runtime.Client\<close> with its typed accessors, and the order of
    the services.
  \<^item> \<open>Runtime_Host\<close>: \<open>client.go\<close>, \<open>events.go\<close>, \<open>discovery.go\<close> and \<open>host_info.go\<close> of
    \<open>pkg/pluginsdk/runtimehost\<close>; \<open>Host_Calls\<close>: its \<open>instance_state.go\<close>, \<open>call_json.go\<close> and
    \<open>network_access.go\<close>.
  \<^item> \<open>Convert\<close>: \<open>pkg/pluginsdk/convert/convert.go\<close>; \<open>Http_Client\<close>:
    \<open>pkg/pluginsdk/httpclient/httpclient.go\<close>.
  \<^item> \<open>Network_Stub\<close>, \<open>Scan_Source\<close>, \<open>Storage_Fixture\<close>: \<open>examples/hello-network-access/main.go\<close>,
    \<open>examples/hello-scan-source/main.go\<close> and \<open>examples/hello-storage/provider.go\<close>;
    \<open>Stub_Client\<close>: the calls of the stub on the instance state client; \<open>Stub_Goroutines\<close>: the
    statements of its handlers, run by concurrent goroutines of a process that may be killed;
    \<open>Stub_Process\<close>: the handlers over the broker singleton, with both mutexes.
  \<^item> \<open>Plugin_Mains\<close>: the entry points of the examples and of \<open>cmd/compat-probe\<close> (bootstrap, \<open>main\<close>,
    Runtime servers, the task of \<open>hello-runtime-host\<close>), \<open>newProvider\<close> of \<open>hello-storage\<close> and
    \<open>pkg/pluginsdk/runtimedefault/runtime.go\<close>.
  \<^item> \<open>Manifest_Properties\<close>, \<open>Runtime_Properties\<close>, \<open>Process_Properties\<close>, \<open>Host_Properties\<close>, \<open>Provider_Properties\<close>, \<open>Record_Properties\<close>,
    \<open>Plugin_Properties\<close>: the properties, numbered C1 to C40 in the order of their importance, with their witnesses.
\<close>

text \<open>
  \<^bold>\<open>What the lemmas show.\<close>

  \<^item> Each validator has a declarative contract (\<open>watch_sync_ok\<close>, \<open>auth_capability_ok\<close>,
    \<open>presentation_ok\<close>, \<open>config_schema_ok\<close>, up to \<open>manifest_ok\<close>) that does not mention the order
    of the checks, and a lemma in \<open>accept_iff\<close> that it returns no error exactly on its contract.
    \<open>Validate\<close> is composed from these. What a caller may rely on afterwards (a network mode
    is exclusive and paired with a provider, an accepted manifest stays accepted when routes are
    added) and the one way to panic are properties of their own.
  \<^item> The broker singleton, the stub with the host's state, and the scan source with its log are
    step relations (\<open>host_step\<close>, \<open>net_step\<close>, \<open>log_step\<close>); their invariants are proved once by
    induction over runs. The dials, the host's answers, failing reads and writes, lost responses,
    restarts, and appends in the middle of a poll are choices of the environment.
  \<^item> The serving lemmas follow the startup checks to the registrations they guarantee, to the
    server a typed accessor of the host reaches, and through the \<open>main\<close> functions of the examples; the
    registrations are in the linear order of the services. The client
    lemmas state requests and results of each call with the widths of Go's integers (\<open>int\<close> is
    64 bits, \<open>int32(x)\<close> truncates).
  \<^item> The atomicity of the calls in \<open>Host_Broker\<close> and of the handlers in \<open>Network_Stub\<close> is proved:
    in \<open>Monitor\<close>, goroutines take the lock, execute one statement at a time, release the lock and
    return, in any interleaving, and the calls that returned are a run of whole calls, in which
    every goroutine got its answer (\<open>linearizable\<close>, \<open>return_answers\<close>), also when the process is killed
    between two statements and starts again (\<open>life_linearizable\<close>). Where every call ends with the
    lock released, every open call can still return (\<open>call_can_return\<close>).
  \<^item> The handlers of the stub hold their mutex while they call \<open>Host()\<close>, which takes that of the singleton; no
    method of the singleton calls a handler. \<open>Nested_Monitor\<close> projects a run with both mutexes to a run of
    each monitor, and shows from the lock order that no call is blocked for good (\<open>outer_call_returns\<close>,
    \<open>inner_call_returns\<close>). In \<open>Stub_Process\<close> what \<open>Host()\<close> returns to a handler is what the singleton returned,
    so that the state of the binding decides which acknowledged changes the host holds. A handler without a host
    acknowledges a change it did not persist, and a report of the status may fail: \<open>acknowledged\<close> and \<open>net_effect\<close> keep
    these apart from persisted changes and received reports.
  \<^item> The error of a refused manifest is true: \<open>Validate\<close> returns an error only of a manifest that has
    the fault the error names (\<open>manifest_finding\<close>).
  \<^item> \<open>Stub_Client\<close> composes the stub with the instance state client and shows by simulation that the
    composed system has the stub's invariant; \<open>poll_reference\<close> is what a poll gives for any marker.
  \<^item> The storage lemmas show what the chunks of \<open>Read\<close> add up to and that paging ends.

  \<^bold>\<open>Interfaces.\<close> \<open>checker\<close> (a validator with its contract) is interpreted on every validator,
  its extension \<open>diagnosing\<close> (a validator whose errors are true) on the config schemas, \<open>monitor\<close>,
  a \<open>safe_system\<close> of its own, with \<open>live_monitor\<close> and \<open>crash_monitor\<close>, on the statements of the
  broker singleton and of the stub, \<open>nested\<close> (two \<open>live_monitor\<close>s with the calls of one on the other) on both together,
  \<open>seen_loop\<close> (a loop that refuses duplicates) on the settings, auth mode and form field loops,
  \<open>safe_system\<close> (an invariant of a step relation) on the three state machines, its extension \<open>simulation\<close> on
  the stub over its client, \<open>paged\<close> (a listing
  with cursors) on the large directory and \<open>state_store\<close> on the instance state client over a host
  that stores what it is given.

  \<^bold>\<open>Parameters.\<close> Code outside the repository is a field of a record the definitions take as an
  argument: \<open>ext\<close> (\<open>structpb\<close>'s \<open>AsInterface\<close>, \<open>net/url.Parse\<close>), \<open>platform\<close> (protojson, the file
  system, the executable, SHA-256), \<open>serve_env\<close> (go-plugin and the standard streams),
  \<open>codec\<close> and \<open>converter\<close> (protobuf and JSON conversions), \<open>transport\<close> (HTTP),
  \<open>schema_compiler\<close> (JSON Schema), \<open>zip_writer\<close> (\<open>archive/zip\<close>), the dispatch of gRPC calls, \<open>net_env\<close> (the host's answers during one handler), and each
  RPC as a function. Where a property needs one of them to behave, its documented behaviour is a
  named hypothesis (\<open>converts\<close>, \<open>documented_state_host\<close>, \<open>documented_dispatch\<close>), with a witness that has a concrete one.
  \<open>converts\<close> speaks of the libraries only: a schema is encoded as a JSON object of its fields under their names, and any object
  with these fields decodes to it (\<open>schema_fields\<close>); that the SDK's restored fields keep this is a lemma.

  \<^bold>\<open>Bounds and fuel.\<close> The JSON parser runs on fuel \<open>2 * length + 1\<close>; each call of the parser
  consumes a byte or descends once per byte consumed, and \<open>parse_fuel_enough\<close> shows that the fuel never
  runs out, so that a parse failure of the model is one of the code. A walk through the large
  directory has fuel, and any fuel above the number of its entries is enough. The log of the scan
  source is shorter than \<open>2 ^ 63\<close> bytes, the largest file offset. \<open>Read\<close> of the storage fixture
  checks its range before it adds, so \<open>int64\<close> does not wrap there.

  \<^bold>\<open>Not modelled.\<close> Generated code (\<open>*.pb.go\<close> beyond the message structs; a generated client is its
  service and connection), the doc comments of \<open>imagevariant\<close> (its constants are in \<open>Proto\<close>), log output, and the wording of error messages (an error is a constructor with the
  values it prints). Contexts are modelled where the code looks at them (the deadline added by the
  JSON calls, cancellation of a storage stream). Kills are steps of \<open>Stub_Goroutines\<close>; in
  \<open>Stub_Process\<close> a run is one life of the process, and the properties hold for every stored value it starts with. The
  storage provider keeps no mutable state, so that its streams do not interact.
\<close>

end
